(* ===== verification/Berth_Prelude.thy ===== *)
theory Berth_Prelude
  imports Main "HOL-Library.Word" "HOL-Library.Sublist" "HOL-Library.Signed_Division"
begin

text \<open>
  Shared vocabulary of the development: the Go types the sources use (instants,
  durations, 32- and 64-bit integers, errors), the operations of the standard library
  on them, and the generic lemmas on words, options and association lists that the
  component theories rely on.

  \<^item> An instant (\<open>time.Time\<close>) is the number of nanoseconds since the Unix epoch, an
    unbounded integer: the range of \<open>time.Time\<close> is billions of years, so adding a
    duration never wraps.
  \<^item> A duration (\<open>time.Duration\<close>) is an integer number of nanoseconds; conversions that
    multiply wrap at 64 bits, as the Go multiplication does.
  \<^item> Fencing tokens and record versions are machine words of 32 and 64 bits, read as
    signed numbers with \<open>sint\<close>.
  \<^item> An error is a value of \<open>goerr\<close>; \<open>ErrWrap\<close> is \<open>fmt.Errorf\<close> with the verb \<open>%w\<close>,
    \<open>ErrText\<close> is \<open>errors.New\<close> (or \<open>fmt.Errorf\<close> without \<open>%w\<close>).  Only the fixed part
    of a message is kept, never the interpolated values.
\<close>

named_theorems go_simps \<open>unfoldings of the small Go library functions\<close>
named_theorems int_bounds \<open>facts about signed machine integers near their bounds\<close>

section \<open>Instants and durations\<close>

type_synonym time = int
type_synonym duration = int
type_synonym int32 = "32 word"
type_synonym int64 = "64 word"

abbreviation nanosecond :: duration where
  "nanosecond \<equiv> 1"

abbreviation microsecond :: duration where
  "microsecond \<equiv> 1000"

abbreviation millisecond :: duration where
  "millisecond \<equiv> 1000000"

abbreviation second :: duration where
  "second \<equiv> 1000000000"

text \<open>The zero value of \<open>time.Time\<close>: 1 January of year 1, 00:00 UTC.\<close>

definition zero_time :: time where
  "zero_time = - 62135596800 * second"

definition time_IsZero :: "time \<Rightarrow> bool" where
  [go_simps]: "time_IsZero t \<longleftrightarrow> t = zero_time"

definition time_Add :: "time \<Rightarrow> duration \<Rightarrow> time" where
  [go_simps]: "time_Add t d = t + d"

definition time_Before :: "time \<Rightarrow> time \<Rightarrow> bool" where
  [go_simps]: "time_Before t u \<longleftrightarrow> t < u"

definition time_After :: "time \<Rightarrow> time \<Rightarrow> bool" where
  [go_simps]: "time_After t u \<longleftrightarrow> u < t"

text \<open>\<open>Time.Sub\<close> saturates at the bounds of a 64-bit duration.\<close>

definition time_Sub :: "time \<Rightarrow> time \<Rightarrow> duration" where
  "time_Sub t u = max (- (2 ^ 63)) (min (2 ^ 63 - 1) (t - u))"

lemma time_Sub_exact:
  "\<bar>t - u\<bar> < 2 ^ 63 \<Longrightarrow> time_Sub t u = t - u"
  by (simp add: time_Sub_def)

lemma time_Sub_ge_iff:
  "- (2 ^ 63) < d \<Longrightarrow> d \<le> 2 ^ 63 - 1 \<Longrightarrow> d \<le> time_Sub t u \<longleftrightarrow> d \<le> t - u"
  by (auto simp: time_Sub_def)

lemma time_Sub_gt_iff:
  "- (2 ^ 63) \<le> d \<Longrightarrow> d < 2 ^ 63 - 1 \<Longrightarrow> d < time_Sub t u \<longleftrightarrow> d < t - u"
  by (auto simp: time_Sub_def)

text \<open>Multiplying an integer into a duration, \<open>time.Duration(n) * unit\<close>, wraps at 64 bits.\<close>

definition wrap64 :: "int \<Rightarrow> int" where
  "wrap64 n = signed_take_bit 63 n"

definition in_int64 :: "int \<Rightarrow> bool" where
  "in_int64 n \<longleftrightarrow> - (2 ^ 63) \<le> n \<and> n < 2 ^ 63"

lemma wrap64_id: "in_int64 n \<Longrightarrow> wrap64 n = n"
  by (simp add: wrap64_def in_int64_def signed_take_bit_int_eq_self)

lemma in_int64_wrap64 [simp]: "in_int64 (wrap64 n)"
  using signed_take_bit_int_greater_eq_minus_exp [of 63 n] signed_take_bit_int_less_exp [of 63 n]
  by (simp add: wrap64_def in_int64_def)

definition seconds :: "int \<Rightarrow> duration" where
  "seconds n = wrap64 (n * second)"

lemma seconds_id: "\<bar>n\<bar> \<le> 9223372036 \<Longrightarrow> seconds n = n * second"
  unfolding seconds_def by (rule wrap64_id) (auto simp: in_int64_def)

section \<open>Signed machine integers\<close>

definition MaxInt32 :: int32 where
  "MaxInt32 = 2147483647"

definition MaxInt64 :: int64 where
  "MaxInt64 = 9223372036854775807"

lemma sint_int32_bounds [int_bounds]:
  "- 2147483648 \<le> sint (t :: int32)" "sint t \<le> 2147483647"
  using sint_ge [of t] sint_lt [of t] by simp_all

lemma sint_int64_bounds [int_bounds]:
  "- 9223372036854775808 \<le> sint (v :: int64)" "sint v \<le> 9223372036854775807"
  using sint_ge [of v] sint_lt [of v] by simp_all

lemma sint_MaxInt32 [simp]: "sint MaxInt32 = 2147483647"
  by (simp add: MaxInt32_def)

lemma sint_MaxInt64 [simp]: "sint MaxInt64 = 9223372036854775807"
  by (simp add: MaxInt64_def)

lemma sint_eq_iff_eq:
  fixes a b :: "'a::len word"
  shows "sint a = sint b \<longleftrightarrow> a = b"
proof
  assume "sint a = sint b"
  then have "word_of_int (sint a) = (word_of_int (sint b) :: 'a word)" by (rule arg_cong)
  then show "a = b" by simp
qed simp

text \<open>Adding one is exact below the ceiling, and wraps only there.\<close>

lemma sint_succ_int32:
  assumes "t \<noteq> MaxInt32"
  shows "sint (t + 1) = sint t + 1"
proof -
  have "sint t \<noteq> 2147483647"
    using assms sint_eq_iff_eq [of t MaxInt32] by simp
  then have "sint t + 1 < 2 ^ 31" "- (2 ^ 31) \<le> sint t + 1"
    using sint_int32_bounds [of t] by auto
  then show ?thesis
    using signed_take_bit_int_eq_self [of 31 "sint t + 1"]
    by (simp add: sint_word_ariths)
qed

lemma sint_succ_int64:
  assumes "sint v < 9223372036854775807"
  shows "sint (v + 1 :: int64) = sint v + 1"
proof -
  have "sint v + 1 < 2 ^ 63" "- (2 ^ 63) \<le> sint v + 1"
    using assms sint_int64_bounds [of v] by auto
  then show ?thesis
    using signed_take_bit_int_eq_self [of 63 "sint v + 1"]
    by (simp add: sint_word_ariths)
qed

section \<open>Errors\<close>

datatype goerr =
    ErrNotFound
  | ErrConflict
  | ClientErrConflict
  | ErrCtxDone
  | ErrText string
  | ErrWrap string goerr
  | ErrJoin goerr goerr

type_synonym 'a outcome = "goerr + 'a"

text \<open>\<open>errors.Is\<close> walks the chain of wrapped errors, both branches of a join included.\<close>

fun errors_Is :: "goerr \<Rightarrow> goerr \<Rightarrow> bool" where
  "errors_Is (ErrWrap m e) target = (ErrWrap m e = target \<or> errors_Is e target)"
| "errors_Is (ErrJoin a b) target =
     (ErrJoin a b = target \<or> errors_Is a target \<or> errors_Is b target)"
| "errors_Is e target = (e = target)"

lemma errors_Is_refl [simp]: "errors_Is e e"
  by (cases e) simp_all

text \<open>\<open>errors.Join\<close> drops nil errors.\<close>

fun errors_Join :: "goerr option \<Rightarrow> goerr option \<Rightarrow> goerr option" where
  "errors_Join None b = b"
| "errors_Join a None = a"
| "errors_Join (Some a) (Some b) = Some (ErrJoin a b)"

lemma errors_Join_None [simp]: "errors_Join a None = a"
  by (cases a) simp_all

lemma errors_Join_eq_None: "errors_Join a b = None \<longleftrightarrow> a = None \<and> b = None"
  by (cases a; cases b) simp_all

text \<open>A chain of guards that each report an error passes when no guard fires.\<close>

lemma guard_None: "(if b then Some e else x) = None \<longleftrightarrow> \<not> b \<and> x = None"
  by simp

section \<open>Association lists as Go maps\<close>

lemma map_of_distinct_conv:
  "distinct (map fst al) \<Longrightarrow> map_of al k = Some v \<longleftrightarrow> (k, v) \<in> set al"
  by simp

lemma sum_case_distinct [simp]:
  "(case x of Inl e \<Rightarrow> Inl e | Inr v \<Rightarrow> Inr v) = x"
  by (cases x) simp_all

end
