(* ===== verification/Go_Text.thy ===== *)
theory Go_Text
  imports Berth_Prelude
begin

text \<open>
  The parts of the Go packages \<open>strings\<close> and \<open>strconv\<close> that the sources call, on
  strings as lists of bytes (\<open>len\<close> counts bytes): \<open>TrimSpace\<close>, \<open>HasPrefix\<close>,
  \<open>Contains\<close>, \<open>SplitN\<close> with limit two, \<open>Split\<close>, \<open>Join\<close>, \<open>FormatInt\<close>,
  \<open>ParseInt\<close> in base ten and \<open>ParseBool\<close>.  The main fact is that parsing undoes
  formatting for every signed integer of the given width.
\<close>

section \<open>White space\<close>

text \<open>
  \<open>unicode.IsSpace\<close> on the UTF-8 encoding: the six ASCII characters, U+0085 and U+00A0
  (two bytes), and the white-space runes of three bytes.
\<close>

definition ascii_space :: "char \<Rightarrow> bool" where
  "ascii_space c \<longleftrightarrow> of_char c \<in> {9, 10, 11, 12, 13, 32 :: nat}"

definition wide_space2 :: "char \<Rightarrow> char \<Rightarrow> bool" where
  "wide_space2 a b \<longleftrightarrow> of_char a = (0xC2 :: nat) \<and> of_char b \<in> {0x85, 0xA0 :: nat}"

definition wide_space3 :: "char \<Rightarrow> char \<Rightarrow> char \<Rightarrow> bool" where
  "wide_space3 a b c \<longleftrightarrow>
     (let x = of_char a; y = of_char b; z = (of_char c :: nat) in
        (x = (0xE1 :: nat) \<and> y = (0x9A :: nat) \<and> z = 0x80)
      \<or> (x = 0xE2 \<and> y = 0x80 \<and> (0x80 \<le> z \<and> z \<le> 0x8A \<or> z \<in> {0xA8, 0xA9, 0xAF}))
      \<or> (x = 0xE2 \<and> y = 0x81 \<and> z = 0x9F)
      \<or> (x = 0xE3 \<and> y = 0x80 \<and> z = 0x80))"

fun trim_left :: "string \<Rightarrow> string" where
  "trim_left [] = []"
| "trim_left [a] = (if ascii_space a then [] else [a])"
| "trim_left [a, b] =
     (if ascii_space a then trim_left [b] else if wide_space2 a b then [] else [a, b])"
| "trim_left (a # b # c # s) =
     (if ascii_space a then trim_left (b # c # s)
      else if wide_space2 a b then trim_left (c # s)
      else if wide_space3 a b c then trim_left s
      else a # b # c # s)"

text \<open>The same from the right end, on the reversed bytes.\<close>

fun trim_right_rev :: "string \<Rightarrow> string" where
  "trim_right_rev [] = []"
| "trim_right_rev [a] = (if ascii_space a then [] else [a])"
| "trim_right_rev [b, a] =
     (if ascii_space b then trim_right_rev [a] else if wide_space2 a b then [] else [b, a])"
| "trim_right_rev (c # b # a # s) =
     (if ascii_space c then trim_right_rev (b # a # s)
      else if wide_space2 b c then trim_right_rev (a # s)
      else if wide_space3 a b c then trim_right_rev s
      else c # b # a # s)"

definition TrimSpace :: "string \<Rightarrow> string" where
  "TrimSpace s = rev (trim_right_rev (rev (trim_left s)))"

definition printable :: "char \<Rightarrow> bool" where
  "printable c \<longleftrightarrow> 33 \<le> (of_char c :: nat) \<and> of_char c \<le> (126 :: nat)"

lemma printable_not_space:
  "printable c \<Longrightarrow> \<not> ascii_space c"
  "printable c \<Longrightarrow> \<not> wide_space2 c b"
  "printable c \<Longrightarrow> \<not> wide_space2 b c"
  "printable c \<Longrightarrow> \<not> wide_space3 c b d"
  "printable c \<Longrightarrow> \<not> wide_space3 d b c"
  by (auto simp: printable_def ascii_space_def wide_space2_def wide_space3_def Let_def)

lemma trim_left_printable: "s = [] \<or> printable (hd s) \<Longrightarrow> trim_left s = s"
  by (cases s rule: trim_left.cases) (auto simp: printable_not_space)

lemma trim_right_rev_printable: "s = [] \<or> printable (hd s) \<Longrightarrow> trim_right_rev s = s"
  by (cases s rule: trim_right_rev.cases) (auto simp: printable_not_space)

text \<open>A string that starts and ends with printable ASCII characters is left alone.\<close>

lemma TrimSpace_printable:
  assumes "s = [] \<or> printable (hd s) \<and> printable (last s)"
  shows "TrimSpace s = s"
proof -
  have "trim_left s = s"
    using assms by (auto intro: trim_left_printable)
  moreover have "trim_right_rev (rev s) = rev s"
    using assms by (cases "s = []") (auto intro: trim_right_rev_printable simp: hd_rev)
  ultimately show ?thesis by (simp add: TrimSpace_def)
qed

lemma length_trim_left: "length (trim_left s) \<le> length s"
  by (induction s rule: trim_left.induct) auto

lemma length_trim_right_rev: "length (trim_right_rev s) \<le> length s"
  by (induction s rule: trim_right_rev.induct) auto

lemma length_TrimSpace: "length (TrimSpace s) \<le> length s"
  using length_trim_right_rev [of "rev (trim_left s)"] length_trim_left [of s]
  by (simp add: TrimSpace_def)

section \<open>Prefixes, splitting, joining\<close>

definition HasPrefix :: "string \<Rightarrow> string \<Rightarrow> bool" where
  "HasPrefix s p \<longleftrightarrow> prefix p s"

definition TrimPrefix :: "string \<Rightarrow> string \<Rightarrow> string" where
  "TrimPrefix s p = (if HasPrefix s p then drop (length p) s else s)"

definition TrimSuffix :: "string \<Rightarrow> string \<Rightarrow> string" where
  "TrimSuffix s p = (if suffix p s then take (length s - length p) s else s)"

definition ContainsChar :: "string \<Rightarrow> char \<Rightarrow> bool" where
  "ContainsChar s c \<longleftrightarrow> c \<in> set s"

lemma HasPrefix_append: "HasPrefix (p @ s) p"
  by (simp add: HasPrefix_def)

lemma HasPrefixE:
  assumes "HasPrefix s p"
  obtains r where "s = p @ r"
  using assms by (auto simp: HasPrefix_def elim: prefixE)

text \<open>\<open>strings.SplitN(s, c, 2)\<close> for a separator of one character.\<close>

definition SplitN2 :: "string \<Rightarrow> char \<Rightarrow> string list" where
  "SplitN2 s c =
     (if c \<in> set s
      then [takeWhile (\<lambda>x. x \<noteq> c) s, tl (dropWhile (\<lambda>x. x \<noteq> c) s)]
      else [s])"

fun go_Split :: "string \<Rightarrow> char \<Rightarrow> string list" where
  "go_Split [] c = [[]]"
| "go_Split (x # s) c =
     (if x = c then [] # go_Split s c
      else (case go_Split s c of [] \<Rightarrow> [[x]] | w # ws \<Rightarrow> (x # w) # ws))"

fun go_Join :: "string list \<Rightarrow> string \<Rightarrow> string" where
  "go_Join [] sep = []"
| "go_Join [a] sep = a"
| "go_Join (a # b # xs) sep = a @ sep @ go_Join (b # xs) sep"

text \<open>The first separator decides the split, so a key without it can be read back.\<close>

lemma SplitN2_append:
  assumes "c \<notin> set a"
  shows "SplitN2 (a @ c # b) c = [a, b]"
proof -
  have "takeWhile (\<lambda>x. x \<noteq> c) (a @ c # b) = a" "dropWhile (\<lambda>x. x \<noteq> c) (a @ c # b) = c # b"
    using assms by (auto simp: takeWhile_append dropWhile_append)
  then show ?thesis by (simp add: SplitN2_def)
qed

lemma append_sep_inject:
  fixes c :: char
  assumes "c \<notin> set a" and "c \<notin> set a'" and "a @ c # b = a' @ c # b'"
  shows "a = a' \<and> b = b'"
proof -
  have "[a, b] = SplitN2 (a @ c # b) c"
    by (rule SplitN2_append [OF assms(1), symmetric])
  also have "\<dots> = SplitN2 (a' @ c # b') c"
    by (simp only: assms(3))
  also have "\<dots> = [a', b']"
    by (rule SplitN2_append [OF assms(2)])
  finally show ?thesis by simp
qed

lemma go_Split_nonempty: "go_Split s c \<noteq> []"
  by (induction s) (auto split: list.splits)

lemma go_Split_append: "c \<notin> set a \<Longrightarrow> go_Split (a @ c # s) c = a # go_Split s c"
  by (induction a) auto

lemma go_Split_plain: "c \<notin> set a \<Longrightarrow> go_Split a c = [a]"
  by (induction a) auto

lemma go_Split_snoc: "c \<notin> set n \<Longrightarrow> go_Split (d @ c # n) c = go_Split d c @ [n]"
proof (induction d)
  case Nil
  then show ?case by (simp add: go_Split_plain)
next
  case (Cons x d)
  then show ?case
    using go_Split_nonempty [of d c] by (cases "go_Split d c") simp_all
qed

lemma go_Join_snoc: "xs \<noteq> [] \<Longrightarrow> go_Join (xs @ [u]) s = go_Join xs s @ s @ u"
proof (induction xs s rule: go_Join.induct)
  case (3 a b xs sep)
  then show ?case by simp
qed simp_all

section \<open>Decimal numbers\<close>

definition digit_char :: "nat \<Rightarrow> char" where
  "digit_char d = char_of (48 + d)"

definition is_digit :: "char \<Rightarrow> bool" where
  "is_digit c \<longleftrightarrow> 48 \<le> (of_char c :: nat) \<and> of_char c \<le> (57 :: nat)"

definition digit_val :: "char \<Rightarrow> nat" where
  "digit_val c = of_char c - 48"

fun format_nat :: "nat \<Rightarrow> string" where
  "format_nat n =
     (if n < 10 then [digit_char n] else format_nat (n div 10) @ [digit_char (n mod 10)])"

declare format_nat.simps [simp del]

definition FormatInt :: "int \<Rightarrow> string" where
  "FormatInt n = (if n < 0 then CHR ''-'' # format_nat (nat (- n)) else format_nat (nat n))"

definition parse_digits :: "string \<Rightarrow> int option" where
  "parse_digits s =
     (if s \<noteq> [] \<and> list_all is_digit s
      then Some (foldl (\<lambda>n c. 10 * n + int (digit_val c)) 0 s) else None)"

text \<open>
  \<open>strconv.ParseInt(s, 10, bits)\<close>: an optional sign, at least one digit, nothing else,
  and a value in the range of a signed integer of that width.
\<close>

definition ParseInt :: "nat \<Rightarrow> string \<Rightarrow> int option" where
  "ParseInt bits s =
     (let neg = (s \<noteq> [] \<and> hd s = CHR ''-'');
          body = (if s \<noteq> [] \<and> (hd s = CHR ''-'' \<or> hd s = CHR ''+'') then tl s else s)
      in case parse_digits body of
           None \<Rightarrow> None
         | Some u \<Rightarrow>
             if \<not> neg \<and> u \<ge> 2 ^ (bits - 1) then None
             else if neg \<and> u > 2 ^ (bits - 1) then None
             else Some (if neg then - u else u))"

abbreviation Atoi :: "string \<Rightarrow> int option" where
  "Atoi \<equiv> ParseInt 64"

definition ParseBool :: "string \<Rightarrow> bool option" where
  "ParseBool s =
     (if s \<in> {''1'', ''t'', ''T'', ''TRUE'', ''true'', ''True''} then Some True
      else if s \<in> {''0'', ''f'', ''F'', ''FALSE'', ''false'', ''False''} then Some False
      else None)"

lemma of_digit_char: "d < 10 \<Longrightarrow> of_char (digit_char d) = 48 + d"
  by (simp add: digit_char_def of_char_mod_256)

lemma is_digit_digit_char: "d < 10 \<Longrightarrow> is_digit (digit_char d)"
  by (simp add: is_digit_def of_digit_char)

lemma digit_val_digit_char: "d < 10 \<Longrightarrow> digit_val (digit_char d) = d"
  by (simp add: digit_val_def of_digit_char)

lemma format_nat_nonempty: "format_nat n \<noteq> []"
  by (subst format_nat.simps) simp

lemma format_nat_digits: "list_all is_digit (format_nat n)"
proof (induction n rule: format_nat.induct)
  case (1 n)
  then show ?case
    by (subst format_nat.simps) (simp add: is_digit_digit_char)
qed

lemma format_nat_value: "foldl (\<lambda>n c. 10 * n + int (digit_val c)) 0 (format_nat n) = int n"
proof (induction n rule: format_nat.induct)
  case (1 n)
  have "10 * int (n div 10) + int (n mod 10) = int (10 * (n div 10) + n mod 10)"
    by (simp only: of_nat_add of_nat_mult of_nat_numeral)
  then have "10 * int (n div 10) + int (n mod 10) = int n"
    by simp
  with 1 show ?case
    by (subst format_nat.simps) (simp add: digit_val_digit_char)
qed

lemma parse_format_nat: "parse_digits (format_nat n) = Some (int n)"
  by (simp add: parse_digits_def format_nat_nonempty format_nat_digits format_nat_value)

lemma digit_not_sign: "is_digit c \<Longrightarrow> c \<noteq> CHR ''-'' \<and> c \<noteq> CHR ''+''"
  by (auto simp: is_digit_def)

lemma hd_format_nat: "hd (format_nat n) \<noteq> CHR ''-'' \<and> hd (format_nat n) \<noteq> CHR ''+''"
proof -
  have "is_digit (hd (format_nat n))"
    using format_nat_digits [of n] format_nat_nonempty [of n] by (cases "format_nat n") auto
  then show ?thesis by (rule digit_not_sign)
qed

lemma FormatInt_printable:
  "printable (hd (FormatInt n)) \<and> printable (last (FormatInt n))" and
  FormatInt_nonempty: "FormatInt n \<noteq> []"
proof -
  have dig: "printable c" if "is_digit c" for c
    using that by (simp add: is_digit_def printable_def)
  have ends: "printable (hd (format_nat m)) \<and> printable (last (format_nat m))" for m
    using format_nat_digits [of m] format_nat_nonempty [of m]
    by (simp add: dig list_all_iff)
  have "printable CHR ''-''" by (simp add: printable_def)
  then show "printable (hd (FormatInt n)) \<and> printable (last (FormatInt n))"
    using ends by (simp add: FormatInt_def format_nat_nonempty)
  show "FormatInt n \<noteq> []"
    by (simp add: FormatInt_def format_nat_nonempty)
qed

lemma ParseInt_FormatInt:
  assumes "0 < bits" and "- (2 ^ (bits - 1)) \<le> n" and "n < 2 ^ (bits - 1)"
  shows "ParseInt bits (FormatInt n) = Some n"
proof (cases "n < 0")
  case True
  with assms(2) show ?thesis
    by (simp add: ParseInt_def FormatInt_def parse_format_nat Let_def)
next
  case False
  with assms(3) show ?thesis
    by (simp add: ParseInt_def FormatInt_def parse_format_nat Let_def hd_format_nat)
qed

lemma TrimSpace_FormatInt: "TrimSpace (FormatInt n) = FormatInt n"
  by (rule TrimSpace_printable) (simp add: FormatInt_printable)

end
