(* ===== verification/Lease_Core.thy ===== *)
theory Lease_Core
  imports Go_Text
begin

text \<open>
  The data of a lease and the checks on its key and holder
  (\<open>internal/lease/store.go\<close>, \<open>internal/lease/validate.go\<close>, and the helper
  \<open>tombstoneFrom\<close> of \<open>internal/lease/manager.go\<close>).

  The RFC 1123 predicates are calls into \<open>k8s.io/apimachinery\<close>, which is not part of
  the repository.  They are the fields of \<open>dns1123\<close>, a parameter of every definition
  that needs them; \<open>dns1123_ok\<close> states the documented behaviour the sources rely on.
\<close>

named_theorems lease_defs \<open>unfoldings of the record predicates\<close>

section \<open>Keys and records (store.go)\<close>

record Key =
  key_Namespace :: string
  key_Name :: string

record lease_record =
  rec_Key :: Key
  rec_Holder :: string
  rec_TTL :: duration
  rec_AcquiredAt :: time
  rec_RenewedAt :: time
  rec_FencingToken :: int32
  rec_Version :: int64

definition ExpiresAt :: "lease_record \<Rightarrow> time" where
  [lease_defs]: "ExpiresAt r = time_Add (rec_RenewedAt r) (rec_TTL r)"

definition Expired :: "lease_record \<Rightarrow> time \<Rightarrow> bool" where
  [lease_defs]: "Expired r now \<longleftrightarrow> time_After now (ExpiresAt r)"

definition Tombstone :: "lease_record \<Rightarrow> bool" where
  [lease_defs]: "Tombstone r \<longleftrightarrow> rec_Holder r = []"

text \<open>
  \<open>tombstoneFrom\<close> leaves \<open>Version\<close> at its zero value; the store overwrites it.
\<close>

definition tombstoneFrom :: "lease_record \<Rightarrow> time \<Rightarrow> lease_record" where
  "tombstoneFrom cur now =
     \<lparr>rec_Key = rec_Key cur, rec_Holder = [], rec_TTL = 0,
      rec_AcquiredAt = rec_AcquiredAt cur, rec_RenewedAt = now,
      rec_FencingToken = rec_FencingToken cur, rec_Version = 0\<rparr>"

section \<open>Validation (validate.go)\<close>

record dns1123 =
  IsDNS1123Label :: "string \<Rightarrow> string list"
  IsDNS1123Subdomain :: "string \<Rightarrow> string list"

definition DNS1123SubdomainMaxLength :: nat where
  "DNS1123SubdomainMaxLength = 253"

definition DNS1123LabelMaxLength :: nat where
  "DNS1123LabelMaxLength = 63"

definition maxEncodedKeyLength :: nat where
  "maxEncodedKeyLength = DNS1123SubdomainMaxLength"

definition MaxHolderBytes :: nat where
  "MaxHolderBytes = 253"

definition ValidateHolder :: "string \<Rightarrow> goerr option" where
  "ValidateHolder holder =
     (if holder = [] then Some (ErrText ''holder is required'')
      else if length holder > MaxHolderBytes then Some (ErrText ''holder must be at most 253 bytes'')
      else None)"

definition ValidateKey :: "dns1123 \<Rightarrow> Key \<Rightarrow> goerr option" where
  "ValidateKey V key =
     (if IsDNS1123Label V (key_Namespace key) \<noteq> [] then Some (ErrText ''invalid namespace'')
      else if IsDNS1123Subdomain V (key_Name key) \<noteq> [] then Some (ErrText ''invalid name'')
      else if length (key_Namespace key) + 1 + length (key_Name key) > maxEncodedKeyLength
      then Some (ErrText ''invalid key'')
      else None)"

text \<open>
  What the code relies on: an accepted label is a non-empty string of at most 63
  lower-case alphanumerics and hyphens (so it holds no dot), an accepted subdomain a
  non-empty string of at most 253 of these characters and dots.
\<close>

definition dns_char :: "char \<Rightarrow> bool" where
  "dns_char c \<longleftrightarrow>
     (let n = (of_char c :: nat) in 97 \<le> n \<and> n \<le> 122 \<or> 48 \<le> n \<and> n \<le> 57 \<or> n = 45)"

definition dns1123_ok :: "dns1123 \<Rightarrow> bool" where
  "dns1123_ok V \<longleftrightarrow>
     (\<forall>s. IsDNS1123Label V s = [] \<longrightarrow>
        s \<noteq> [] \<and> length s \<le> DNS1123LabelMaxLength \<and> list_all dns_char s) \<and>
     (\<forall>s. IsDNS1123Subdomain V s = [] \<longrightarrow>
        s \<noteq> [] \<and> length s \<le> DNS1123SubdomainMaxLength \<and>
        list_all (\<lambda>c. dns_char c \<or> c = CHR ''.'') s)"

text \<open>
  A concrete pair of validators with that behaviour, the grammar of RFC 1123, used by
  the witnesses.
\<close>

definition rfc1123_segment :: "string \<Rightarrow> bool" where
  "rfc1123_segment s \<longleftrightarrow>
     s \<noteq> [] \<and> list_all dns_char s \<and> hd s \<noteq> CHR ''-'' \<and> last s \<noteq> CHR ''-''"

definition rfc1123 :: dns1123 where
  "rfc1123 =
     \<lparr>IsDNS1123Label =
        (\<lambda>s. if rfc1123_segment s \<and> length s \<le> 63 then [] else [''invalid label'']),
      IsDNS1123Subdomain =
        (\<lambda>s. if list_all rfc1123_segment (go_Split s CHR ''.'') \<and> length s \<le> 253
             then [] else [''invalid subdomain''])\<rparr>"

lemma go_Split_chars:
  "list_all (list_all P) (go_Split s c) \<Longrightarrow> list_all (\<lambda>x. P x \<or> x = c) s"
  by (induction s) (auto simp: go_Split_nonempty split: list.splits if_splits)

lemma rfc1123_ok: "dns1123_ok rfc1123"
proof -
  have label: "s \<noteq> [] \<and> length s \<le> DNS1123LabelMaxLength \<and> list_all dns_char s"
    if "IsDNS1123Label rfc1123 s = []" for s
    using that
    by (simp add: rfc1123_def rfc1123_segment_def DNS1123LabelMaxLength_def split: if_splits)
  have sub: "s \<noteq> [] \<and> length s \<le> DNS1123SubdomainMaxLength \<and>
      list_all (\<lambda>c. dns_char c \<or> c = CHR ''.'') s"
    if "IsDNS1123Subdomain rfc1123 s = []" for s
  proof -
    from that have segs: "list_all rfc1123_segment (go_Split s CHR ''.'')" and len: "length s \<le> 253"
      by (simp_all add: rfc1123_def split: if_splits)
    from segs have "s \<noteq> []"
      by (auto simp: rfc1123_segment_def)
    moreover from segs have "list_all (list_all dns_char) (go_Split s CHR ''.'')"
      by (simp add: list_all_iff rfc1123_segment_def)
    then have "list_all (\<lambda>c. dns_char c \<or> c = CHR ''.'') s"
      by (rule go_Split_chars)
    ultimately show ?thesis
      using len by (simp add: DNS1123SubdomainMaxLength_def)
  qed
  show ?thesis
    using label sub by (simp add: dns1123_ok_def)
qed

lemma ValidateKey_no_dot:
  assumes "dns1123_ok V" and "ValidateKey V key = None"
  shows "CHR ''.'' \<notin> set (key_Namespace key)"
proof -
  have "list_all dns_char (key_Namespace key)"
    using assms by (auto simp: ValidateKey_def dns1123_ok_def split: if_splits)
  moreover have "\<not> dns_char CHR ''.''"
    by (simp add: dns_char_def)
  ultimately show ?thesis
    by (auto simp: list_all_iff)
qed

lemma ValidateHolder_None:
  "ValidateHolder h = None \<longleftrightarrow> h \<noteq> [] \<and> length h \<le> 253"
  by (simp add: ValidateHolder_def MaxHolderBytes_def)

lemma tombstoneFrom_sel [simp]:
  "rec_Key (tombstoneFrom c now) = rec_Key c"
  "rec_Holder (tombstoneFrom c now) = []"
  "rec_FencingToken (tombstoneFrom c now) = rec_FencingToken c"
  "rec_RenewedAt (tombstoneFrom c now) = now"
  "rec_TTL (tombstoneFrom c now) = 0"
  "rec_AcquiredAt (tombstoneFrom c now) = rec_AcquiredAt c"
  by (simp_all add: tombstoneFrom_def)

lemma Expired_mono: "Expired r t \<Longrightarrow> t \<le> u \<Longrightarrow> Expired r u"
  by (simp add: Expired_def time_After_def)

end
