(* ===== verification/Lease_Store.thy ===== *)
theory Lease_Store
  imports Lease_Core "HOL-Library.AList" "HOL-Library.Multiset"
begin

text \<open>
  The persistence interface of the lease package (\<open>internal/lease/store.go\<close>) and its
  in-memory implementation (\<open>internal/lease/memstore.go\<close>).

  \<^item> \<open>Store\<close> is the Go interface: a record of its four methods, which pass the state of
    the backend explicitly.  A context is the value of \<open>ctx.Err()\<close> at the call.
  \<^item> A \<open>view\<close> is what a backend stores, as a map from keys to records.  \<open>legal_write\<close>
    lists the five ways in which the server writes a record; \<open>peers\<close> is what the other
    replicas may have done between two calls of one replica.
  \<^item> The locale \<open>lease_store\<close> is the contract of the interface: reads return what is
    stored, a write is a compare-and-swap on the version, and only legal writes by peers
    happen in between.  The in-memory store satisfies it.
\<close>

section \<open>The interface\<close>

type_synonym view = "Key \<Rightarrow> lease_record option"
type_synonym ctx = "goerr option"

record 's Store =
  st_Ping :: "'s \<Rightarrow> goerr option"
  st_Get :: "'s \<Rightarrow> Key \<Rightarrow> lease_record outcome \<times> 's"
  st_List :: "'s \<Rightarrow> lease_record list outcome \<times> 's"
  st_Put :: "'s \<Rightarrow> int64 \<Rightarrow> lease_record option \<Rightarrow> goerr option \<times> 's"

definition keyed :: "view \<Rightarrow> bool" where
  "keyed m \<longleftrightarrow> (\<forall>k r. m k = Some r \<longrightarrow> rec_Key r = k)"

lemma keyedD: "keyed m \<Longrightarrow> m k = Some r \<Longrightarrow> rec_Key r = k"
  by (simp add: keyed_def)

lemma keyed_upd: "keyed m \<Longrightarrow> rec_Key r = k \<Longrightarrow> keyed (m(k \<mapsto> r))"
  by (simp add: keyed_def)

text \<open>The compare-and-swap predicate: version 0 asks for an absent record.\<close>

definition cas :: "int64 \<Rightarrow> Key \<Rightarrow> view \<Rightarrow> bool" where
  "cas v k m \<longleftrightarrow>
     (if v = 0 then m k = None else (\<exists>c. m k = Some c \<and> rec_Version c = v))"

section \<open>Legal writes\<close>

datatype write_kind = Created | Renewed | Reclaimed | Released | Swept

inductive legal_write :: "write_kind \<Rightarrow> time \<Rightarrow> Key \<Rightarrow> view \<Rightarrow> view \<Rightarrow> bool" where
  created: "m k = None \<Longrightarrow> holder \<noteq> [] \<Longrightarrow> 0 < ttl \<Longrightarrow>
    legal_write Created now k m
      (m(k \<mapsto> \<lparr>rec_Key = k, rec_Holder = holder, rec_TTL = ttl, rec_AcquiredAt = now,
               rec_RenewedAt = now, rec_FencingToken = 1, rec_Version = 1\<rparr>))"
| renewed: "m k = Some c \<Longrightarrow> \<not> Tombstone c \<Longrightarrow> \<not> Expired c now \<Longrightarrow> 0 < ttl \<Longrightarrow>
    legal_write Renewed now k m
      (m(k \<mapsto> c\<lparr>rec_RenewedAt := now, rec_TTL := ttl, rec_Version := rec_Version c + 1\<rparr>))"
| reclaimed: "m k = Some c \<Longrightarrow> Tombstone c \<or> Expired c now \<Longrightarrow>
    rec_FencingToken c \<noteq> MaxInt32 \<Longrightarrow> holder \<noteq> [] \<Longrightarrow> 0 < ttl \<Longrightarrow>
    legal_write Reclaimed now k m
      (m(k \<mapsto> \<lparr>rec_Key = k, rec_Holder = holder, rec_TTL = ttl, rec_AcquiredAt = now,
               rec_RenewedAt = now, rec_FencingToken = rec_FencingToken c + 1,
               rec_Version = rec_Version c + 1\<rparr>))"
| released: "m k = Some c \<Longrightarrow> \<not> Tombstone c \<Longrightarrow>
    legal_write Released now k m
      (m(k \<mapsto> (tombstoneFrom c now)\<lparr>rec_Version := rec_Version c + 1\<rparr>))"
| swept: "m k = Some c \<Longrightarrow> \<not> Tombstone c \<Longrightarrow> Expired c now \<Longrightarrow>
    legal_write Swept now k m
      (m(k \<mapsto> (tombstoneFrom c now)\<lparr>rec_Version := rec_Version c + 1\<rparr>))"

inductive_simps legal_write_simps:
  "legal_write Created now k m m'"
  "legal_write Renewed now k m m'"
  "legal_write Reclaimed now k m m'"
  "legal_write Released now k m m'"
  "legal_write Swept now k m m'"

text \<open>
  A policy says which writes are made at all: on the kind, the clock reading, the key, the
  record before and the record after.  The policy \<open>any_write\<close> permits every legal write; the
  theorems about time use policies that bound the clock readings.
\<close>

type_synonym policy = "write_kind \<Rightarrow> time \<Rightarrow> Key \<Rightarrow> lease_record option \<Rightarrow> lease_record \<Rightarrow> bool"

definition any_write :: policy where
  [simp]: "any_write w now k old new \<longleftrightarrow> True"

definition legal_step :: "policy \<Rightarrow> view \<Rightarrow> view \<Rightarrow> bool" where
  "legal_step P m m' \<longleftrightarrow> (\<exists>w now k r. legal_write w now k m m' \<and> m' k = Some r \<and> P w now k (m k) r)"

lemma legal_stepI:
  "legal_write w now k m (m(k \<mapsto> r)) \<Longrightarrow> P w now k (m k) r \<Longrightarrow> legal_step P m (m(k \<mapsto> r))"
  by (auto simp: legal_step_def)

definition steps_within :: "policy \<Rightarrow> nat \<Rightarrow> view \<Rightarrow> view \<Rightarrow> bool" where
  "steps_within P N m m' \<longleftrightarrow> (\<exists>n < N. (legal_step P ^^ n) m m')"

text \<open>Between two consecutive calls of one replica fewer than \<open>2^32\<close> writes are made.\<close>

definition peers :: "policy \<Rightarrow> view \<Rightarrow> view \<Rightarrow> bool" where
  "peers P = steps_within P (2 ^ 32)"

lemma steps_within_refl [simp]: "0 < N \<Longrightarrow> steps_within P N m m"
  by (auto simp: steps_within_def intro: exI [of _ 0])

lemma steps_within_mono: "steps_within P N m m' \<Longrightarrow> N \<le> M \<Longrightarrow> steps_within P M m m'"
  by (meson steps_within_def less_le_trans)

lemma steps_within_trans:
  assumes "steps_within P N a b" and "steps_within P M b c"
  shows "steps_within P (N + M) a c"
proof -
  from assms obtain n k where "n < N" "k < M" "(legal_step P ^^ (n + k)) a c"
    by (auto simp: steps_within_def relpowp_add)
  then show ?thesis
    unfolding steps_within_def by (intro exI [of _ "n + k"]) simp
qed

lemma steps_within_step: "steps_within P N a b \<Longrightarrow> legal_step P b c \<Longrightarrow> steps_within P (Suc N) a c"
  unfolding steps_within_def by (meson Suc_less_eq relpowp_Suc_I)

lemma peers_refl [simp, intro]: "peers P m m"
  by (simp add: peers_def)

abbreviation legal_steps :: "policy \<Rightarrow> view \<Rightarrow> view \<Rightarrow> bool" where
  "legal_steps P \<equiv> (legal_step P)\<^sup>*\<^sup>*"

lemma steps_within_legal_steps: "steps_within P N m m' \<Longrightarrow> legal_steps P m m'"
  by (auto simp: steps_within_def dest: relpowp_imp_rtranclp)

lemma peers_legal_steps: "peers P m m' \<Longrightarrow> legal_steps P m m'"
  by (simp add: peers_def steps_within_legal_steps)

lemma legal_write_frame: "legal_write w now k m m' \<Longrightarrow> j \<noteq> k \<Longrightarrow> m' j = m j"
  by (induction rule: legal_write.induct) auto

text \<open>What one legal write does to the record of any key.\<close>

lemma legal_write_record:
  assumes "legal_write w now k m m'" and "m j = Some c"
  shows "\<exists>c'. m' j = Some c' \<and>
    (c' = c \<or> rec_Version c' = rec_Version c + 1) \<and>
    sint (rec_FencingToken c) \<le> sint (rec_FencingToken c')"
proof (cases "j = k")
  case True
  with assms show ?thesis
    by (cases w) (auto simp: legal_write_simps sint_succ_int32)
next
  case False
  with assms show ?thesis
    by (auto dest: legal_write_frame)
qed

lemma legal_step_record:
  assumes "legal_step P m m'" and "m j = Some c"
  obtains c' where "m' j = Some c'" "c' = c \<or> rec_Version c' = rec_Version c + 1"
    "sint (rec_FencingToken c) \<le> sint (rec_FencingToken c')"
proof -
  from assms(1) obtain w now k where "legal_write w now k m m'"
    by (auto simp: legal_step_def)
  from legal_write_record [OF this assms(2)] that show thesis by blast
qed

lemma legal_write_keyed: "legal_write w now k m m' \<Longrightarrow> keyed m \<Longrightarrow> keyed m'"
  by (erule legal_write.cases) (auto intro!: keyed_upd intro: keyedD)

lemma legal_step_keyed: "legal_step P m m' \<Longrightarrow> keyed m \<Longrightarrow> keyed m'"
  by (auto simp: legal_step_def intro: legal_write_keyed)

lemma legal_steps_keyed: "legal_steps P m m' \<Longrightarrow> keyed m \<Longrightarrow> keyed m'"
  by (induction rule: rtranclp_induct) (auto intro: legal_step_keyed)

text \<open>
  After \<open>n\<close> writes the version of a record has grown by the number of writes to its key,
  at most \<open>n\<close>, so below \<open>2^64\<close> writes an unchanged version means an unchanged record.
\<close>

lemma legal_steps_version:
  assumes "(legal_step P ^^ n) m m'" and "m k = Some c"
  shows "\<exists>c' i. m' k = Some c' \<and> i \<le> n \<and> rec_Version c' = rec_Version c + of_nat i \<and>
    (i = 0 \<longrightarrow> c' = c)"
  using assms(1)
proof (induction n arbitrary: m')
  case 0
  then show ?case using assms(2) by (auto intro: exI [of _ 0])
next
  case (Suc n)
  then obtain m1 where m1: "(legal_step P ^^ n) m m1" and step: "legal_step P m1 m'"
    by auto
  from Suc.IH [OF m1] obtain c1 i where c1: "m1 k = Some c1" "i \<le> n"
    "rec_Version c1 = rec_Version c + of_nat i" "i = 0 \<longrightarrow> c1 = c"
    by blast
  from step c1(1) obtain c' where c': "m' k = Some c'"
    "c' = c1 \<or> rec_Version c' = rec_Version c1 + 1"
    by (rule legal_step_record)
  show ?case
  proof (cases "c' = c1")
    case True
    with c' c1 show ?thesis by (auto intro!: exI [of _ i])
  next
    case False
    with c' c1 show ?thesis by (auto intro!: exI [of _ "Suc i"] simp: algebra_simps)
  qed
qed

lemma same_version:
  assumes "steps_within P N m m'" and "N \<le> 2 ^ 64" and "m k = Some c" and "m' k = Some c'"
    and "rec_Version c' = rec_Version c"
  shows "c' = c"
proof -
  obtain n where n: "n < N" "(legal_step P ^^ n) m m'"
    using assms(1) by (auto simp: steps_within_def)
  obtain i where i: "i \<le> n" "rec_Version c' = rec_Version c + of_nat i" "i = 0 \<longrightarrow> c' = c"
    using legal_steps_version [OF n(2) assms(3)] assms(4) by auto
  from i(2) assms(5) have "(of_nat i :: int64) = 0"
    by simp
  moreover have "i < 2 ^ 64"
    using i(1) n(1) assms(2) by linarith
  ultimately have "i = 0"
    by (simp add: word_of_nat_eq_0_iff dvd_eq_mod_eq_0)
  with i(3) show ?thesis by simp
qed

lemma cas_same:
  assumes "steps_within P N m m'" and "N \<le> 2 ^ 64" and "m k = Some c" and "cas (rec_Version c) k m'"
  shows "m' k = Some c"
proof -
  obtain n where "(legal_step P ^^ n) m m'"
    using assms(1) by (auto simp: steps_within_def)
  from legal_steps_version [OF this assms(3)] obtain c0 where "m' k = Some c0"
    by blast
  with assms show ?thesis
    by (auto simp: cas_def split: if_splits dest: same_version)
qed

lemma peers_cas_same: "peers P m m' \<Longrightarrow> m k = Some c \<Longrightarrow> cas (rec_Version c) k m' \<Longrightarrow> m' k = Some c"
  by (auto simp: peers_def intro: cas_same)

lemma legal_steps_tokens:
  assumes "legal_steps P m m'" and "m k = Some c"
  shows "\<exists>c'. m' k = Some c' \<and> sint (rec_FencingToken c) \<le> sint (rec_FencingToken c')"
  using assms(1)
proof (induction rule: rtranclp_induct)
  case base
  then show ?case using assms(2) by auto
next
  case (step m1 m2)
  then obtain c1 where c1: "m1 k = Some c1" "sint (rec_FencingToken c) \<le> sint (rec_FencingToken c1)"
    by blast
  from step.hyps(2) c1(1) obtain c2 where
    "m2 k = Some c2" "sint (rec_FencingToken c1) \<le> sint (rec_FencingToken c2)"
    by (rule legal_step_record)
  with c1(2) show ?case by auto
qed

section \<open>The contract\<close>

locale lease_store =
  fixes P :: policy
    and S :: "'s Store"
    and view_of :: "'s \<Rightarrow> view"
    and inv :: "'s \<Rightarrow> bool"
  assumes inv_keyed: "inv s \<Longrightarrow> keyed (view_of s)"
    and get_inv: "inv s \<Longrightarrow> st_Get S s k = (x, s') \<Longrightarrow> inv s'"
    and get_peers: "inv s \<Longrightarrow> st_Get S s k = (x, s') \<Longrightarrow> peers P (view_of s) (view_of s')"
    and get_found: "inv s \<Longrightarrow> st_Get S s k = (Inr r, s') \<Longrightarrow> view_of s' k = Some r"
    and get_absent: "inv s \<Longrightarrow> st_Get S s k = (Inl e, s') \<Longrightarrow> errors_Is e ErrNotFound \<Longrightarrow>
      view_of s' k = None"
    and list_inv: "inv s \<Longrightarrow> st_List S s = (y, s') \<Longrightarrow> inv s'"
    and list_peers: "inv s \<Longrightarrow> st_List S s = (y, s') \<Longrightarrow> peers P (view_of s) (view_of s')"
    and list_found: "inv s \<Longrightarrow> st_List S s = (Inr rs, s') \<Longrightarrow> r \<in> set rs \<Longrightarrow>
      view_of s' (rec_Key r) = Some r"
    and list_all_keys: "inv s \<Longrightarrow> st_List S s = (Inr rs, s') \<Longrightarrow> view_of s' k = Some r \<Longrightarrow>
      r \<in> set rs"
    and put_inv: "inv s \<Longrightarrow> st_Put S s v (Some r) = (oe, s') \<Longrightarrow> inv s'"
    and put_ok: "inv s \<Longrightarrow> st_Put S s v (Some r) = (None, s') \<Longrightarrow>
      \<exists>m. peers P (view_of s) m \<and> cas v (rec_Key r) m \<and>
          view_of s' = m(rec_Key r \<mapsto> r\<lparr>rec_Version := v + 1\<rparr>)"
    and put_conflict: "inv s \<Longrightarrow> st_Put S s v (Some r) = (Some e, s') \<Longrightarrow>
      errors_Is e ErrConflict \<Longrightarrow> peers P (view_of s) (view_of s')"
    and put_error: "inv s \<Longrightarrow> st_Put S s v (Some r) = (Some e, s') \<Longrightarrow>
      \<not> errors_Is e ErrConflict \<Longrightarrow>
      peers P (view_of s) (view_of s') \<or>
      (\<exists>m. peers P (view_of s) m \<and> cas v (rec_Key r) m \<and>
           view_of s' = m(rec_Key r \<mapsto> r\<lparr>rec_Version := v + 1\<rparr>))"
begin

text \<open>
  The rule the callers use: a write whose expected version was read in state \<open>s\<close> can only
  replace the record that was read.
\<close>

lemma put_after_read:
  assumes "inv s" and "view_of s k = Some c" and "rec_Key r = k"
    and "st_Put S s (rec_Version c) (Some r) = (None, s')"
  obtains m where "peers P (view_of s) m" "m k = Some c"
    "view_of s' = m(k \<mapsto> r\<lparr>rec_Version := rec_Version c + 1\<rparr>)"
proof -
  obtain m where m: "peers P (view_of s) m" "cas (rec_Version c) k m"
    "view_of s' = m(k \<mapsto> r\<lparr>rec_Version := rec_Version c + 1\<rparr>)"
    using put_ok [OF assms(1,4)] assms(3) by auto
  from m(1,2) assms(2) have "m k = Some c"
    by (auto intro: peers_cas_same)
  with m that show thesis by blast
qed

lemma put_after_absent:
  assumes "inv s" and "rec_Key r = k"
    and "st_Put S s 0 (Some r) = (None, s')"
  obtains m where "peers P (view_of s) m" "m k = None"
    "view_of s' = m(k \<mapsto> r\<lparr>rec_Version := 1\<rparr>)"
  using put_ok [OF assms(1,3)] assms(2) that by (auto simp: cas_def)

text \<open>
  Guarantee of a write: if writing \<open>r\<close> over \<open>c\<close> is legal, then whatever the outcome of the
  call, the store has only seen legal writes.
\<close>

lemma put_guarantee_stale:
  assumes "inv s" and "steps_within P N m0 (view_of s)" and "N + 2 ^ 32 \<le> 2 ^ 64"
    and "m0 k = Some c" and "rec_Key r = k"
    and legal: "\<And>m. m k = Some c \<Longrightarrow>
      legal_step P m (m(k \<mapsto> r\<lparr>rec_Version := rec_Version c + 1\<rparr>))"
    and put: "st_Put S s (rec_Version c) (Some r) = (e, s')"
  shows "steps_within P (Suc (2 ^ 32)) (view_of s) (view_of s')"
proof -
  have peer: "steps_within P (Suc (2 ^ 32)) (view_of s) m" if "peers P (view_of s) m" for m
    using that by (auto simp: peers_def intro: steps_within_mono)
  have applied: "steps_within P (Suc (2 ^ 32)) (view_of s) (view_of s')"
    if m: "peers P (view_of s) m" "cas (rec_Version c) (rec_Key r) m"
      "view_of s' = m(rec_Key r \<mapsto> r\<lparr>rec_Version := rec_Version c + 1\<rparr>)" for m
  proof -
    have "steps_within P (N + 2 ^ 32) m0 m"
      using assms(2) m(1) by (auto simp: peers_def intro: steps_within_trans)
    then have "m k = Some c"
      using cas_same [where m = m0 and m' = m, OF _ assms(3,4)] m(2) assms(5) by simp
    from steps_within_step [OF m(1) [unfolded peers_def] legal [of m, OF this]] m(3) assms(5)
    show ?thesis by simp
  qed
  show ?thesis
  proof (cases e)
    case None
    with put put_ok [OF assms(1)] applied show ?thesis by fast
  next
    case (Some e')
    with put put_error [OF assms(1)] put_conflict [OF assms(1)] applied peer
    show ?thesis by metis
  qed
qed

lemma put_guarantee_read:
  assumes "inv s" and "view_of s k = Some c" and "rec_Key r = k"
    and "\<And>m. m k = Some c \<Longrightarrow> legal_step P m (m(k \<mapsto> r\<lparr>rec_Version := rec_Version c + 1\<rparr>))"
    and "st_Put S s (rec_Version c) (Some r) = (e, s')"
  shows "legal_steps P (view_of s) (view_of s')"
  by (rule steps_within_legal_steps [OF
        put_guarantee_stale [OF assms(1) steps_within_refl [of 1] _ assms(2,3,4,5)]]) simp_all

lemma put_guarantee_absent:
  assumes "inv s" and "rec_Key r = k"
    and legal: "\<And>m. m k = None \<Longrightarrow> legal_step P m (m(k \<mapsto> r\<lparr>rec_Version := 1\<rparr>))"
    and put: "st_Put S s 0 (Some r) = (e, s')"
  shows "legal_steps P (view_of s) (view_of s')"
proof -
  have applied: "legal_steps P (view_of s) (view_of s')"
    if m: "peers P (view_of s) m" "cas 0 (rec_Key r) m"
      "view_of s' = m(rec_Key r \<mapsto> r\<lparr>rec_Version := 0 + 1\<rparr>)" for m
  proof -
    from m(2) assms(2) have "m k = None" by (simp add: cas_def)
    from legal [of m, OF this] m assms(2) show ?thesis
      by (auto dest: peers_legal_steps intro: rtranclp.rtrancl_into_rtrancl)
  qed
  show ?thesis
  proof (cases e)
    case None
    with put put_ok [OF assms(1)] applied show ?thesis by fast
  next
    case (Some e')
    with put put_error [OF assms(1)] put_conflict [OF assms(1)] applied peers_legal_steps
    show ?thesis by metis
  qed
qed

end

section \<open>MemStore (memstore.go)\<close>

record MemStore =
  ms_records :: "(Key \<times> lease_record) list"

definition NewMemStore :: MemStore where
  "NewMemStore = \<lparr>ms_records = []\<rparr>"

definition MemStore_Ping :: "ctx \<Rightarrow> MemStore \<Rightarrow> goerr option" where
  "MemStore_Ping ctx s = ctx"

definition MemStore_Get :: "ctx \<Rightarrow> MemStore \<Rightarrow> Key \<Rightarrow> lease_record outcome \<times> MemStore" where
  "MemStore_Get ctx s key =
     (case ctx of
        Some err \<Rightarrow> (Inl err, s)
      | None \<Rightarrow>
          (case map_of (ms_records s) key of
             None \<Rightarrow> (Inl ErrNotFound, s)
           | Some r \<Rightarrow> (Inr r, s)))"

text \<open>Go iterates over a map in an unspecified order, the argument \<open>perm\<close>.\<close>

definition MemStore_List ::
  "(lease_record list \<Rightarrow> lease_record list) \<Rightarrow> ctx \<Rightarrow> MemStore \<Rightarrow> lease_record list outcome \<times> MemStore"
where
  "MemStore_List perm ctx s =
     (case ctx of
        Some err \<Rightarrow> (Inl err, s)
      | None \<Rightarrow> (Inr (perm (map snd (ms_records s))), s))"

definition MemStore_Put ::
  "ctx \<Rightarrow> MemStore \<Rightarrow> int64 \<Rightarrow> lease_record option \<Rightarrow> goerr option \<times> MemStore"
where
  "MemStore_Put ctx s expectedVersion rp =
     (case ctx of
        Some err \<Rightarrow> (Some err, s)
      | None \<Rightarrow>
          (case rp of
             None \<Rightarrow> (Some ErrConflict, s)
           | Some r \<Rightarrow>
               (let cur = map_of (ms_records s) (rec_Key r);
                    stored = r\<lparr>rec_Version := expectedVersion + 1\<rparr>;
                    s' = s\<lparr>ms_records := AList.update (rec_Key r) stored (ms_records s)\<rparr>
                in if expectedVersion = 0 then
                     (if cur \<noteq> None then (Some ErrConflict, s) else (None, s'))
                   else
                     (case cur of
                        None \<Rightarrow> (Some ErrConflict, s)
                      | Some c \<Rightarrow>
                          if rec_Version c \<noteq> expectedVersion then (Some ErrConflict, s)
                          else (None, s')))))"

definition MemStore_ops ::
  "(lease_record list \<Rightarrow> lease_record list) \<Rightarrow> ctx \<Rightarrow> MemStore Store"
where
  "MemStore_ops perm ctx =
     \<lparr>st_Ping = MemStore_Ping ctx, st_Get = MemStore_Get ctx,
      st_List = MemStore_List perm ctx, st_Put = MemStore_Put ctx\<rparr>"

abbreviation mem_view :: "MemStore \<Rightarrow> view" where
  "mem_view s \<equiv> map_of (ms_records s)"

definition mem_inv :: "MemStore \<Rightarrow> bool" where
  "mem_inv s \<longleftrightarrow> distinct (map fst (ms_records s)) \<and> keyed (mem_view s)"

lemma MemStore_ops_sel [simp]:
  "st_Ping (MemStore_ops perm ctx) = MemStore_Ping ctx"
  "st_Get (MemStore_ops perm ctx) = MemStore_Get ctx"
  "st_List (MemStore_ops perm ctx) = MemStore_List perm ctx"
  "st_Put (MemStore_ops perm ctx) = MemStore_Put ctx"
  by (simp_all add: MemStore_ops_def)

lemma mem_inv_New [simp]: "mem_inv NewMemStore"
  by (simp add: mem_inv_def NewMemStore_def keyed_def)

lemma mem_inv_update:
  "mem_inv s \<Longrightarrow> rec_Key r = k \<Longrightarrow> mem_inv (s\<lparr>ms_records := AList.update k r (ms_records s)\<rparr>)"
  by (simp add: mem_inv_def distinct_update update_conv' keyed_upd)

text \<open>A successful write is exactly a compare-and-swap; every other outcome writes nothing.\<close>

lemma MemStore_Put_iff:
  "MemStore_Put ctx s v (Some r) = (None, s') \<longleftrightarrow>
     ctx = None \<and> cas v (rec_Key r) (mem_view s) \<and>
     s' = s\<lparr>ms_records := AList.update (rec_Key r) (r\<lparr>rec_Version := v + 1\<rparr>) (ms_records s)\<rparr>"
  by (auto simp: MemStore_Put_def cas_def Let_def split: option.splits if_splits)

lemma MemStore_Put_Some_frame:
  "MemStore_Put ctx s v rp = (Some e, s') \<Longrightarrow> s' = s"
  by (auto simp: MemStore_Put_def Let_def split: option.splits if_splits)

lemma MemStore_Put_view:
  "MemStore_Put ctx s v (Some r) = (None, s') \<Longrightarrow>
     mem_view s' = (mem_view s)(rec_Key r \<mapsto> r\<lparr>rec_Version := v + 1\<rparr>)"
  by (simp add: MemStore_Put_iff update_conv')

lemma MemStore_Get_frame: "MemStore_Get ctx s k = (x, s') \<Longrightarrow> s' = s"
  by (auto simp: MemStore_Get_def split: option.splits)

lemma MemStore_Get_cases:
  "MemStore_Get ctx s k = (x, s') \<Longrightarrow>
     (case ctx of
        Some e \<Rightarrow> x = Inl e
      | None \<Rightarrow> (case mem_view s k of None \<Rightarrow> x = Inl ErrNotFound | Some r \<Rightarrow> x = Inr r))"
  by (auto simp: MemStore_Get_def split: option.splits)

text \<open>A permutation of the iteration order and a context error that is not a sentinel.\<close>

definition perm_ok :: "(lease_record list \<Rightarrow> lease_record list) \<Rightarrow> bool" where
  "perm_ok perm \<longleftrightarrow> (\<forall>xs. mset (perm xs) = mset xs)"

definition ctx_ok :: "ctx \<Rightarrow> bool" where
  "ctx_ok ctx \<longleftrightarrow> ctx \<in> {None, Some ErrCtxDone}"

lemma perm_okD: "perm_ok perm \<Longrightarrow> set (perm xs) = set xs"
  by (metis perm_ok_def set_mset_mset)

lemma MemStore_lease_store:
  assumes perm: "perm_ok perm" and ctx: "ctx_ok ctx"
  shows "lease_store P (MemStore_ops perm ctx) mem_view mem_inv"
proof unfold_locales
  fix s assume "mem_inv s"
  then show "keyed (mem_view s)" by (simp add: mem_inv_def)
next
  fix s k x s' assume "mem_inv s" and "st_Get (MemStore_ops perm ctx) s k = (x, s')"
  then show "mem_inv s'" by (auto dest: MemStore_Get_frame)
next
  fix s k x s' assume "st_Get (MemStore_ops perm ctx) s k = (x, s')"
  then show "peers P (mem_view s) (mem_view s')" by (auto dest: MemStore_Get_frame)
next
  fix s k r s' assume "st_Get (MemStore_ops perm ctx) s k = (Inr r, s')"
  then show "mem_view s' k = Some r" by (auto simp: MemStore_Get_def split: option.splits)
next
  fix s k e s' assume "st_Get (MemStore_ops perm ctx) s k = (Inl e, s')" and "errors_Is e ErrNotFound"
  then show "mem_view s' k = None"
    using ctx by (auto simp: MemStore_Get_def ctx_ok_def split: option.splits)
next
  fix s y s' assume "mem_inv s" and "st_List (MemStore_ops perm ctx) s = (y, s')"
  then show "mem_inv s'" by (auto simp: MemStore_List_def split: option.splits)
next
  fix s y s' assume "st_List (MemStore_ops perm ctx) s = (y, s')"
  then show "peers P (mem_view s) (mem_view s')" by (auto simp: MemStore_List_def split: option.splits)
next
  fix s rs s' r
  assume inv: "mem_inv s" and "st_List (MemStore_ops perm ctx) s = (Inr rs, s')" and "r \<in> set rs"
  then have s': "s' = s" and "r \<in> snd ` set (ms_records s)"
    using perm_okD [OF perm] by (auto simp: MemStore_List_def split: option.splits)
  then obtain k where "mem_view s k = Some r"
    using inv by (auto simp: mem_inv_def)
  with inv s' show "mem_view s' (rec_Key r) = Some r"
    by (auto simp: mem_inv_def dest: keyedD)
next
  fix s rs s' k r
  assume "st_List (MemStore_ops perm ctx) s = (Inr rs, s')" and "mem_view s' k = Some r"
  then show "r \<in> set rs"
    using perm_okD [OF perm]
    by (force simp: MemStore_List_def dest: map_of_SomeD split: option.splits)
next
  fix s v r e s'
  assume "mem_inv s" and "st_Put (MemStore_ops perm ctx) s v (Some r) = (e, s')"
  then show "mem_inv s'"
    by (cases e) (auto simp: MemStore_Put_iff intro!: mem_inv_update dest: MemStore_Put_Some_frame)
next
  fix s v r s'
  assume "st_Put (MemStore_ops perm ctx) s v (Some r) = (None, s')"
  then show "\<exists>m. peers P (mem_view s) m \<and> cas v (rec_Key r) m \<and>
      mem_view s' = m(rec_Key r \<mapsto> r\<lparr>rec_Version := v + 1\<rparr>)"
    by (auto simp: MemStore_Put_iff update_conv' intro!: exI [of _ "mem_view s"])
next
  fix s v r e s'
  assume "st_Put (MemStore_ops perm ctx) s v (Some r) = (Some e, s')"
  then show "peers P (mem_view s) (mem_view s')" by (auto dest: MemStore_Put_Some_frame)
next
  fix s v r e s'
  assume "st_Put (MemStore_ops perm ctx) s v (Some r) = (Some e, s')"
  then show "peers P (mem_view s) (mem_view s') \<or>
      (\<exists>m. peers P (mem_view s) m \<and> cas v (rec_Key r) m \<and>
           mem_view s' = m(rec_Key r \<mapsto> r\<lparr>rec_Version := v + 1\<rparr>))"
    by (auto dest: MemStore_Put_Some_frame)
qed

interpretation mem: lease_store any_write "MemStore_ops (\<lambda>xs. xs) None" mem_view mem_inv
  by (rule MemStore_lease_store) (simp_all add: perm_ok_def ctx_ok_def)

end
