(* ===== verification/Lease_Manager.thy ===== *)
theory Lease_Manager
  imports Lease_Store
begin

text \<open>
  The lease manager (\<open>internal/lease/manager.go\<close>): \<open>Acquire\<close> with its bounded
  compare-and-swap loop, \<open>Renew\<close>, \<open>renewalLost\<close> and \<open>Release\<close>, over any store.

  The clock is a function: \<open>clk n\<close> is the reading taken in the attempt that leaves \<open>n\<close>
  further attempts.  The lemmas of the section on the contract hold for every backend of
  the locale \<open>lease_store\<close>, so with every interference by other replicas it permits.
\<close>

section \<open>Operations\<close>

definition maxAcquireAttempts :: nat where
  "maxAcquireAttempts = 8"

record AcquireResult =
  ar_Acquired :: bool
  ar_Holder :: string
  ar_FencingToken :: int32
  ar_ExpiresAt :: time
  ar_AcquiredAt :: time

definition zero_AcquireResult :: AcquireResult where
  "zero_AcquireResult =
     \<lparr>ar_Acquired = False, ar_Holder = [], ar_FencingToken = 0,
      ar_ExpiresAt = zero_time, ar_AcquiredAt = zero_time\<rparr>"

definition Manager_Ready :: "'s Store \<Rightarrow> 's \<Rightarrow> goerr option" where
  "Manager_Ready S s = st_Ping S s"

text \<open>The not-acquired result that describes a stored record.\<close>

definition not_acquired :: "lease_record \<Rightarrow> AcquireResult" where
  "not_acquired cur =
     \<lparr>ar_Acquired = False, ar_Holder = rec_Holder cur, ar_FencingToken = rec_FencingToken cur,
      ar_ExpiresAt = ExpiresAt cur, ar_AcquiredAt = rec_AcquiredAt cur\<rparr>"

text \<open>
  The switch of \<open>Acquire\<close>: try to write with an expected version, a token and an
  acquisition time, refuse at the token ceiling, or report the live holder.
\<close>

datatype acquire_choice =
    TryPut int64 int32 time
  | TokenCeiling
  | HeldByOther lease_record

fun acquire_switch :: "lease_record option \<Rightarrow> string \<Rightarrow> time \<Rightarrow> acquire_choice" where
  "acquire_switch None holder now = TryPut 0 1 now"
| "acquire_switch (Some cur) holder now =
     (if rec_Holder cur = holder \<and> \<not> Expired cur now then
        TryPut (rec_Version cur) (rec_FencingToken cur) (rec_AcquiredAt cur)
      else if Tombstone cur \<or> Expired cur now then
        (if rec_FencingToken cur = MaxInt32 then TokenCeiling
         else TryPut (rec_Version cur) (rec_FencingToken cur + 1) now)
      else HeldByOther cur)"

definition acquire_next ::
  "Key \<Rightarrow> string \<Rightarrow> duration \<Rightarrow> time \<Rightarrow> int32 \<Rightarrow> time \<Rightarrow> lease_record"
where
  "acquire_next key holder ttl acquiredAt token now =
     \<lparr>rec_Key = key, rec_Holder = holder, rec_TTL = ttl, rec_AcquiredAt = acquiredAt,
      rec_RenewedAt = now, rec_FencingToken = token, rec_Version = 0\<rparr>"

text \<open>\<open>cur, err := Get(...)\<close>, with an absent record read as a nil \<open>cur\<close>.\<close>

fun nil_if_absent :: "lease_record outcome \<Rightarrow> lease_record option outcome" where
  "nil_if_absent (Inr r) = Inr (Some r)"
| "nil_if_absent (Inl err) = (if errors_Is err ErrNotFound then Inr None else Inl err)"

primrec acquire_loop ::
  "'s Store \<Rightarrow> (nat \<Rightarrow> time) \<Rightarrow> Key \<Rightarrow> string \<Rightarrow> duration \<Rightarrow> nat \<Rightarrow> 's \<Rightarrow> AcquireResult outcome \<times> 's"
where
  "acquire_loop S clk key holder ttl 0 s = (Inl (ErrText ''acquire: exhausted retries''), s)"
| "acquire_loop S clk key holder ttl (Suc n) s =
     (let (x, s1) = st_Get S s key; now = clk n in
      case nil_if_absent x of
        Inl err \<Rightarrow> (Inl (ErrWrap ''acquire: get: '' err), s1)
      | Inr cur \<Rightarrow>
          (case acquire_switch cur holder now of
             TokenCeiling \<Rightarrow> (Inl (ErrText ''acquire: fencing token exhausted at int32 ceiling''), s1)
           | HeldByOther c \<Rightarrow> (Inr (not_acquired c), s1)
           | TryPut expected token acquiredAt \<Rightarrow>
               (let nxt = acquire_next key holder ttl acquiredAt token now;
                    (e, s2) = st_Put S s1 expected (Some nxt)
                in case e of
                     Some err \<Rightarrow>
                       if errors_Is err ErrConflict then acquire_loop S clk key holder ttl n s2
                       else (Inl (ErrWrap ''acquire: put: '' err), s2)
                   | None \<Rightarrow>
                       (Inr \<lparr>ar_Acquired = True, ar_Holder = holder, ar_FencingToken = token,
                             ar_ExpiresAt = ExpiresAt nxt, ar_AcquiredAt = acquiredAt\<rparr>, s2))))"

definition Manager_Acquire ::
  "dns1123 \<Rightarrow> 's Store \<Rightarrow> (nat \<Rightarrow> time) \<Rightarrow> Key \<Rightarrow> string \<Rightarrow> duration \<Rightarrow> 's \<Rightarrow> AcquireResult outcome \<times> 's"
where
  "Manager_Acquire V S clk key holder ttl s =
     (case ValidateKey V key of
        Some err \<Rightarrow> (Inl (ErrWrap ''acquire: '' err), s)
      | None \<Rightarrow>
          (case ValidateHolder holder of
             Some err \<Rightarrow> (Inl (ErrWrap ''acquire: '' err), s)
           | None \<Rightarrow>
               if ttl \<le> 0 then (Inl (ErrText ''acquire: ttl must be positive''), s)
               else acquire_loop S clk key holder ttl maxAcquireAttempts s))"

definition renewalLost :: "'s Store \<Rightarrow> Key \<Rightarrow> lease_record \<Rightarrow> 's \<Rightarrow> AcquireResult \<times> 's" where
  "renewalLost S key stale s =
     (let (x, s') = st_Get S s key;
          cur = (case x of Inl err \<Rightarrow> stale | Inr r \<Rightarrow> r)
      in (not_acquired cur, s'))"

definition renew_stored ::
  "'s Store \<Rightarrow> time \<Rightarrow> Key \<Rightarrow> string \<Rightarrow> int32 \<Rightarrow> duration \<Rightarrow> 's \<Rightarrow> AcquireResult outcome \<times> 's"
where
  "renew_stored S now key holder token ttl s =
     (let (x, s1) = st_Get S s key in
      case x of
        Inl err \<Rightarrow>
          if errors_Is err ErrNotFound then (Inr zero_AcquireResult, s1)
          else (Inl (ErrWrap ''renew: get: '' err), s1)
      | Inr cur \<Rightarrow>
          if rec_Holder cur \<noteq> holder \<or> rec_FencingToken cur \<noteq> token \<or> Expired cur now
          then (Inr (not_acquired cur), s1)
          else
            (let nxt = cur\<lparr>rec_RenewedAt := now, rec_TTL := ttl\<rparr>;
                 (e, s2) = st_Put S s1 (rec_Version cur) (Some nxt)
             in case e of
                  Some err \<Rightarrow>
                    if errors_Is err ErrConflict then
                      (let (r, s3) = renewalLost S key cur s2 in (Inr r, s3))
                    else (Inl (ErrWrap ''renew: put: '' err), s2)
                | None \<Rightarrow>
                    (Inr \<lparr>ar_Acquired = True, ar_Holder = holder,
                          ar_FencingToken = rec_FencingToken nxt,
                          ar_ExpiresAt = ExpiresAt nxt, ar_AcquiredAt = rec_AcquiredAt nxt\<rparr>, s2)))"

definition Manager_Renew ::
  "dns1123 \<Rightarrow> 's Store \<Rightarrow> time \<Rightarrow> Key \<Rightarrow> string \<Rightarrow> int32 \<Rightarrow> duration \<Rightarrow> 's \<Rightarrow> AcquireResult outcome \<times> 's"
where
  "Manager_Renew V S now key holder token ttl s =
     (case ValidateKey V key of
        Some err \<Rightarrow> (Inl (ErrWrap ''renew: '' err), s)
      | None \<Rightarrow>
          (case ValidateHolder holder of
             Some err \<Rightarrow> (Inl (ErrWrap ''renew: '' err), s)
           | None \<Rightarrow>
               if sint token \<le> 0 then (Inl (ErrText ''renew: token must be positive''), s)
               else if ttl \<le> 0 then (Inl (ErrText ''renew: ttl must be positive''), s)
               else renew_stored S now key holder token ttl s))"

definition Manager_Release ::
  "dns1123 \<Rightarrow> 's Store \<Rightarrow> time \<Rightarrow> Key \<Rightarrow> string \<Rightarrow> int32 \<Rightarrow> 's \<Rightarrow> goerr option \<times> 's"
where
  "Manager_Release V S now key holder token s =
     (case ValidateKey V key of
        Some err \<Rightarrow> (Some (ErrWrap ''release: '' err), s)
      | None \<Rightarrow>
          if holder = [] then (Some (ErrText ''release: holder is required''), s)
          else
            (let (x, s1) = st_Get S s key in
             case x of
               Inl err \<Rightarrow>
                 if errors_Is err ErrNotFound then (None, s1)
                 else (Some (ErrWrap ''release: get: '' err), s1)
             | Inr cur \<Rightarrow>
                 if Tombstone cur then (None, s1)
                 else if rec_Holder cur \<noteq> holder \<or> rec_FencingToken cur \<noteq> token
                 then (Some ErrConflict, s1)
                 else
                   (let (e, s2) = st_Put S s1 (rec_Version cur) (Some (tombstoneFrom cur now)) in
                    case e of
                      Some err \<Rightarrow>
                        if errors_Is err ErrConflict then (None, s2)
                        else (Some (ErrWrap ''release: put tombstone: '' err), s2)
                    | None \<Rightarrow> (None, s2))))"

section \<open>The decision of one attempt\<close>

lemma acquire_next_sel [simp]:
  "rec_Key (acquire_next key holder ttl acq tok now) = key"
  "rec_Holder (acquire_next key holder ttl acq tok now) = holder"
  "rec_TTL (acquire_next key holder ttl acq tok now) = ttl"
  "rec_AcquiredAt (acquire_next key holder ttl acq tok now) = acq"
  "rec_RenewedAt (acquire_next key holder ttl acq tok now) = now"
  "rec_FencingToken (acquire_next key holder ttl acq tok now) = tok"
  by (simp_all add: acquire_next_def)

lemma nil_if_absent_cases:
  "nil_if_absent x = Inr cur \<longleftrightarrow>
     (case cur of
        None \<Rightarrow> (\<exists>e. x = Inl e \<and> errors_Is e ErrNotFound)
      | Some r \<Rightarrow> x = Inr r)"
  by (cases x) (auto split: option.splits)

text \<open>What an attempt writes is one of the three legal kinds of grant.\<close>

inductive grant_kind :: "view \<Rightarrow> Key \<Rightarrow> time \<Rightarrow> view \<Rightarrow> bool" where
  "legal_write w now k m m' \<Longrightarrow> w \<in> {Created, Renewed, Reclaimed} \<Longrightarrow> grant_kind m k now m'"

text \<open>The policy permits the writes that a call may make.\<close>

definition grants_allowed :: "policy \<Rightarrow> time \<Rightarrow> Key \<Rightarrow> string \<Rightarrow> duration \<Rightarrow> bool" where
  "grants_allowed P now key holder ttl \<longleftrightarrow>
     (\<forall>w old r. w \<in> {Created, Renewed, Reclaimed} \<longrightarrow> rec_Holder r = holder \<longrightarrow> rec_TTL r = ttl \<longrightarrow>
        rec_RenewedAt r = now \<longrightarrow> P w now key old r)"

definition renew_allowed :: "policy \<Rightarrow> time \<Rightarrow> Key \<Rightarrow> string \<Rightarrow> int32 \<Rightarrow> duration \<Rightarrow> bool" where
  "renew_allowed P now key holder token ttl \<longleftrightarrow>
     (\<forall>c r. rec_Holder r = holder \<longrightarrow> rec_FencingToken r = token \<longrightarrow> rec_TTL r = ttl \<longrightarrow>
        rec_RenewedAt r = now \<longrightarrow> P Renewed now key (Some c) r)"

definition release_allowed :: "policy \<Rightarrow> time \<Rightarrow> Key \<Rightarrow> string \<Rightarrow> int32 \<Rightarrow> bool" where
  "release_allowed P now key holder token \<longleftrightarrow>
     (\<forall>c r. rec_Holder c = holder \<longrightarrow> rec_FencingToken c = token \<longrightarrow> P Released now key (Some c) r)"

lemma any_write_allowed [simp]:
  "grants_allowed any_write now key holder ttl"
  "renew_allowed any_write now key holder token ttl"
  "release_allowed any_write now key holder token"
  by (simp_all add: grants_allowed_def renew_allowed_def release_allowed_def)

lemmas grant_created = grant_kind.intros [OF legal_write.created, simplified]
lemmas grant_renewed = grant_kind.intros [OF legal_write.renewed, simplified]
lemmas grant_reclaimed = grant_kind.intros [OF legal_write.reclaimed, simplified]

lemma acquire_switch_legal_absent:
  assumes "acquire_switch None holder now = TryPut v tok acq"
    and "m key = None" "holder \<noteq> []" "0 < ttl"
  shows "v = 0 \<and> grant_kind m key now
    (m(key \<mapsto> (acquire_next key holder ttl acq tok now)\<lparr>rec_Version := v + 1\<rparr>))"
  using assms grant_created [of m key holder ttl now]
  by (auto simp: acquire_next_def)

lemma acquire_switch_legal_stored:
  assumes "acquire_switch (Some c) holder now = TryPut v tok acq"
    and "m key = Some c" "rec_Key c = key" "holder \<noteq> []" "0 < ttl"
  shows "v = rec_Version c \<and> grant_kind m key now
    (m(key \<mapsto> (acquire_next key holder ttl acq tok now)\<lparr>rec_Version := v + 1\<rparr>))"
proof (cases "rec_Holder c = holder \<and> \<not> Expired c now")
  case True
  with assms have *: "v = rec_Version c" "tok = rec_FencingToken c" "acq = rec_AcquiredAt c"
    by simp_all
  have eq: "(acquire_next key holder ttl acq tok now)\<lparr>rec_Version := v + 1\<rparr> =
      c\<lparr>rec_RenewedAt := now, rec_TTL := ttl, rec_Version := rec_Version c + 1\<rparr>"
    using True assms * by (cases c) (simp add: acquire_next_def)
  show ?thesis
    unfolding eq using True assms * grant_renewed [of m key c now ttl]
    by (simp add: Tombstone_def)
next
  case False
  with assms have "Tombstone c \<or> Expired c now" "rec_FencingToken c \<noteq> MaxInt32"
    "v = rec_Version c" "tok = rec_FencingToken c + 1" "acq = now"
    by (auto split: if_splits)
  with assms grant_reclaimed [of m key c now holder ttl] show ?thesis
    by (simp add: acquire_next_def)
qed

lemma grant_kind_legal_step:
  assumes "grant_kind m k now (m(k \<mapsto> r))" and "grants_allowed P now k (rec_Holder r) (rec_TTL r)"
    and "rec_RenewedAt r = now"
  shows "legal_step P m (m(k \<mapsto> r))"
  using assms by (auto simp: grants_allowed_def elim!: grant_kind.cases intro: legal_stepI)

text \<open>
  \<open>acquired_as m m' ...\<close>: the views \<open>m\<close> and \<open>m'\<close> differ by one legal grant to the holder,
  decided by the switch on the record of \<open>m\<close>, and \<open>res\<close> reports the record of \<open>m'\<close>.
\<close>

definition acquired_as ::
  "view \<Rightarrow> view \<Rightarrow> Key \<Rightarrow> string \<Rightarrow> duration \<Rightarrow> time \<Rightarrow> AcquireResult \<Rightarrow> bool"
where
  "acquired_as m m' key holder ttl now res \<longleftrightarrow>
     (\<exists>r. grant_kind m key now m' \<and> (\<forall>j. j \<noteq> key \<longrightarrow> m' j = m j) \<and>
        acquire_switch (m key) holder now =
          TryPut (rec_Version r - 1) (rec_FencingToken r) (rec_AcquiredAt r) \<and>
        m' key = Some r \<and> rec_Holder r = holder \<and> rec_TTL r = ttl \<and> rec_RenewedAt r = now \<and>
        res = \<lparr>ar_Acquired = True, ar_Holder = holder, ar_FencingToken = rec_FencingToken r,
               ar_ExpiresAt = ExpiresAt r, ar_AcquiredAt = rec_AcquiredAt r\<rparr>)"

section \<open>Over any store that keeps the contract\<close>

context lease_store
begin

text \<open>What one attempt knows after its read.\<close>

lemma get_read:
  assumes "inv s" and "st_Get S s key = (x, s1)" and "nil_if_absent x = Inr cur"
  shows "inv s1" "peers P (view_of s) (view_of s1)" "view_of s1 key = cur"
proof -
  show "inv s1" "peers P (view_of s) (view_of s1)"
    using assms get_inv get_peers by blast+
  show "view_of s1 key = cur"
    using assms(3) get_found [OF assms(1)] get_absent [OF assms(1)] assms(2)
    by (cases cur) (auto simp: nil_if_absent_cases)
qed

lemma attempt_put:
  assumes "inv s1" and "view_of s1 key = cur" and "holder \<noteq> []" and "0 < ttl"
    and sw: "acquire_switch cur holder now = TryPut v tok acq"
    and put: "st_Put S s1 v (Some (acquire_next key holder ttl acq tok now)) = (e, s2)"
    and allowed: "grants_allowed P now key holder ttl"
  shows "legal_steps P (view_of s1) (view_of s2)"
    and "e = None \<Longrightarrow> \<exists>m. peers P (view_of s1) m \<and> m key = cur \<and> grant_kind m key now (view_of s2) \<and>
      view_of s2 = m(key \<mapsto> (acquire_next key holder ttl acq tok now)\<lparr>rec_Version := v + 1\<rparr>)"
proof -
  let ?r = "acquire_next key holder ttl acq tok now"
  have grant: "v = (case cur of None \<Rightarrow> 0 | Some c \<Rightarrow> rec_Version c) \<and>
      grant_kind m key now (m(key \<mapsto> ?r\<lparr>rec_Version := v + 1\<rparr>))" if "m key = cur" for m
  proof (cases cur)
    case None
    with that assms show ?thesis
      using acquire_switch_legal_absent [of holder now v tok acq m key ttl] by simp
  next
    case (Some c)
    then have "rec_Key c = key"
      using assms(1,2) inv_keyed keyedD by blast
    from acquire_switch_legal_stored [where m = m, OF sw [unfolded Some] that [unfolded Some] this assms(3,4)] Some
    show ?thesis by auto
  qed
  have step: "legal_step P m (m(key \<mapsto> ?r\<lparr>rec_Version := v + 1\<rparr>))" if "m key = cur" for m
    by (rule grant_kind_legal_step [where now = now])
      (use grant [of m, OF that] allowed in auto)
  have v: "v = (case cur of None \<Rightarrow> 0 | Some c \<Rightarrow> rec_Version c)"
    using grant [of "view_of s1", OF assms(2)] by simp
  show "legal_steps P (view_of s1) (view_of s2)"
  proof (cases cur)
    case None
    then show ?thesis
      using put_guarantee_absent [OF assms(1), of ?r key e s2] step put v
      by auto
  next
    case (Some c)
    then show ?thesis
      using put_guarantee_read [OF assms(1), of key c ?r e s2] step put v assms(2)
      by auto
  qed
  assume e: "e = None"
  have "\<exists>m. peers P (view_of s1) m \<and> m key = cur \<and> view_of s2 = m(key \<mapsto> ?r\<lparr>rec_Version := v + 1\<rparr>)"
  proof (cases cur)
    case None
    with put v e put_after_absent [OF assms(1), of ?r key s2] show ?thesis
      by simp metis
  next
    case (Some c)
    with put v e put_after_read [OF assms(1), of key c ?r s2] assms(2) show ?thesis
      by simp metis
  qed
  with grant show "\<exists>m. peers P (view_of s1) m \<and> m key = cur \<and> grant_kind m key now (view_of s2) \<and>
      view_of s2 = m(key \<mapsto> ?r\<lparr>rec_Version := v + 1\<rparr>)"
    by metis
qed

lemma acquire_loop_inv_guarantee:
  assumes "inv s" and "holder \<noteq> []" and "0 < ttl"
    and "acquire_loop S clk key holder ttl n s = (x, s')"
    and allowed: "\<forall>i < n. grants_allowed P (clk i) key holder ttl"
  shows "inv s' \<and> legal_steps P (view_of s) (view_of s')"
  using assms(1,4,5)
proof (induction n arbitrary: s)
  case 0
  then show ?case by simp
next
  case (Suc n)
  obtain y s1 where get: "st_Get S s key = (y, s1)" by fastforce
  have s1: "inv s1" "legal_steps P (view_of s) (view_of s1)"
    using Suc.prems(1) get get_inv get_peers peers_legal_steps by blast+
  show ?case
  proof (cases "nil_if_absent y")
    case (Inl err)
    with Suc.prems get s1 show ?thesis by simp
  next
    case (Inr cur)
    show ?thesis
    proof (cases "acquire_switch cur holder (clk n)")
      case (TryPut v tok acq)
      obtain e s2 where put: "st_Put S s1 v (Some (acquire_next key holder ttl acq tok (clk n))) = (e, s2)"
        by fastforce
      have "inv s2" "legal_steps P (view_of s1) (view_of s2)"
        using put_inv [OF s1(1) put]
          attempt_put(1) [OF s1(1) get_read(3) [OF Suc.prems(1) get Inr] assms(2,3) TryPut put]
          Suc.prems(3) by auto
      with s1(2) have s2: "inv s2" "legal_steps P (view_of s) (view_of s2)"
        by auto
      with Suc.IH [OF s2(1)] Suc.prems(2,3) get Inr TryPut put show ?thesis
        by (auto split: option.splits if_splits)
    qed (use Suc.prems get Inr s1 in auto)
  qed
qed

text \<open>
  A grant is one legal write, made by the call itself on the record it found, and the
  result reports exactly the record that is now stored.
\<close>

lemma acquire_loop_granted:
  assumes "inv s" and "holder \<noteq> []" and "0 < ttl"
    and "acquire_loop S clk key holder ttl n s = (Inr res, s')" and "ar_Acquired res"
    and allowed: "\<forall>i < n. grants_allowed P (clk i) key holder ttl"
  shows "\<exists>m i. i < n \<and> legal_steps P (view_of s) m \<and>
    acquired_as m (view_of s') key holder ttl (clk i) res"
  using assms(1,4,6)
proof (induction n arbitrary: s)
  case 0
  then show ?case by simp
next
  case (Suc n)
  obtain y s1 where get: "st_Get S s key = (y, s1)" by fastforce
  have s1: "inv s1" "legal_steps P (view_of s) (view_of s1)"
    using Suc.prems(1) get get_inv get_peers peers_legal_steps by blast+
  from Suc.prems(2) get obtain cur where cur: "nil_if_absent y = Inr cur"
    by (cases "nil_if_absent y") auto
  from Suc.prems(2) get cur assms(5) obtain v tok acq where
    sw: "acquire_switch cur holder (clk n) = TryPut v tok acq"
    by (cases "acquire_switch cur holder (clk n)") (auto simp: not_acquired_def)
  let ?r = "acquire_next key holder ttl acq tok (clk n)"
  obtain e s2 where put: "st_Put S s1 v (Some ?r) = (e, s2)"
    by fastforce
  note attempt = attempt_put [OF s1(1) get_read(3) [OF Suc.prems(1) get cur] assms(2,3) sw put]
  have "grants_allowed P (clk n) key holder ttl" and allowed': "\<forall>i < n. grants_allowed P (clk i) key holder ttl"
    using Suc.prems(3) by simp_all
  note attempt = attempt [OF this(1)]
  show ?case
  proof (cases e)
    case None
    from attempt(2) [OF None] obtain m where m: "peers P (view_of s1) m" "m key = cur"
      "grant_kind m key (clk n) (view_of s2)" "view_of s2 = m(key \<mapsto> ?r\<lparr>rec_Version := v + 1\<rparr>)"
      by blast
    have s': "s' = s2"
      and res: "res = \<lparr>ar_Acquired = True, ar_Holder = holder, ar_FencingToken = tok,
        ar_ExpiresAt = ExpiresAt ?r, ar_AcquiredAt = acq\<rparr>"
      using Suc.prems(2) get cur sw put None by auto
    have "acquired_as m (view_of s2) key holder ttl (clk n) res"
      unfolding acquired_as_def using m(2,3) sw res m(4)
      by (intro exI [of _ "?r\<lparr>rec_Version := v + 1\<rparr>"]) (simp add: ExpiresAt_def)
    moreover have "legal_steps P (view_of s) m"
      using s1(2) m(1) peers_legal_steps by (meson rtranclp_trans)
    ultimately show ?thesis
      unfolding s' by blast
  next
    case (Some err)
    with Suc.prems(2) get cur sw put have "acquire_loop S clk key holder ttl n s2 = (Inr res, s')"
      by (auto split: if_splits)
    from Suc.IH [OF put_inv [OF s1(1) put] this allowed'] s1(2) attempt(1) show ?thesis
      by (meson less_SucI rtranclp_trans)
  qed
qed

lemma acquire_loop_denied:
  assumes "inv s"
    and "acquire_loop S clk key holder ttl n s = (Inr res, s')" and "\<not> ar_Acquired res"
  shows "\<exists>i c. i < n \<and> view_of s' key = Some c \<and> rec_Holder c \<noteq> holder \<and> \<not> Tombstone c \<and>
    \<not> Expired c (clk i) \<and> res = not_acquired c"
  using assms(1,2)
proof (induction n arbitrary: s)
  case 0
  then show ?case by simp
next
  case (Suc n)
  obtain y s1 where get: "st_Get S s key = (y, s1)" by fastforce
  from Suc.prems(2) get obtain cur where cur: "nil_if_absent y = Inr cur"
    by (cases "nil_if_absent y") auto
  note read = get_read [OF Suc.prems(1) get cur]
  show ?case
  proof (cases "acquire_switch cur holder (clk n)")
    case (TryPut v tok acq)
    obtain e s2 where put: "st_Put S s1 v (Some (acquire_next key holder ttl acq tok (clk n))) = (e, s2)"
      by fastforce
    from Suc.prems(2) get cur TryPut put assms(3)
    have "acquire_loop S clk key holder ttl n s2 = (Inr res, s')"
      by (auto split: option.splits if_splits)
    from Suc.IH [OF put_inv [OF read(1) put] this] obtain i c where
      "i < n" "view_of s' key = Some c" "rec_Holder c \<noteq> holder" "\<not> Tombstone c"
      "\<not> Expired c (clk i)" "res = not_acquired c"
      by blast
    then show ?thesis by (intro exI [of _ i] exI [of _ c]) simp
  next
    case TokenCeiling
    with Suc.prems get cur show ?thesis by simp
  next
    case (HeldByOther c)
    with Suc.prems(2) get cur have "s' = s1" "res = not_acquired c" by simp_all
    with HeldByOther read(3) show ?thesis
      by (cases cur) (auto split: if_splits intro!: exI [of _ n])
  qed
qed

lemma renew_inv_guarantee:
  assumes "inv s" and "holder \<noteq> []" and "0 < ttl"
    and "renew_stored S now key holder token ttl s = (x, s')"
    and allowed: "renew_allowed P now key holder token ttl"
  shows "inv s' \<and> legal_steps P (view_of s) (view_of s')"
proof -
  obtain y s1 where get: "st_Get S s key = (y, s1)" by fastforce
  have s1: "inv s1" "legal_steps P (view_of s) (view_of s1)"
    using assms(1) get get_inv get_peers peers_legal_steps by blast+
  show ?thesis
  proof (cases "\<exists>cur. y = Inr cur \<and> rec_Holder cur = holder \<and> rec_FencingToken cur = token \<and> \<not> Expired cur now")
    case True
    then obtain c where c: "y = Inr c" "rec_Holder c = holder" "rec_FencingToken c = token" "\<not> Expired c now"
      by blast
    let ?r = "c\<lparr>rec_RenewedAt := now, rec_TTL := ttl\<rparr>"
    obtain e s2 where put: "st_Put S s1 (rec_Version c) (Some ?r) = (e, s2)" by fastforce
    have v: "view_of s1 key = Some c" "rec_Key c = key"
      using get_found [OF assms(1)] get c(1) s1(1) inv_keyed keyedD by blast+
    have "legal_steps P (view_of s1) (view_of s2)"
    proof (rule put_guarantee_read [OF s1(1) v(1) _ _ put])
      fix m assume "m key = Some c"
      moreover have "\<not> Tombstone c"
        using c(2) assms(2) by (simp add: Tombstone_def)
      ultimately have "legal_step P m
          (m(key \<mapsto> c\<lparr>rec_RenewedAt := now, rec_TTL := ttl, rec_Version := rec_Version c + 1\<rparr>))"
        using legal_write.renewed [of m, OF _ _ c(4) assms(3)] allowed c(2,3)
        by (intro legal_stepI) (auto simp: renew_allowed_def)
      then show "legal_step P m (m(key \<mapsto> ?r\<lparr>rec_Version := rec_Version c + 1\<rparr>))"
        by (cases c) simp
    qed (simp add: v(2))
    with s1(2) have s2: "inv s2" "legal_steps P (view_of s) (view_of s2)"
      using put_inv [OF s1(1) put] by auto
    moreover obtain z s3 where get3: "st_Get S s2 key = (z, s3)" by fastforce
    moreover have "inv s3" "legal_steps P (view_of s) (view_of s3)"
      using s2 get3 get_inv get_peers peers_legal_steps by (blast, meson rtranclp_trans)
    ultimately show ?thesis
      using assms(4) get c put
      by (auto simp: renew_stored_def renewalLost_def Let_def split: option.splits if_splits)
  next
    case False
    with assms(4) get s1 show ?thesis
      by (auto simp: renew_stored_def split: sum.splits if_splits)
  qed
qed

lemma renew_granted:
  assumes "inv s" and "renew_stored S now key holder token ttl s = (Inr res, s')" and "ar_Acquired res"
  shows "\<exists>m c. legal_steps P (view_of s) m \<and> m key = Some c \<and> rec_Holder c = holder \<and>
    rec_FencingToken c = token \<and> \<not> Expired c now \<and>
    view_of s' = m(key \<mapsto> c\<lparr>rec_RenewedAt := now, rec_TTL := ttl, rec_Version := rec_Version c + 1\<rparr>) \<and>
    res = \<lparr>ar_Acquired = True, ar_Holder = holder, ar_FencingToken = token,
           ar_ExpiresAt = time_Add now ttl, ar_AcquiredAt = rec_AcquiredAt c\<rparr>"
proof -
  obtain y s1 where get: "st_Get S s key = (y, s1)" by fastforce
  with assms(2,3) obtain c where c: "y = Inr c" "rec_Holder c = holder" "rec_FencingToken c = token"
    "\<not> Expired c now"
    by (auto simp: renew_stored_def zero_AcquireResult_def not_acquired_def
        split: sum.splits if_splits)
  let ?r = "c\<lparr>rec_RenewedAt := now, rec_TTL := ttl\<rparr>"
  obtain e s2 where put: "st_Put S s1 (rec_Version c) (Some ?r) = (e, s2)" by fastforce
  with assms(2,3) get c have e: "e = None" "s' = s2"
    and res: "res = \<lparr>ar_Acquired = True, ar_Holder = holder, ar_FencingToken = token,
           ar_ExpiresAt = time_Add now ttl, ar_AcquiredAt = rec_AcquiredAt c\<rparr>"
    by (auto simp: renew_stored_def renewalLost_def not_acquired_def Let_def ExpiresAt_def
        split: option.splits if_splits prod.splits)
  have s1: "inv s1" "view_of s1 key = Some c" "rec_Key c = key" "peers P (view_of s) (view_of s1)"
    using get_found [OF assms(1)] get c(1) get_inv get_peers inv_keyed keyedD assms(1) by blast+
  obtain m where m: "peers P (view_of s1) m" "m key = Some c"
    "view_of s2 = m(key \<mapsto> ?r\<lparr>rec_Version := rec_Version c + 1\<rparr>)"
    using put_after_read [OF s1(1,2), of ?r s2] put e s1(3) by auto
  with s1(4) have "legal_steps P (view_of s) m"
    by (meson peers_legal_steps rtranclp_trans)
  with m c e res show ?thesis by (intro exI [of _ m] exI [of _ c]) simp
qed

lemma release_inv_guarantee:
  assumes "inv s" and "Manager_Release V S now key holder token s = (x, s')"
    and allowed: "release_allowed P now key holder token"
  shows "inv s' \<and> legal_steps P (view_of s) (view_of s')"
proof (cases "ValidateKey V key = None \<and> holder \<noteq> []")
  case True
  obtain y s1 where get: "st_Get S s key = (y, s1)" by fastforce
  have s1: "inv s1" "legal_steps P (view_of s) (view_of s1)"
    using assms(1) get get_inv get_peers peers_legal_steps by blast+
  show ?thesis
  proof (cases "\<exists>cur. y = Inr cur \<and> \<not> Tombstone cur \<and> rec_Holder cur = holder \<and> rec_FencingToken cur = token")
    case found: True
    then obtain c where c: "y = Inr c" "\<not> Tombstone c" "rec_Holder c = holder" "rec_FencingToken c = token"
      by blast
    obtain e s2 where put: "st_Put S s1 (rec_Version c) (Some (tombstoneFrom c now)) = (e, s2)"
      by fastforce
    have v: "view_of s1 key = Some c" "rec_Key c = key"
      using get_found [OF assms(1)] get c(1) s1(1) inv_keyed keyedD by blast+
    have "legal_steps P (view_of s1) (view_of s2)"
    proof (rule put_guarantee_read [OF s1(1) v(1) _ _ put])
      fix m assume "m key = Some c"
      then show "legal_step P m (m(key \<mapsto> (tombstoneFrom c now)\<lparr>rec_Version := rec_Version c + 1\<rparr>))"
        using legal_write.released [of m key c] allowed c
        by (intro legal_stepI) (auto simp: release_allowed_def)
    qed (simp add: v(2))
    with s1(2) have "inv s2" "legal_steps P (view_of s) (view_of s2)"
      using put_inv [OF s1(1) put] by auto
    with assms(2) True get s1 c put show ?thesis
      by (auto simp: Manager_Release_def split: option.splits if_splits)
  qed (use assms(2) True get s1 in \<open>auto simp: Manager_Release_def split: sum.splits if_splits\<close>)
qed (use assms in \<open>auto simp: Manager_Release_def split: option.splits if_splits\<close>)

lemma manager_acquire_guarantee:
  assumes "inv s" and "Manager_Acquire V S clk key holder ttl s = (x, s')"
    and "\<forall>i < maxAcquireAttempts. grants_allowed P (clk i) key holder ttl"
  shows "inv s' \<and> legal_steps P (view_of s) (view_of s')"
  using assms acquire_loop_inv_guarantee [OF assms(1)]
  by (auto simp: Manager_Acquire_def ValidateHolder_None not_le split: option.splits if_splits)

lemma manager_renew_guarantee:
  assumes "inv s" and "Manager_Renew V S now key holder token ttl s = (x, s')"
    and "renew_allowed P now key holder token ttl"
  shows "inv s' \<and> legal_steps P (view_of s) (view_of s')"
  using assms renew_inv_guarantee [OF assms(1)]
  by (auto simp: Manager_Renew_def ValidateHolder_None not_le split: option.splits if_splits)

lemma manager_acquire_granted:
  assumes "inv s" and "Manager_Acquire V S clk key holder ttl s = (Inr res, s')" and "ar_Acquired res"
    and "\<forall>i < maxAcquireAttempts. grants_allowed P (clk i) key holder ttl"
  shows "\<exists>m i. i < maxAcquireAttempts \<and> legal_steps P (view_of s) m \<and>
    acquired_as m (view_of s') key holder ttl (clk i) res"
  using assms acquire_loop_granted [OF assms(1)]
  by (auto simp: Manager_Acquire_def ValidateHolder_None not_le split: option.splits if_splits)

lemma manager_acquire_denied:
  assumes "inv s" and "Manager_Acquire V S clk key holder ttl s = (Inr res, s')" and "\<not> ar_Acquired res"
  shows "\<exists>i c. i < maxAcquireAttempts \<and> view_of s' key = Some c \<and> rec_Holder c \<noteq> holder \<and>
    \<not> Tombstone c \<and> \<not> Expired c (clk i) \<and> res = not_acquired c"
  using assms acquire_loop_denied [OF assms(1)]
  by (auto simp: Manager_Acquire_def split: option.splits if_splits)

lemma manager_renew_granted:
  assumes "inv s" and "Manager_Renew V S now key holder token ttl s = (Inr res, s')" and "ar_Acquired res"
  shows "\<exists>m c. legal_steps P (view_of s) m \<and> m key = Some c \<and> rec_Holder c = holder \<and>
    rec_FencingToken c = token \<and> \<not> Expired c now \<and>
    view_of s' = m(key \<mapsto> c\<lparr>rec_RenewedAt := now, rec_TTL := ttl, rec_Version := rec_Version c + 1\<rparr>) \<and>
    res = \<lparr>ar_Acquired = True, ar_Holder = holder, ar_FencingToken = token,
           ar_ExpiresAt = time_Add now ttl, ar_AcquiredAt = rec_AcquiredAt c\<rparr>"
  using assms renew_granted [OF assms(1)]
  by (auto simp: Manager_Renew_def split: option.splits if_splits)

end

end
