(* ===== verification/Lease_GC.thy ===== *)
theory Lease_GC
  imports Lease_Manager
begin

text \<open>
  The garbage collector of expired leases (\<open>internal/lease/ttl.go\<close>): the constructor with
  its defaults, one sweep (\<open>collect\<close>) and the ticker loop (\<open>Run\<close>) as a run over the events
  its \<open>select\<close> receives.  \<open>ctxdone n\<close> says whether the context is done when a write fails with
  \<open>n\<close> records still to visit; log lines are not modelled, the count they report is the
  first component of the result.
\<close>

section \<open>Operations\<close>

definition defaultGCInterval :: duration where
  "defaultGCInterval = 30 * second"

definition defaultGCGrace :: duration where
  "defaultGCGrace = 5 * 60 * second"

record TTLEnforcer =
  gc_interval :: duration
  gc_grace :: duration

definition NewTTLEnforcer :: "duration \<Rightarrow> duration \<Rightarrow> TTLEnforcer" where
  "NewTTLEnforcer interval grace =
     \<lparr>gc_interval = (if interval \<le> 0 then defaultGCInterval else interval),
      gc_grace = (if grace \<le> 0 then defaultGCGrace else grace)\<rparr>"

text \<open>The guard of the loop, \<open>r.Tombstone() || now.Before(r.ExpiresAt().Add(e.grace))\<close>.\<close>

definition gc_skip :: "duration \<Rightarrow> time \<Rightarrow> lease_record \<Rightarrow> bool" where
  "gc_skip grace now r \<longleftrightarrow> Tombstone r \<or> time_Before now (time_Add (ExpiresAt r) grace)"

fun collect_loop ::
  "'s Store \<Rightarrow> (nat \<Rightarrow> bool) \<Rightarrow> duration \<Rightarrow> time \<Rightarrow> lease_record list \<Rightarrow> nat \<Rightarrow> 's \<Rightarrow> nat \<times> 's"
where
  "collect_loop S ctxdone grace now [] swept s = (swept, s)"
| "collect_loop S ctxdone grace now (r # rs) swept s =
     (if gc_skip grace now r then collect_loop S ctxdone grace now rs swept s
      else
        (let (e, s1) = st_Put S s (rec_Version r) (Some (tombstoneFrom r now)) in
         case e of
           None \<Rightarrow> collect_loop S ctxdone grace now rs (swept + 1) s1
         | Some err \<Rightarrow>
             if errors_Is err ErrConflict then collect_loop S ctxdone grace now rs swept s1
             else if ctxdone (length rs) then (swept, s1)
             else collect_loop S ctxdone grace now rs swept s1))"

definition collect :: "'s Store \<Rightarrow> (nat \<Rightarrow> bool) \<Rightarrow> TTLEnforcer \<Rightarrow> time \<Rightarrow> 's \<Rightarrow> nat \<times> 's" where
  "collect S ctxdone e now s =
     (let (x, s1) = st_List S s in
      case x of
        Inl err \<Rightarrow> (0, s1)
      | Inr records \<Rightarrow> collect_loop S ctxdone (gc_grace e) now records 0 s1)"

datatype gc_event = GCDone goerr | GCTick time

text \<open>\<open>Run\<close> returns the context error, or \<open>None\<close> while it is still waiting for events.\<close>

fun TTLEnforcer_Run ::
  "'s Store \<Rightarrow> (nat \<Rightarrow> bool) \<Rightarrow> TTLEnforcer \<Rightarrow> gc_event list \<Rightarrow> 's \<Rightarrow> goerr option \<times> 's"
where
  "TTLEnforcer_Run S ctxdone e [] s = (None, s)"
| "TTLEnforcer_Run S ctxdone e (GCDone err # evs) s = (Some err, s)"
| "TTLEnforcer_Run S ctxdone e (GCTick now # evs) s =
     TTLEnforcer_Run S ctxdone e evs (snd (collect S ctxdone e now s))"

lemma NewTTLEnforcer_pos [simp]: "0 < gc_grace (NewTTLEnforcer i g)" "0 < gc_interval (NewTTLEnforcer i g)"
  by (simp_all add: NewTTLEnforcer_def defaultGCGrace_def defaultGCInterval_def)

lemma gc_due_expired: "\<not> gc_skip grace now r \<Longrightarrow> 0 < grace \<Longrightarrow> \<not> Tombstone r \<and> Expired r now"
  by (auto simp: gc_skip_def Expired_def go_simps)

definition sweep_allowed :: "policy \<Rightarrow> time \<Rightarrow> bool" where
  "sweep_allowed P now \<longleftrightarrow> (\<forall>c r. Expired c now \<longrightarrow> P Swept now (rec_Key c) (Some c) r)"

lemma any_write_sweep [simp]: "sweep_allowed any_write now"
  by (simp add: sweep_allowed_def)

section \<open>Over any store that keeps the contract\<close>

context lease_store
begin

lemma collect_loop_guarantee:
  assumes "0 < grace" and allowed: "sweep_allowed P now"
    and listed: "\<forall>r \<in> set rs. m0 (rec_Key r) = Some r"
    and "inv s" and "steps_within P N m0 (view_of s)" and "N + length rs * 2 ^ 33 \<le> 2 ^ 64"
    and "collect_loop S ctxdone grace now rs swept s = (n, s')"
  shows "inv s' \<and> legal_steps P (view_of s) (view_of s')"
  using assms(3-)
proof (induction rs arbitrary: s N swept)
  case Nil
  then show ?case by simp
next
  case (Cons r rs)
  have rest: "\<forall>q \<in> set rs. m0 (rec_Key q) = Some q"
    using Cons.prems(1) by simp
  show ?case
  proof (cases "gc_skip grace now r")
    case True
    have "N + length rs * 2 ^ 33 \<le> 2 ^ 64"
      using Cons.prems(4) by simp
    with True Cons.prems Cons.IH [OF rest Cons.prems(2,3)] show ?thesis by simp
  next
    case False
    obtain e s1 where put: "st_Put S s (rec_Version r) (Some (tombstoneFrom r now)) = (e, s1)"
      by fastforce
    have within: "steps_within P (Suc (2 ^ 32)) (view_of s) (view_of s1)"
    proof (rule put_guarantee_stale [OF Cons.prems(2,3) _ _ _ _ put])
      fix m assume "m (rec_Key r) = Some r"
      with gc_due_expired [OF False assms(1)]
      show "legal_step P m (m(rec_Key r \<mapsto> (tombstoneFrom r now)\<lparr>rec_Version := rec_Version r + 1\<rparr>))"
        using allowed by (intro legal_stepI [where w = Swept and now = now])
          (auto simp: sweep_allowed_def intro: legal_write.swept)
    qed (use Cons.prems(1,4) in auto)
    have N: "steps_within P (N + Suc (2 ^ 32)) m0 (view_of s1)"
      "N + Suc (2 ^ 32) + length rs * 2 ^ 33 \<le> 2 ^ 64"
      using steps_within_trans [OF Cons.prems(3) within] Cons.prems(4) by auto
    note IH = Cons.IH [OF rest put_inv [OF Cons.prems(2) put] N]
    have "inv s' \<and> legal_steps P (view_of s1) (view_of s')"
      using Cons.prems(5) False put IH put_inv [OF Cons.prems(2) put]
      by (auto split: option.splits if_splits)
    with steps_within_legal_steps [OF within] show ?thesis
      by (auto intro: rtranclp_trans)
  qed
qed

lemma collect_guarantee:
  assumes "inv s" and "0 < gc_grace e" and "collect S ctxdone e now s = (n, s')"
    and "\<And>rs s1. st_List S s = (Inr rs, s1) \<Longrightarrow> length rs < 2 ^ 30"
    and "sweep_allowed P now"
  shows "inv s' \<and> legal_steps P (view_of s) (view_of s')"
proof -
  obtain x s1 where l: "st_List S s = (x, s1)" by fastforce
  have s1: "inv s1" "legal_steps P (view_of s) (view_of s1)"
    using list_inv [OF assms(1) l] list_peers [OF assms(1) l] peers_legal_steps by blast+
  show ?thesis
  proof (cases x)
    case (Inl err)
    with assms(3) l s1 show ?thesis by (simp add: collect_def)
  next
    case (Inr rs)
    then have loop: "collect_loop S ctxdone (gc_grace e) now rs 0 s1 = (n, s')"
      using assms(3) l by (simp add: collect_def)
    have "\<forall>r \<in> set rs. view_of s1 (rec_Key r) = Some r"
      using list_found [OF assms(1)] l Inr by blast
    moreover have "1 + length rs * 2 ^ 33 \<le> 2 ^ 64"
      using assms(4) [OF l [unfolded Inr]] by simp
    ultimately have "inv s' \<and> legal_steps P (view_of s1) (view_of s')"
      using collect_loop_guarantee [OF assms(2,5) _ s1(1) steps_within_refl [of 1] _ loop] by simp
    with s1(2) show ?thesis by auto
  qed
qed

end

end
