(* ===== verification/Lease_Shared.thy ===== *)
theory Lease_Shared
  imports Lease_GC
begin

text \<open>
  One in-memory store shared by several API server replicas, seen from one of them.  Before
  every call the other replicas write: a turn is the context error of the call, the iteration
  order of a listing and the list of writes that precede the call.  Every write of a peer is one of the legal writes, which is what
  the manager and the collector of every replica make (the guarantees proved here), so the
  model covers all interleavings of replicas at the granularity of store calls.  A policy
  may restrict the writes of the peers; \<open>any_write\<close> does not.
\<close>

section \<open>The store and its turns\<close>

datatype peer_write = PeerWrite write_kind time Key string duration

fun peer_next :: "peer_write \<Rightarrow> lease_record option \<Rightarrow> lease_record option" where
  "peer_next (PeerWrite Created now k holder ttl) None =
     (if holder \<noteq> [] \<and> 0 < ttl then
        Some \<lparr>rec_Key = k, rec_Holder = holder, rec_TTL = ttl, rec_AcquiredAt = now,
              rec_RenewedAt = now, rec_FencingToken = 1, rec_Version = 1\<rparr>
      else None)"
| "peer_next (PeerWrite Renewed now k holder ttl) (Some c) =
     (if \<not> Tombstone c \<and> \<not> Expired c now \<and> 0 < ttl then
        Some (c\<lparr>rec_RenewedAt := now, rec_TTL := ttl, rec_Version := rec_Version c + 1\<rparr>)
      else None)"
| "peer_next (PeerWrite Reclaimed now k holder ttl) (Some c) =
     (if (Tombstone c \<or> Expired c now) \<and> rec_FencingToken c \<noteq> MaxInt32 \<and> holder \<noteq> [] \<and> 0 < ttl then
        Some \<lparr>rec_Key = k, rec_Holder = holder, rec_TTL = ttl, rec_AcquiredAt = now,
              rec_RenewedAt = now, rec_FencingToken = rec_FencingToken c + 1,
              rec_Version = rec_Version c + 1\<rparr>
      else None)"
| "peer_next (PeerWrite Released now k holder ttl) (Some c) =
     (if \<not> Tombstone c then
        Some ((tombstoneFrom c now)\<lparr>rec_Version := rec_Version c + 1\<rparr>)
      else None)"
| "peer_next (PeerWrite Swept now k holder ttl) (Some c) =
     (if \<not> Tombstone c \<and> Expired c now then
        Some ((tombstoneFrom c now)\<lparr>rec_Version := rec_Version c + 1\<rparr>)
      else None)"
| "peer_next w cur = None"

fun peer_key :: "peer_write \<Rightarrow> Key" where
  "peer_key (PeerWrite w now k holder ttl) = k"

definition peer_apply :: "peer_write \<Rightarrow> MemStore \<Rightarrow> MemStore" where
  "peer_apply w s =
     (case peer_next w (mem_view s (peer_key w)) of
        None \<Rightarrow> s
      | Some r \<Rightarrow> s\<lparr>ms_records := AList.update (peer_key w) r (ms_records s)\<rparr>)"

text \<open>Any permutation, as the positions at which the elements are inserted one after the other.\<close>

fun reorder :: "nat list \<Rightarrow> 'a list \<Rightarrow> 'a list" where
  "reorder (n # ns) (x # xs) = (let ys = reorder ns xs in take n ys @ x # drop n ys)"
| "reorder ns xs = xs"

record turn =
  t_ctx :: ctx
  t_order :: "nat list"
  t_peers :: "peer_write list"

record shared =
  sh_mem :: MemStore
  sh_turns :: "turn list"

definition sh_turn :: "shared \<Rightarrow> turn" where
  "sh_turn s =
     (case sh_turns s of
        [] \<Rightarrow> \<lparr>t_ctx = None, t_order = [], t_peers = []\<rparr>
      | t # ts \<Rightarrow> t)"

definition interfere :: "shared \<Rightarrow> shared" where
  "interfere s =
     \<lparr>sh_mem = fold peer_apply (t_peers (sh_turn s)) (sh_mem s), sh_turns = tl (sh_turns s)\<rparr>"

definition on_mem :: "shared \<Rightarrow> ('a \<times> MemStore) \<Rightarrow> 'a \<times> shared" where
  "on_mem s p = (fst p, s\<lparr>sh_mem := snd p\<rparr>)"

definition shared_ops :: "shared Store" where
  "shared_ops =
     \<lparr>st_Ping = (\<lambda>s. MemStore_Ping (t_ctx (sh_turn s)) (sh_mem (interfere s))),
      st_Get = (\<lambda>s k. on_mem (interfere s)
        (MemStore_Get (t_ctx (sh_turn s)) (sh_mem (interfere s)) k)),
      st_List = (\<lambda>s. on_mem (interfere s)
        (MemStore_List (reorder (t_order (sh_turn s))) (t_ctx (sh_turn s)) (sh_mem (interfere s)))),
      st_Put = (\<lambda>s v r. on_mem (interfere s)
        (MemStore_Put (t_ctx (sh_turn s)) (sh_mem (interfere s)) v r))\<rparr>"

abbreviation sh_view :: "shared \<Rightarrow> view" where
  "sh_view s \<equiv> mem_view (sh_mem s)"

fun peer_allowed :: "policy \<Rightarrow> peer_write \<Rightarrow> bool" where
  "peer_allowed P (PeerWrite w now k holder ttl) =
     (\<forall>old new. peer_next (PeerWrite w now k holder ttl) old = Some new \<longrightarrow> P w now k old new)"

definition turn_ok :: "policy \<Rightarrow> turn \<Rightarrow> bool" where
  "turn_ok P t \<longleftrightarrow> ctx_ok (t_ctx t) \<and> length (t_peers t) < 2 ^ 32 \<and>
     list_all (peer_allowed P) (t_peers t)"

definition shared_inv :: "policy \<Rightarrow> shared \<Rightarrow> bool" where
  "shared_inv P s \<longleftrightarrow> mem_inv (sh_mem s) \<and> list_all (turn_ok P) (sh_turns s)"

lemma peer_allowed_any [simp]: "peer_allowed any_write w"
  by (cases w) simp

lemma mset_reorder: "mset (reorder ns xs) = mset xs"
proof (induction ns xs rule: reorder.induct)
  case (1 n ns x xs)
  have "mset (take n (reorder ns xs)) + mset (drop n (reorder ns xs)) = mset (reorder ns xs)"
    by (simp flip: mset_append)
  with 1 show ?case by (simp add: Let_def)
qed simp_all

lemma perm_ok_reorder [simp]: "perm_ok (reorder ns)"
  by (simp add: perm_ok_def mset_reorder)

section \<open>Peers make legal writes\<close>

lemma peer_next_legal:
  assumes "peer_next w (m (peer_key w)) = Some r" and "keyed m" and "peer_allowed P w"
  shows "legal_step P m (m(peer_key w \<mapsto> r)) \<and> rec_Key r = peer_key w"
proof (cases w)
  case (PeerWrite kind now k holder ttl)
  have "legal_write kind now k m (m(k \<mapsto> r)) \<and> rec_Key r = k"
    using assms PeerWrite
    by (cases kind; cases "m k")
      (auto split: if_splits intro: legal_write.intros dest: keyedD)
  with assms(1,3) PeerWrite show ?thesis
    by (auto intro!: legal_stepI)
qed

lemma peer_apply_legal:
  assumes "mem_inv s" and "peer_allowed P w"
  shows "mem_inv (peer_apply w s) \<and>
    (mem_view (peer_apply w s) = mem_view s \<or> legal_step P (mem_view s) (mem_view (peer_apply w s)))"
proof (cases "peer_next w (mem_view s (peer_key w))")
  case None
  with assms show ?thesis by (simp add: peer_apply_def)
next
  case (Some r)
  have "keyed (mem_view s)"
    using assms by (simp add: mem_inv_def)
  from peer_next_legal [of w "mem_view s" r, OF Some this assms(2)] assms Some show ?thesis
    by (simp add: peer_apply_def update_conv' mem_inv_update)
qed

lemma peers_fold:
  "mem_inv s \<Longrightarrow> list_all (peer_allowed P) ws \<Longrightarrow> mem_inv (fold peer_apply ws s) \<and>
     steps_within P (Suc (length ws)) (mem_view s) (mem_view (fold peer_apply ws s))"
proof (induction ws rule: rev_induct)
  case Nil
  then show ?case by simp
next
  case (snoc w ws)
  then have IH: "mem_inv (fold peer_apply ws s)"
    "steps_within P (Suc (length ws)) (mem_view s) (mem_view (fold peer_apply ws s))"
    by auto
  from peer_apply_legal [OF IH(1), of P w] IH(2) snoc.prems show ?case
    by (auto intro: steps_within_step steps_within_mono)
qed

lemma sh_turn_ok: "shared_inv P s \<Longrightarrow> turn_ok P (sh_turn s)"
  by (auto simp: sh_turn_def shared_inv_def turn_ok_def ctx_ok_def perm_ok_def split: list.splits)

lemma interfere_ok:
  assumes "shared_inv P s"
  shows "shared_inv P (interfere s)" "peers P (sh_view s) (sh_view (interfere s))"
proof -
  have "mem_inv (sh_mem s)" "list_all (turn_ok P) (tl (sh_turns s))"
    using assms by (cases "sh_turns s"; simp add: shared_inv_def)+
  with peers_fold [of "sh_mem s" P "t_peers (sh_turn s)"] sh_turn_ok [OF assms]
  show "shared_inv P (interfere s)" "peers P (sh_view s) (sh_view (interfere s))"
    by (auto simp: interfere_def shared_inv_def peers_def turn_ok_def intro: steps_within_mono)
qed

lemma shared_inv_mem: "shared_inv P s \<Longrightarrow> mem_inv m \<Longrightarrow> shared_inv P (s\<lparr>sh_mem := m\<rparr>)"
  by (simp add: shared_inv_def)

lemma shared_inv_memD: "shared_inv P s \<Longrightarrow> mem_inv (sh_mem s)"
  by (simp add: shared_inv_def)

lemma on_mem_eq: "on_mem s p = (x, s') \<longleftrightarrow> (\<exists>m. p = (x, m) \<and> s' = s\<lparr>sh_mem := m\<rparr>)"
  by (cases p) (auto simp: on_mem_def)

lemma shared_ops_sel:
  "st_Get shared_ops s k = on_mem (interfere s) (MemStore_Get (t_ctx (sh_turn s)) (sh_mem (interfere s)) k)"
  "st_List shared_ops s =
     on_mem (interfere s) (MemStore_List (reorder (t_order (sh_turn s))) (t_ctx (sh_turn s)) (sh_mem (interfere s)))"
  "st_Put shared_ops s v r = on_mem (interfere s) (MemStore_Put (t_ctx (sh_turn s)) (sh_mem (interfere s)) v r)"
  by (simp_all add: shared_ops_def)

section \<open>The shared store keeps the contract\<close>

lemma turn_mem_store:
  "shared_inv P s \<Longrightarrow>
     lease_store P (MemStore_ops (reorder (t_order (sh_turn s))) (t_ctx (sh_turn s))) mem_view mem_inv"
  using sh_turn_ok by (auto simp: turn_ok_def intro: MemStore_lease_store)

lemma shared_inv_put:
  assumes "shared_inv P s" and "st_Put shared_ops s v (Some r) = (e, s')"
  shows "shared_inv P s'"
proof -
  obtain m where m: "MemStore_Put (t_ctx (sh_turn s)) (sh_mem (interfere s)) v (Some r) = (e, m)"
    and s': "s' = (interfere s)\<lparr>sh_mem := m\<rparr>"
    using assms(2) by (auto simp: shared_ops_sel on_mem_eq)
  have "mem_inv m"
    using lease_store.put_inv [OF turn_mem_store [OF assms(1)]] m
      shared_inv_memD [OF interfere_ok(1) [OF assms(1)]] by simp
  with interfere_ok(1) [OF assms(1)] s' show ?thesis
    by (simp add: shared_inv_mem)
qed

interpretation sh: lease_store P shared_ops sh_view "shared_inv P"
proof unfold_locales
  fix s assume "shared_inv P s"
  then show "keyed (sh_view s)" by (simp add: shared_inv_def mem_inv_def)
next
  fix s k x s' assume s: "shared_inv P s" "st_Get shared_ops s k = (x, s')"
  then have "s' = interfere s"
    by (auto simp: shared_ops_sel on_mem_eq dest: MemStore_Get_frame)
  with s(1) show "shared_inv P s'" "peers P (sh_view s) (sh_view s')"
    by (simp_all add: interfere_ok)
next
  fix s k r s' assume "st_Get shared_ops s k = (Inr r, s')"
  then show "sh_view s' k = Some r"
    by (auto simp: shared_ops_sel on_mem_eq MemStore_Get_def split: option.splits)
next
  fix s k e s' assume s: "shared_inv P s" "st_Get shared_ops s k = (Inl e, s')" "errors_Is e ErrNotFound"
  then show "sh_view s' k = None"
    using sh_turn_ok [OF s(1)]
    by (auto simp: shared_ops_sel on_mem_eq MemStore_Get_def turn_ok_def ctx_ok_def split: option.splits)
next
  fix s y s' assume s: "shared_inv P s" "st_List shared_ops s = (y, s')"
  then have "s' = interfere s"
    by (auto simp: shared_ops_sel on_mem_eq MemStore_List_def split: option.splits)
  with s(1) show "shared_inv P s'" "peers P (sh_view s) (sh_view s')"
    by (simp_all add: interfere_ok)
next
  fix s rs s' r
  assume s: "shared_inv P s" "st_List shared_ops s = (Inr rs, s')" "r \<in> set rs"
  then show "sh_view s' (rec_Key r) = Some r"
    using lease_store.list_found [OF turn_mem_store [OF s(1)]
        shared_inv_memD [OF interfere_ok(1) [OF s(1)]]]
    by (auto simp: shared_ops_sel on_mem_eq)
next
  fix s rs s' k r
  assume s: "shared_inv P s" "st_List shared_ops s = (Inr rs, s')" "sh_view s' k = Some r"
  then show "r \<in> set rs"
    using lease_store.list_all_keys [OF turn_mem_store [OF s(1)]
        shared_inv_memD [OF interfere_ok(1) [OF s(1)]]]
    by (auto simp: shared_ops_sel on_mem_eq)
next
  fix s v r e s'
  assume "shared_inv P s" and "st_Put shared_ops s v (Some r) = (e, s')"
  then show "shared_inv P s'" by (rule shared_inv_put)
next
  fix s v r s'
  assume s: "shared_inv P s" "st_Put shared_ops s v (Some r) = (None, s')"
  then show "\<exists>m. peers P (sh_view s) m \<and> cas v (rec_Key r) m \<and>
      sh_view s' = m(rec_Key r \<mapsto> r\<lparr>rec_Version := v + 1\<rparr>)"
    using interfere_ok(2) [OF s(1)]
    by (auto simp: shared_ops_sel on_mem_eq MemStore_Put_iff update_conv'
        intro!: exI [of _ "sh_view (interfere s)"])
next
  fix s v r e s'
  assume s: "shared_inv P s" "st_Put shared_ops s v (Some r) = (Some e, s')"
  then have "s' = interfere s"
    by (auto simp: shared_ops_sel on_mem_eq dest: MemStore_Put_Some_frame)
  with s(1) show "peers P (sh_view s) (sh_view s')"
    "peers P (sh_view s) (sh_view s') \<or>
      (\<exists>m. peers P (sh_view s) m \<and> cas v (rec_Key r) m \<and>
           sh_view s' = m(rec_Key r \<mapsto> r\<lparr>rec_Version := v + 1\<rparr>))"
    by (simp_all add: interfere_ok)
qed

end
