(* ===== verification/Lease_Fencing.thy ===== *)
theory Lease_Fencing
  imports Lease_Shared
begin

text \<open>
  What fencing tokens and expiry give over whole runs of the server: sequences of manager
  calls and sweeps of one replica, interleaved with the writes of its peers.

  \<^item> \<open>server_op\<close>, \<open>server_step\<close>, \<open>run_server\<close>: the calls a replica makes, in sequence.
  \<^item> The theorems: tokens never decrease and identify one holder; the lease of a holder
    is stable until it expires, is released by that holder, or is renewed by it for less.
\<close>

section \<open>Runs of a replica\<close>

datatype server_op =
    OpAcquire "nat \<Rightarrow> time" Key string duration
  | OpRenew time Key string int32 duration
  | OpRelease time Key string int32
  | OpSweep time

fun server_step :: "dns1123 \<Rightarrow> TTLEnforcer \<Rightarrow> 's Store \<Rightarrow> server_op \<Rightarrow> 's \<Rightarrow> 's" where
  "server_step V e S (OpAcquire clk key holder ttl) s = snd (Manager_Acquire V S clk key holder ttl s)"
| "server_step V e S (OpRenew now key holder token ttl) s = snd (Manager_Renew V S now key holder token ttl s)"
| "server_step V e S (OpRelease now key holder token) s = snd (Manager_Release V S now key holder token s)"
| "server_step V e S (OpSweep now) s = snd (collect S (\<lambda>n. False) e now s)"

primrec run_server :: "dns1123 \<Rightarrow> TTLEnforcer \<Rightarrow> 's Store \<Rightarrow> server_op list \<Rightarrow> 's \<Rightarrow> 's" where
  "run_server V e S [] s = s"
| "run_server V e S (op # ops) s = run_server V e S ops (server_step V e S op s)"

text \<open>Sweeps see fewer than \<open>2^30\<close> records, so that no version wraps around while one runs.\<close>

fun small_sweep :: "'s Store \<Rightarrow> server_op \<Rightarrow> 's \<Rightarrow> bool" where
  "small_sweep S (OpSweep now) s =
     (case fst (st_List S s) of Inl err \<Rightarrow> True | Inr rs \<Rightarrow> length rs < 2 ^ 30)"
| "small_sweep S op s = True"

primrec small_sweeps :: "dns1123 \<Rightarrow> TTLEnforcer \<Rightarrow> 's Store \<Rightarrow> server_op list \<Rightarrow> 's \<Rightarrow> bool" where
  "small_sweeps V e S [] s = True"
| "small_sweeps V e S (op # ops) s =
     (small_sweep S op s \<and> small_sweeps V e S ops (server_step V e S op s))"

fun op_allowed :: "policy \<Rightarrow> server_op \<Rightarrow> bool" where
  "op_allowed P (OpAcquire clk key holder ttl) =
     (\<forall>i < maxAcquireAttempts. grants_allowed P (clk i) key holder ttl)"
| "op_allowed P (OpRenew now key holder token ttl) = renew_allowed P now key holder token ttl"
| "op_allowed P (OpRelease now key holder token) = release_allowed P now key holder token"
| "op_allowed P (OpSweep now) = sweep_allowed P now"

lemma op_allowed_any [simp]: "op_allowed any_write op"
  by (cases op) simp_all

context lease_store
begin

lemma server_step_guarantee:
  assumes "inv s" and "0 < gc_grace e" and "small_sweep S op s" and "op_allowed P op"
  shows "inv (server_step V e S op s) \<and> legal_steps P (view_of s) (view_of (server_step V e S op s))"
proof (cases op)
  case (OpAcquire clk key holder ttl)
  with assms manager_acquire_guarantee [OF assms(1)] show ?thesis
    by (metis op_allowed.simps(1) prod.collapse server_step.simps(1))
next
  case (OpRenew now key holder token ttl)
  with assms manager_renew_guarantee [OF assms(1)] show ?thesis
    by (metis op_allowed.simps(2) prod.collapse server_step.simps(2))
next
  case (OpRelease now key holder token)
  with assms release_inv_guarantee [OF assms(1)] show ?thesis
    by (metis op_allowed.simps(3) prod.collapse server_step.simps(3))
next
  case (OpSweep now)
  obtain n s' where c: "collect S (\<lambda>n. False) e now s = (n, s')" by fastforce
  have "length rs < 2 ^ 30" if "st_List S s = (Inr rs, s1)" for rs s1
    using assms(3) OpSweep that by simp
  from collect_guarantee [OF assms(1,2) c this] assms(4) OpSweep c show ?thesis
    by simp
qed

lemma run_server_guarantee:
  assumes "inv s" and "0 < gc_grace e" and "small_sweeps V e S ops s" and "\<forall>op \<in> set ops. op_allowed P op"
  shows "inv (run_server V e S ops s) \<and> legal_steps P (view_of s) (view_of (run_server V e S ops s))"
  using assms(1,3,4)
proof (induction ops arbitrary: s)
  case Nil
  then show ?case by simp
next
  case (Cons op ops)
  then have "inv (server_step V e S op s)"
    "legal_steps P (view_of s) (view_of (server_step V e S op s))"
    using server_step_guarantee [OF _ assms(2)] by simp_all
  with Cons show ?case
    by (auto intro: rtranclp_trans)
qed

end

section \<open>Tokens identify holders\<close>

lemma legal_step_token_holder:
  assumes "legal_step P m m'" and "m k = Some c" and "m' k = Some c'"
    and "rec_FencingToken c' = rec_FencingToken c"
  shows "rec_Holder c' = rec_Holder c \<or> rec_Holder c' = []"
proof -
  obtain w now j where w: "legal_write w now j m m'"
    using assms(1) by (auto simp: legal_step_def)
  show ?thesis
  proof (cases "j = k")
    case True
    with w assms(2-) show ?thesis
      by (cases w) (auto simp: legal_write_simps)
  next
    case False
    with w assms(2,3) legal_write_frame [OF w, of k] show ?thesis by auto
  qed
qed

lemma legal_step_tomb:
  assumes "legal_step P m m'" and "m k = Some c" and "m' k = Some c'"
    and "rec_FencingToken c' = rec_FencingToken c" and "rec_Holder c = []"
  shows "rec_Holder c' = []"
  using legal_step_token_holder [OF assms(1-4)] assms(5) by auto

lemma legal_steps_token_holder:
  assumes "legal_steps P m m'" and "m k = Some c" and "m' k = Some c'"
    and "rec_FencingToken c' = rec_FencingToken c"
  shows "rec_Holder c' = rec_Holder c \<or> rec_Holder c' = []"
  using assms(1,3,4)
proof (induction arbitrary: c' rule: rtranclp_induct)
  case base
  then show ?case using assms(2) by simp
next
  case (step m1 m2)
  obtain c1 where c1: "m1 k = Some c1" "sint (rec_FencingToken c) \<le> sint (rec_FencingToken c1)"
    using legal_steps_tokens [OF step.hyps(1) assms(2)] by blast
  obtain "sint (rec_FencingToken c1) \<le> sint (rec_FencingToken c')"
    using legal_step_record [OF step.hyps(2) c1(1)] step.prems(1) by auto
  with c1(2) step.prems(2) have "rec_FencingToken c1 = rec_FencingToken c"
    by (simp flip: sint_eq_iff_eq)
  with step.IH [OF c1(1)] step.prems legal_step_token_holder [OF step.hyps(2) c1(1)] show ?case
    by fastforce
qed

lemma acquired_as_token:
  assumes "acquired_as m m' key holder ttl now res" and "m key = Some c" and "holder \<noteq> []"
  shows "sint (rec_FencingToken c) < sint (ar_FencingToken res) \<or>
    rec_Holder c = holder \<and> ar_FencingToken res = rec_FencingToken c"
  using assms sint_succ_int32 [of "rec_FencingToken c"]
  by (auto simp: acquired_as_def split: if_splits)

lemma acquired_as_record:
  "acquired_as m m' key holder ttl now res \<Longrightarrow>
     \<exists>r. m' key = Some r \<and> rec_Holder r = holder \<and> rec_FencingToken r = ar_FencingToken res \<and>
         ExpiresAt r = ar_ExpiresAt res \<and> rec_TTL r = ttl \<and> rec_RenewedAt r = now"
  by (auto simp: acquired_as_def)

lemma Manager_Acquire_holder:
  "Manager_Acquire V S clk key holder ttl s = (Inr res, s') \<Longrightarrow> holder \<noteq> [] \<and> 0 < ttl"
  by (auto simp: Manager_Acquire_def ValidateHolder_None split: option.splits if_splits)

section \<open>A lease is stable until its expiry\<close>

text \<open>
  The policy under which the lease of \<open>h\<close> on \<open>key\<close> with token \<open>t\<close> is kept until \<open>E\<close>: clocks read
  at most \<open>E\<close>, the lease is not released, and it is not shortened to before \<open>E\<close>.
\<close>

definition hold_policy :: "time \<Rightarrow> Key \<Rightarrow> string \<Rightarrow> int32 \<Rightarrow> policy" where
  "hold_policy E key h t w now k old new \<longleftrightarrow>
     now \<le> E \<and>
     (k = key \<longrightarrow> w = Released \<longrightarrow>
        (case old of None \<Rightarrow> True | Some c \<Rightarrow> rec_Holder c \<noteq> h \<or> rec_FencingToken c \<noteq> t)) \<and>
     (k = key \<longrightarrow> w = Renewed \<longrightarrow> rec_Holder new = h \<longrightarrow> E \<le> ExpiresAt new)"

fun op_respects :: "time \<Rightarrow> Key \<Rightarrow> string \<Rightarrow> int32 \<Rightarrow> server_op \<Rightarrow> bool" where
  "op_respects E key h t (OpAcquire clk k h' ttl) =
     (\<forall>i < maxAcquireAttempts. clk i \<le> E \<and> (k = key \<longrightarrow> h' = h \<longrightarrow> E \<le> clk i + ttl))"
| "op_respects E key h t (OpRenew now k h' tok ttl) =
     (now \<le> E \<and> (k = key \<longrightarrow> h' = h \<longrightarrow> E \<le> now + ttl))"
| "op_respects E key h t (OpRelease now k h' tok) = (now \<le> E \<and> \<not> (k = key \<and> h' = h \<and> tok = t))"
| "op_respects E key h t (OpSweep now) = (now \<le> E)"

fun peer_respects :: "time \<Rightarrow> Key \<Rightarrow> peer_write \<Rightarrow> bool" where
  "peer_respects E key (PeerWrite w now k holder ttl) =
     (now \<le> E \<and> (k = key \<longrightarrow> w \<noteq> Released \<and> (w = Renewed \<longrightarrow> E \<le> now + ttl)))"

definition turns_respect :: "time \<Rightarrow> Key \<Rightarrow> shared \<Rightarrow> bool" where
  "turns_respect E key s \<longleftrightarrow> list_all (\<lambda>t. list_all (peer_respects E key) (t_peers t)) (sh_turns s)"

lemma peer_respects_allowed: "peer_respects E key w \<Longrightarrow> peer_allowed (hold_policy E key h t) w"
proof (cases w)
  case (PeerWrite kind now k holder ttl)
  assume "peer_respects E key w"
  then have "hold_policy E key h t kind now k old new"
    if "peer_next (PeerWrite kind now k holder ttl) old = Some new" for old new
    using that PeerWrite
    by (cases kind; cases old)
      (auto simp: hold_policy_def ExpiresAt_def time_Add_def split: if_splits)
  with PeerWrite show ?thesis by simp
qed

lemma turns_respect_inv:
  "shared_inv any_write s \<Longrightarrow> turns_respect E key s \<Longrightarrow> shared_inv (hold_policy E key h t) s"
  by (auto simp: shared_inv_def turns_respect_def turn_ok_def list_all_iff
      intro: peer_respects_allowed)

lemma op_respects_allowed: "op_respects E key h t op \<Longrightarrow> op_allowed (hold_policy E key h t) op"
  by (cases op)
    (auto simp: grants_allowed_def renew_allowed_def release_allowed_def sweep_allowed_def
      hold_policy_def ExpiresAt_def time_Add_def)

definition holds_until :: "time \<Rightarrow> Key \<Rightarrow> string \<Rightarrow> int32 \<Rightarrow> view \<Rightarrow> bool" where
  "holds_until E key h t m \<longleftrightarrow>
     (\<exists>r. m key = Some r \<and> rec_Holder r = h \<and> rec_FencingToken r = t \<and> E \<le> ExpiresAt r)"

lemma legal_step_holds:
  assumes "legal_step (hold_policy E key h t) m m'" and "holds_until E key h t m" and "h \<noteq> []"
  shows "holds_until E key h t m'"
proof -
  obtain w now k r where w: "legal_write w now k m m'" "m' k = Some r"
    "hold_policy E key h t w now k (m k) r"
    using assms(1) by (auto simp: legal_step_def)
  obtain c where c: "m key = Some c" "rec_Holder c = h" "rec_FencingToken c = t" "E \<le> ExpiresAt c"
    using assms(2) by (auto simp: holds_until_def)
  show ?thesis
  proof (cases "k = key")
    case True
    have "\<not> Tombstone c" "\<not> Expired c now"
      using c assms(3) w(3) by (auto simp: lease_defs hold_policy_def time_After_def)
    with w c True show ?thesis
      by (cases w) (auto simp: legal_write_simps holds_until_def hold_policy_def)
  next
    case False
    then have "m' key = m key"
      using legal_write_frame [OF w(1), of key] by simp
    with assms(2) show ?thesis by (simp add: holds_until_def)
  qed
qed

lemma legal_steps_holds:
  "legal_steps (hold_policy E key h t) m m' \<Longrightarrow> holds_until E key h t m \<Longrightarrow> h \<noteq> [] \<Longrightarrow>
     holds_until E key h t m'"
  by (induction rule: rtranclp_induct) (auto intro: legal_step_holds)

lemma holds_until_not_granted:
  assumes "acquired_as m m' key h' ttl now res" and "holds_until E key h t m" and "now \<le> E" and "h \<noteq> []"
  shows "h' = h"
  using assms
  by (auto simp: acquired_as_def holds_until_def lease_defs time_After_def split: if_splits)

section \<open>Properties\<close>

text \<open>Data of the witnesses: two replicas' worth of writes around one key.\<close>

definition key1 :: Key where
  "key1 = \<lparr>key_Namespace = ''ns'', key_Name = ''job''\<rparr>"

definition empty_shared :: shared where
  "empty_shared = \<lparr>sh_mem = NewMemStore, sh_turns = []\<rparr>"

definition one_lease :: "string \<Rightarrow> duration \<Rightarrow> time \<Rightarrow> time \<Rightarrow> int32 \<Rightarrow> int64 \<Rightarrow> shared" where
  "one_lease holder ttl acq ren tok v =
     \<lparr>sh_mem = \<lparr>ms_records = [(key1, \<lparr>rec_Key = key1, rec_Holder = holder, rec_TTL = ttl,
        rec_AcquiredAt = acq, rec_RenewedAt = ren, rec_FencingToken = tok, rec_Version = v\<rparr>)]\<rparr>,
      sh_turns = []\<rparr>"

lemma small_one [simp]:
  "small_sweeps V e shared_ops [OpSweep now] (one_lease holder ttl acq ren tok v)"
  by (simp add: one_lease_def shared_ops_sel on_mem_def MemStore_List_def interfere_def sh_turn_def)

text \<open>A store on which a peer wins the race for the key once and then lets go of it.\<close>

definition racing_shared :: shared where
  "racing_shared =
     \<lparr>sh_mem = NewMemStore,
      sh_turns =
        [\<lparr>t_ctx = None, t_order = [], t_peers = []\<rparr>,
         \<lparr>t_ctx = None, t_order = [],
          t_peers = [PeerWrite Created 0 key1 ''peer'' 10, PeerWrite Released 1 key1 [] 0]\<rparr>]\<rparr>"

lemma shared_inv_samples [simp]:
  "shared_inv P empty_shared" "shared_inv any_write racing_shared"
  "shared_inv P (one_lease holder ttl acq ren tok v)"
  by (simp_all add: shared_inv_def empty_shared_def racing_shared_def one_lease_def turn_ok_def
      ctx_ok_def mem_inv_def keyed_def NewMemStore_def)

text \<open>
  C1. Fencing.  Suppose a replica grants the lease of a key to \<open>h\<close> with some token, then runs
  any sequence of calls and sweeps, with any writes by its peers in between, and then grants
  the key to a different holder \<open>h'\<close>.  Then the later token is strictly greater, as a signed
  number, than the earlier one.
\<close>

theorem acquire_fences_previous_holder:
  assumes "shared_inv any_write s"
    and "Manager_Acquire V shared_ops clk key h ttl s = (Inr res, s1)" and "ar_Acquired res"
    and "small_sweeps V (NewTTLEnforcer iv gr) shared_ops ops s1"
    and "Manager_Acquire V shared_ops clk' key h' ttl'
           (run_server V (NewTTLEnforcer iv gr) shared_ops ops s1) = (Inr res', s3)"
    and "ar_Acquired res'" and "h' \<noteq> h"
  shows "sint (ar_FencingToken res) < sint (ar_FencingToken res')"
proof -
  let ?s2 = "run_server V (NewTTLEnforcer iv gr) shared_ops ops s1"
  have s1: "shared_inv any_write s1"
    using sh.manager_acquire_guarantee [OF assms(1,2)] by simp
  have s2: "shared_inv any_write ?s2" "legal_steps any_write (sh_view s1) (sh_view ?s2)"
    using sh.run_server_guarantee [OF s1 _ assms(4)] by simp_all
  obtain r where r: "sh_view s1 key = Some r" "rec_Holder r = h" "rec_FencingToken r = ar_FencingToken res"
    using sh.manager_acquire_granted [OF assms(1-3)] acquired_as_record by fastforce
  obtain m now where m: "legal_steps any_write (sh_view ?s2) m" "acquired_as m (sh_view s3) key h' ttl' now res'"
    using sh.manager_acquire_granted [OF s2(1) assms(5,6)] by auto
  have steps: "legal_steps any_write (sh_view s1) m"
    using s2(2) m(1) by (rule rtranclp_trans)
  obtain c where c: "m key = Some c" "sint (rec_FencingToken r) \<le> sint (rec_FencingToken c)"
    using legal_steps_tokens [OF steps r(1)] by blast
  have "h' \<noteq> []"
    using Manager_Acquire_holder [OF assms(5)] by simp
  with acquired_as_token [OF m(2) c(1)] legal_steps_token_holder [OF steps r(1) c(1)] c(2) r assms(7)
  show ?thesis by (fastforce simp: order_le_less sint_eq_iff_eq)
qed

theorem acquire_fences_previous_holder_witness:
  "\<exists>res s1 res' s3.
     Manager_Acquire rfc1123 shared_ops (\<lambda>n. 5) key1 ''a'' 10 racing_shared = (Inr res, s1) \<and>
     Manager_Acquire rfc1123 shared_ops (\<lambda>n. 1000) key1 ''b'' 10
       (run_server rfc1123 (NewTTLEnforcer 0 100) shared_ops [OpSweep 500] s1) = (Inr res', s3) \<and>
     sint (ar_FencingToken res) < sint (ar_FencingToken res')"
proof -
  have a: "Manager_Acquire rfc1123 shared_ops (\<lambda>n. 5) key1 ''a'' 10 racing_shared =
      (Inr \<lparr>ar_Acquired = True, ar_Holder = ''a'', ar_FencingToken = 2,
            ar_ExpiresAt = 15, ar_AcquiredAt = 5\<rparr>, one_lease ''a'' 10 5 5 2 3)"
    by code_simp
  have sweep: "run_server rfc1123 (NewTTLEnforcer 0 100) shared_ops [OpSweep 500]
      (one_lease ''a'' 10 5 5 2 3) = one_lease [] 0 5 500 2 4"
    by code_simp
  have b: "Manager_Acquire rfc1123 shared_ops (\<lambda>n. 1000) key1 ''b'' 10
      (run_server rfc1123 (NewTTLEnforcer 0 100) shared_ops [OpSweep 500] (one_lease ''a'' 10 5 5 2 3)) =
      (Inr \<lparr>ar_Acquired = True, ar_Holder = ''b'', ar_FencingToken = 3,
            ar_ExpiresAt = 1010, ar_AcquiredAt = 1000\<rparr>, one_lease ''b'' 10 1000 1000 3 5)"
    unfolding sweep by code_simp
  show ?thesis
    using acquire_fences_previous_holder [OF shared_inv_samples(2) a _ small_one b] a b by auto
qed

text \<open>
  C2. Exclusion until expiry.  After a grant to \<open>h\<close>, take any instant \<open>E\<close> up to the expiry the
  grant reported.  As long as clocks read at most \<open>E\<close>, \<open>h\<close> does not release the lease and does
  not renew it for a time that ends before \<open>E\<close>, the lease stays with \<open>h\<close> under its token through
  every run of the server and every interference by its peers, and an \<open>Acquire\<close> by another
  holder in the same period is never granted.
\<close>

theorem lease_exclusive_until_expiry:
  assumes "shared_inv any_write s"
    and "Manager_Acquire V shared_ops clk key h ttl s = (Inr res, s1)" and "ar_Acquired res"
    and "E \<le> ar_ExpiresAt res" and "turns_respect E key s1"
    and "small_sweeps V (NewTTLEnforcer iv gr) shared_ops ops s1"
    and "\<forall>op \<in> set ops. op_respects E key h (ar_FencingToken res) op"
  defines "s2 \<equiv> run_server V (NewTTLEnforcer iv gr) shared_ops ops s1"
  shows "holds_until E key h (ar_FencingToken res) (sh_view s2) \<and>
    (\<forall>clk' h' ttl' res' s3.
       Manager_Acquire V shared_ops clk' key h' ttl' s2 = (Inr res', s3) \<longrightarrow>
       (\<forall>i < maxAcquireAttempts. clk' i \<le> E) \<longrightarrow> h' \<noteq> h \<longrightarrow> \<not> ar_Acquired res')"
proof -
  let ?P = "hold_policy E key h (ar_FencingToken res)"
  have "h \<noteq> []"
    using Manager_Acquire_holder [OF assms(2)] by simp
  have "shared_inv any_write s1"
    using sh.manager_acquire_guarantee [OF assms(1,2)] by simp
  then have s1: "shared_inv ?P s1"
    using assms(5) by (rule turns_respect_inv)
  have init: "holds_until E key h (ar_FencingToken res) (sh_view s1)"
    using sh.manager_acquire_granted [OF assms(1-3)] acquired_as_record assms(4)
    by (fastforce simp: holds_until_def)
  have s2: "shared_inv ?P s2" "legal_steps ?P (sh_view s1) (sh_view s2)"
    using sh.run_server_guarantee [OF s1 _ assms(6)] assms(7)
    by (simp_all add: s2_def op_respects_allowed)
  have held: "holds_until E key h (ar_FencingToken res) (sh_view s2)"
    using legal_steps_holds [OF s2(2) init \<open>h \<noteq> []\<close>] .
  have "\<not> ar_Acquired res'"
    if acq: "Manager_Acquire V shared_ops clk' key h' ttl' s2 = (Inr res', s3)"
      and clk': "\<forall>i < maxAcquireAttempts. clk' i \<le> E" and "h' \<noteq> h" for clk' h' ttl' res' s3
  proof
    assume "ar_Acquired res'"
    moreover have "\<forall>i < maxAcquireAttempts. grants_allowed ?P (clk' i) key h' ttl'"
      using clk' \<open>h' \<noteq> h\<close> by (auto simp: grants_allowed_def hold_policy_def)
    ultimately obtain m i where "i < maxAcquireAttempts" "legal_steps ?P (sh_view s2) m"
      "acquired_as m (sh_view s3) key h' ttl' (clk' i) res'"
      using sh.manager_acquire_granted [OF s2(1) acq] by blast
    with legal_steps_holds [OF _ held \<open>h \<noteq> []\<close>] holds_until_not_granted clk' \<open>h \<noteq> []\<close> \<open>h' \<noteq> h\<close>
    show False by blast
  qed
  with held show ?thesis by blast
qed

text \<open>A store whose peers renew and try to reclaim the lease of \<open>''a''\<close> while it is held.\<close>

definition contended_shared :: shared where
  "contended_shared =
     \<lparr>sh_mem = NewMemStore,
      sh_turns =
        [\<lparr>t_ctx = None, t_order = [], t_peers = []\<rparr>,
         \<lparr>t_ctx = None, t_order = [], t_peers = []\<rparr>,
         \<lparr>t_ctx = None, t_order = [],
          t_peers = [PeerWrite Renewed 8 key1 [] 10, PeerWrite Reclaimed 12 key1 ''peer'' 10]\<rparr>]\<rparr>"

definition contended_turns :: "turn list" where
  "contended_turns = drop 2 (sh_turns contended_shared)"

theorem lease_exclusive_until_expiry_witness:
  "holds_until 15 key1 ''a'' 1
     (sh_view (run_server rfc1123 (NewTTLEnforcer 0 100) shared_ops
        [OpSweep 9, OpRelease 9 key1 ''b'' 1]
        ((one_lease ''a'' 10 5 5 1 1)\<lparr>sh_turns := contended_turns\<rparr>)))"
proof -
  have inv: "shared_inv any_write contended_shared"
    by (simp add: shared_inv_def contended_shared_def turn_ok_def ctx_ok_def)
  have a: "Manager_Acquire rfc1123 shared_ops (\<lambda>n. 5) key1 ''a'' 10 contended_shared =
      (Inr \<lparr>ar_Acquired = True, ar_Holder = ''a'', ar_FencingToken = 1,
            ar_ExpiresAt = 15, ar_AcquiredAt = 5\<rparr>,
       (one_lease ''a'' 10 5 5 1 1)\<lparr>sh_turns := contended_turns\<rparr>)"
    by code_simp
  have turns: "turns_respect 15 key1 ((one_lease ''a'' 10 5 5 1 1)\<lparr>sh_turns := contended_turns\<rparr>)"
    by code_simp
  have small: "small_sweeps rfc1123 (NewTTLEnforcer 0 100) shared_ops
      [OpSweep 9, OpRelease 9 key1 ''b'' 1] ((one_lease ''a'' 10 5 5 1 1)\<lparr>sh_turns := contended_turns\<rparr>)"
    by (simp add: one_lease_def shared_ops_sel on_mem_def MemStore_List_def interfere_def sh_turn_def
        contended_turns_def contended_shared_def peer_apply_def split: option.splits)
  show ?thesis
    using lease_exclusive_until_expiry [OF inv a _ _ turns small] by simp
qed

text \<open>
  C3. Fencing state is never lost.  Every run of the server keeps the representation invariant,
  keeps a record for every key that has one (releases and sweeps never delete), and never
  decreases the token of a key.
\<close>

theorem run_server_keeps_tokens:
  assumes "shared_inv any_write s" and "small_sweeps V (NewTTLEnforcer iv gr) shared_ops ops s"
    and "sh_view s key = Some c"
  defines "s' \<equiv> run_server V (NewTTLEnforcer iv gr) shared_ops ops s"
  shows "shared_inv any_write s' \<and>
    (\<exists>c'. sh_view s' key = Some c' \<and> sint (rec_FencingToken c) \<le> sint (rec_FencingToken c'))"
  using sh.run_server_guarantee [OF assms(1) _ assms(2)] legal_steps_tokens [where m = "sh_view s", OF _ assms(3)]
  unfolding s'_def by (auto simp del: run_server.simps)

theorem run_server_keeps_tokens_witness:
  "\<exists>c'. sh_view (run_server rfc1123 (NewTTLEnforcer 0 0) shared_ops [OpSweep (10 ^ 12)]
          (one_lease ''a'' 10 5 5 7 3)) key1 = Some c' \<and> 7 \<le> sint (rec_FencingToken c')"
proof -
  have "sh_view (one_lease ''a'' 10 5 5 7 3) key1 = Some \<lparr>rec_Key = key1, rec_Holder = ''a'',
      rec_TTL = 10, rec_AcquiredAt = 5, rec_RenewedAt = 5, rec_FencingToken = 7, rec_Version = 3\<rparr>"
    by (simp add: one_lease_def)
  from run_server_keeps_tokens [OF shared_inv_samples(3) small_one this] show ?thesis by simp
qed

text \<open>
  C4. What a grant is.  When \<open>Acquire\<close> reports success then, whatever the peers did, the store
  went through legal writes to some view, the decision of the switch was taken on the record of
  that very view, the call replaced that record by one legal grant to the caller with the
  requested time to live, no other key changed in that write, and the result reports exactly
  the stored holder, token, acquisition time and expiry.
\<close>

theorem acquire_granted_is_one_legal_write:
  assumes "shared_inv any_write s"
    and "Manager_Acquire V shared_ops clk key h ttl s = (Inr res, s')" and "ar_Acquired res"
  shows "\<exists>m i. i < maxAcquireAttempts \<and> legal_steps any_write (sh_view s) m \<and>
    acquired_as m (sh_view s') key h ttl (clk i) res"
  using sh.manager_acquire_granted [OF assms] by simp

theorem acquire_granted_is_one_legal_write_witness:
  "\<exists>m i. i < maxAcquireAttempts \<and> legal_steps any_write (sh_view racing_shared) m \<and>
    acquired_as m (sh_view (one_lease ''a'' 10 5 5 2 3)) key1 ''a'' 10 5
      \<lparr>ar_Acquired = True, ar_Holder = ''a'', ar_FencingToken = 2, ar_ExpiresAt = 15, ar_AcquiredAt = 5\<rparr>"
proof -
  have a: "Manager_Acquire rfc1123 shared_ops (\<lambda>n. 5) key1 ''a'' 10 racing_shared =
      (Inr \<lparr>ar_Acquired = True, ar_Holder = ''a'', ar_FencingToken = 2,
            ar_ExpiresAt = 15, ar_AcquiredAt = 5\<rparr>, one_lease ''a'' 10 5 5 2 3)"
    by code_simp
  from acquire_granted_is_one_legal_write [OF shared_inv_samples(2) a] show ?thesis by simp
qed

text \<open>
  C5. What a refusal is.  When \<open>Acquire\<close> reports without error that the lease was not acquired,
  the record stored at that point belongs to another holder and is not expired at the clock reading
  of the attempt; the result names that holder, its fencing token, the instant at which its time to
  live runs out and the instant at which it acquired the lease.
\<close>

theorem acquire_refused_reports_live_holder:
  assumes "shared_inv any_write s"
    and "Manager_Acquire V shared_ops clk key h ttl s = (Inr res, s')" and "\<not> ar_Acquired res"
  shows "\<exists>i c. i < maxAcquireAttempts \<and> sh_view s' key = Some c \<and> rec_Holder c \<noteq> h \<and>
    rec_Holder c \<noteq> [] \<and> clk i \<le> rec_RenewedAt c + rec_TTL c \<and>
    ar_Holder res = rec_Holder c \<and> ar_FencingToken res = rec_FencingToken c \<and>
    ar_ExpiresAt res = rec_RenewedAt c + rec_TTL c \<and> ar_AcquiredAt res = rec_AcquiredAt c"
  using sh.manager_acquire_denied [OF assms]
  by (fastforce simp: lease_defs time_After_def time_Add_def not_acquired_def)

theorem acquire_refused_reports_live_holder_witness:
  "\<exists>c. sh_view (one_lease ''a'' 10 5 5 2 3) key1 = Some c \<and> rec_Holder c = ''a'' \<and>
     rec_FencingToken c = 2 \<and> rec_RenewedAt c + rec_TTL c = 15 \<and> rec_AcquiredAt c = 5"
proof -
  have a: "Manager_Acquire rfc1123 shared_ops (\<lambda>n. 15) key1 ''b'' 10 (one_lease ''a'' 10 5 5 2 3) =
      (Inr \<lparr>ar_Acquired = False, ar_Holder = ''a'', ar_FencingToken = 2,
            ar_ExpiresAt = 15, ar_AcquiredAt = 5\<rparr>, one_lease ''a'' 10 5 5 2 3)"
    by code_simp
  from acquire_refused_reports_live_holder [OF shared_inv_samples(3) a] show ?thesis by auto
qed

text \<open>
  C6. A renewal never overwrites a reclaim.  When \<open>Renew\<close> reports success, the record it
  replaced, in the view at the instant of its write, still belonged to the caller under the
  caller's token and had not expired at the clock reading; only the renewal time, the time to
  live and the version changed, and the reported expiry is the clock reading plus the ttl.
\<close>

theorem renew_never_overwrites_reclaim:
  assumes "shared_inv any_write s"
    and "Manager_Renew V shared_ops now key h token ttl s = (Inr res, s')" and "ar_Acquired res"
  shows "\<exists>m c. legal_steps any_write (sh_view s) m \<and> m key = Some c \<and> rec_Holder c = h \<and>
    rec_FencingToken c = token \<and> now \<le> ExpiresAt c \<and>
    sh_view s' = m(key \<mapsto> c\<lparr>rec_RenewedAt := now, rec_TTL := ttl, rec_Version := rec_Version c + 1\<rparr>) \<and>
    res = \<lparr>ar_Acquired = True, ar_Holder = h, ar_FencingToken = token,
           ar_ExpiresAt = now + ttl, ar_AcquiredAt = rec_AcquiredAt c\<rparr>"
  using sh.manager_renew_granted [OF assms]
  by (fastforce simp: Expired_def time_After_def time_Add_def)

theorem renew_never_overwrites_reclaim_witness:
  "\<exists>m c. m key1 = Some c \<and> rec_Holder c = ''a'' \<and> rec_FencingToken c = 2 \<and> 9 \<le> ExpiresAt c \<and>
    sh_view (one_lease ''a'' 20 5 9 2 4) =
      m(key1 \<mapsto> c\<lparr>rec_RenewedAt := 9, rec_TTL := 20, rec_Version := rec_Version c + 1\<rparr>)"
proof -
  have a: "Manager_Renew rfc1123 shared_ops 9 key1 ''a'' 2 20 (one_lease ''a'' 10 5 5 2 3) =
      (Inr \<lparr>ar_Acquired = True, ar_Holder = ''a'', ar_FencingToken = 2,
            ar_ExpiresAt = 29, ar_AcquiredAt = 5\<rparr>, one_lease ''a'' 20 5 9 2 4)"
    by code_simp
  from renew_never_overwrites_reclaim [OF shared_inv_samples(3) a] show ?thesis by auto
qed

end
