(* ===== verification/Lease_Spec.thy ===== *)
theory Lease_Spec
  imports Lease_Fencing
begin

text \<open>
  The abstract lease and the refinement of the manager over the in-memory store.  A key is
  \<open>Never\<close> leased, \<open>Free\<close> with the token of its last holder, or \<open>Held\<close>; acquiring, renewing,
  releasing and sweeping are one atomic step each.  The section on the collector shows that
  one sweep is the pointwise map of that step over all keys, in whatever order the store
  lists them.
\<close>

section \<open>The abstract lease\<close>

datatype lease_status =
    Never
  | Free int32 time time
  | Held string int32 time time

fun abs_lease :: "lease_record option \<Rightarrow> lease_status" where
  "abs_lease None = Never"
| "abs_lease (Some r) =
     (if Tombstone r then Free (rec_FencingToken r) (rec_AcquiredAt r) (ExpiresAt r)
      else Held (rec_Holder r) (rec_FencingToken r) (rec_AcquiredAt r) (ExpiresAt r))"

definition abs_view :: "view \<Rightarrow> Key \<Rightarrow> lease_status" where
  "abs_view m k = abs_lease (m k)"

datatype verdict =
    Granted string int32 time time
  | Denied string int32 time time
  | Refused
  | Absent

fun spec_claim :: "string \<Rightarrow> duration \<Rightarrow> time \<Rightarrow> int32 \<Rightarrow> lease_status \<Rightarrow> verdict \<times> lease_status" where
  "spec_claim h ttl now t st =
     (if t = MaxInt32 then (Refused, st)
      else (Granted h (t + 1) now (now + ttl), Held h (t + 1) now (now + ttl)))"

fun spec_acquire :: "string \<Rightarrow> duration \<Rightarrow> time \<Rightarrow> lease_status \<Rightarrow> verdict \<times> lease_status" where
  "spec_acquire h ttl now Never = (Granted h 1 now (now + ttl), Held h 1 now (now + ttl))"
| "spec_acquire h ttl now (Free t a x) = spec_claim h ttl now t (Free t a x)"
| "spec_acquire h ttl now (Held g t a x) =
     (if x < now then spec_claim h ttl now t (Held g t a x)
      else if g = h then (Granted h t a (now + ttl), Held h t a (now + ttl))
      else (Denied g t a x, Held g t a x))"

fun spec_renew :: "string \<Rightarrow> int32 \<Rightarrow> duration \<Rightarrow> time \<Rightarrow> lease_status \<Rightarrow> verdict \<times> lease_status" where
  "spec_renew h tok ttl now Never = (Absent, Never)"
| "spec_renew h tok ttl now (Free t a x) = (Denied [] t a x, Free t a x)"
| "spec_renew h tok ttl now (Held g t a x) =
     (if g = h \<and> t = tok \<and> now \<le> x then (Granted h t a (now + ttl), Held h t a (now + ttl))
      else (Denied g t a x, Held g t a x))"

fun spec_release :: "string \<Rightarrow> int32 \<Rightarrow> time \<Rightarrow> lease_status \<Rightarrow> goerr option \<times> lease_status" where
  "spec_release h tok now (Held g t a x) =
     (if g = h \<and> t = tok then (None, Free t a now) else (Some ErrConflict, Held g t a x))"
| "spec_release h tok now st = (None, st)"

fun spec_sweep :: "duration \<Rightarrow> time \<Rightarrow> lease_status \<Rightarrow> lease_status" where
  "spec_sweep grace now (Held g t a x) = (if x + grace \<le> now then Free t a now else Held g t a x)"
| "spec_sweep grace now st = st"

fun reply :: "verdict \<Rightarrow> AcquireResult outcome" where
  "reply (Granted h t a x) =
     Inr \<lparr>ar_Acquired = True, ar_Holder = h, ar_FencingToken = t, ar_ExpiresAt = x, ar_AcquiredAt = a\<rparr>"
| "reply (Denied h t a x) =
     Inr \<lparr>ar_Acquired = False, ar_Holder = h, ar_FencingToken = t, ar_ExpiresAt = x, ar_AcquiredAt = a\<rparr>"
| "reply Refused = Inl (ErrText ''acquire: fencing token exhausted at int32 ceiling'')"
| "reply Absent = Inr zero_AcquireResult"

section \<open>Refinement\<close>

text \<open>
  Version 0 asks the store for an absent record, so the steps below assume that no stored
  record has it; versions start at 1 and would have to wrap around to reach it.
\<close>

definition versioned :: "MemStore \<Rightarrow> bool" where
  "versioned s \<longleftrightarrow> (\<forall>k c. mem_view s k = Some c \<longrightarrow> rec_Version c \<noteq> 0)"

abbreviation memops :: "(lease_record list \<Rightarrow> lease_record list) \<Rightarrow> MemStore Store" where
  "memops perm \<equiv> MemStore_ops perm None"

lemma MemStore_Get_None [simp]:
  "MemStore_Get None s k = (case mem_view s k of None \<Rightarrow> Inl ErrNotFound | Some r \<Rightarrow> Inr r, s)"
  by (simp add: MemStore_Get_def split: option.splits)

definition mem_write :: "lease_record \<Rightarrow> int64 \<Rightarrow> MemStore \<Rightarrow> MemStore" where
  "mem_write r v s =
     s\<lparr>ms_records := AList.update (rec_Key r) (r\<lparr>rec_Version := v + 1\<rparr>) (ms_records s)\<rparr>"

lemma MemStore_Put_absent:
  "mem_view s (rec_Key r) = None \<Longrightarrow> MemStore_Put None s 0 (Some r) = (None, mem_write r 0 s)"
  by (simp add: MemStore_Put_def mem_write_def)

lemma MemStore_Put_stored:
  "mem_view s (rec_Key r) = Some c \<Longrightarrow> rec_Version c \<noteq> 0 \<Longrightarrow>
     MemStore_Put None s (rec_Version c) (Some r) = (None, mem_write r (rec_Version c) s)"
  by (simp add: MemStore_Put_def mem_write_def)

lemma mem_view_write:
  "mem_view (mem_write r v s) = (mem_view s)(rec_Key r \<mapsto> r\<lparr>rec_Version := v + 1\<rparr>)"
  by (simp add: mem_write_def update_conv')

lemma abs_view_write:
  "abs_view (mem_view (mem_write r v s)) =
     (abs_view (mem_view s))(rec_Key r := abs_lease (Some (r\<lparr>rec_Version := v + 1\<rparr>)))"
  by (auto simp: abs_view_def mem_view_write)

lemma fun_upd_same: "f k = x \<Longrightarrow> f(k := x) = f"
  by (rule fun_upd_idem)

lemma acquire_refines_step:
  assumes "versioned s" and "mem_inv s" and "h \<noteq> []"
    and "spec_acquire h ttl (clk n) (abs_view (mem_view s) key) = (v, st')"
  shows "\<exists>s'. acquire_loop (memops perm) clk key h ttl (Suc n) s = (reply v, s') \<and>
    abs_view (mem_view s') = (abs_view (mem_view s))(key := st')"
proof (cases "mem_view s key")
  case None
  with assms MemStore_Put_absent [of s "acquire_next key h ttl (clk n) 1 (clk n)"] show ?thesis
    by (auto simp: abs_view_def abs_view_write lease_defs time_Add_def Let_def)
next
  case (Some c)
  then have k: "rec_Key c = key" and v: "rec_Version c \<noteq> 0"
    using assms(1,2) by (auto simp: versioned_def mem_inv_def dest: keyedD)
  note put = MemStore_Put_stored [of s "acquire_next key h ttl _ _ (clk n)" c]
  note same = fun_upd_same [of "abs_view (mem_view s)" key]
  show ?thesis
    using assms(3,4) Some v
    by (auto simp: abs_view_def [of _ key] put abs_view_write lease_defs go_simps not_acquired_def Let_def
        split: if_splits intro!: same [symmetric])
qed

lemma renew_refines_step:
  assumes "versioned s" and "mem_inv s" and "h \<noteq> []"
    and "spec_renew h tok ttl now (abs_view (mem_view s) key) = (v, st')"
  shows "\<exists>s'. renew_stored (memops perm) now key h tok ttl s = (reply v, s') \<and>
    abs_view (mem_view s') = (abs_view (mem_view s))(key := st')"
proof (cases "mem_view s key")
  case None
  with assms show ?thesis
    by (auto simp: renew_stored_def abs_view_def intro!: ext)
next
  case (Some c)
  then have k: "rec_Key c = key" and v: "rec_Version c \<noteq> 0"
    using assms(1,2) by (auto simp: versioned_def mem_inv_def dest: keyedD)
  let ?r = "c\<lparr>rec_RenewedAt := now, rec_TTL := ttl\<rparr>"
  have put: "MemStore_Put None s (rec_Version c) (Some ?r) = (None, mem_write ?r (rec_Version c) s)"
    using MemStore_Put_stored [of s ?r c] Some k v by simp
  have wr: "abs_view (mem_view (mem_write ?r (rec_Version c) s)) =
      (abs_view (mem_view s))(key := abs_lease (Some (?r\<lparr>rec_Version := rec_Version c + 1\<rparr>)))"
    using abs_view_write [of ?r] k by simp
  note same = fun_upd_same [of "abs_view (mem_view s)" key]
  show ?thesis
    using assms(3,4) Some
    by (auto simp: renew_stored_def abs_view_def [of _ key] put wr lease_defs go_simps
        not_acquired_def Let_def split: if_splits intro!: same [symmetric])
qed

lemma release_refines_step:
  assumes "versioned s" and "mem_inv s" and "h \<noteq> []" and "ValidateKey V key = None"
    and "spec_release h tok now (abs_view (mem_view s) key) = (e, st')"
  shows "\<exists>s'. Manager_Release V (memops perm) now key h tok s = (e, s') \<and>
    abs_view (mem_view s') = (abs_view (mem_view s))(key := st')"
proof (cases "mem_view s key")
  case None
  with assms show ?thesis
    by (auto simp: Manager_Release_def abs_view_def intro!: ext)
next
  case (Some c)
  then have k: "rec_Key c = key" and v: "rec_Version c \<noteq> 0"
    using assms(1,2) by (auto simp: versioned_def mem_inv_def dest: keyedD)
  let ?r = "tombstoneFrom c now"
  have put: "MemStore_Put None s (rec_Version c) (Some ?r) = (None, mem_write ?r (rec_Version c) s)"
    using MemStore_Put_stored [of s ?r c] Some k v by simp
  have wr: "abs_view (mem_view (mem_write ?r (rec_Version c) s)) =
      (abs_view (mem_view s))(key := abs_lease (Some (?r\<lparr>rec_Version := rec_Version c + 1\<rparr>)))"
    using abs_view_write [of ?r] k by simp
  note same = fun_upd_same [of "abs_view (mem_view s)" key]
  show ?thesis
    using assms(3,4,5) Some
    by (auto simp: Manager_Release_def abs_view_def [of _ key] put wr lease_defs go_simps
        Let_def split: if_splits intro!: same [symmetric])
qed

section \<open>One sweep\<close>

definition swept_record :: "duration \<Rightarrow> time \<Rightarrow> lease_record \<Rightarrow> lease_record" where
  "swept_record grace now r =
     (if gc_skip grace now r then r
      else (tombstoneFrom r now)\<lparr>rec_Version := rec_Version r + 1\<rparr>)"

lemma collect_loop_mem:
  assumes "distinct (map rec_Key rs)" and "\<forall>r \<in> set rs. mem_view s (rec_Key r) = Some r"
    and "\<forall>r \<in> set rs. rec_Version r \<noteq> 0"
    and "collect_loop (memops perm) ctxdone grace now rs swept s = (n, s')"
  shows "n = swept + length (filter (\<lambda>r. \<not> gc_skip grace now r) rs) \<and>
    mem_view s' = (\<lambda>k. if k \<in> rec_Key ` set rs then map_option (swept_record grace now) (mem_view s k)
                       else mem_view s k)"
  using assms
proof (induction rs arbitrary: s swept)
  case Nil
  then show ?case by simp
next
  case (Cons r rs)
  show ?case
  proof (cases "gc_skip grace now r")
    case True
    have "n = swept + length (filter (\<lambda>r. \<not> gc_skip grace now r) rs)"
      and view: "mem_view s' = (\<lambda>k. if k \<in> rec_Key ` set rs
        then map_option (swept_record grace now) (mem_view s k) else mem_view s k)"
      using Cons.IH [of s swept] Cons.prems True by simp_all
    moreover have "mem_view s' k = (if k \<in> rec_Key ` set (r # rs)
        then map_option (swept_record grace now) (mem_view s k) else mem_view s k)" for k
      using True Cons.prems(2)
      by (cases "k = rec_Key r") (simp_all add: view swept_record_def)
    ultimately show ?thesis using True by (simp add: fun_eq_iff)
  next
    case False
    let ?s1 = "mem_write (tombstoneFrom r now) (rec_Version r) s"
    have "MemStore_Put None s (rec_Version r) (Some (tombstoneFrom r now)) = (None, ?s1)"
      using Cons.prems(2,3) by (intro MemStore_Put_stored) simp_all
    with Cons.prems(4) False have
      loop: "collect_loop (memops perm) ctxdone grace now rs (swept + 1) ?s1 = (n, s')"
      by simp
    have fresh: "rec_Key r \<notin> rec_Key ` set rs" and stored: "mem_view s (rec_Key r) = Some r"
      using Cons.prems(1,2) by simp_all
    have "mem_view ?s1 (rec_Key q) = Some q" if "q \<in> set rs" for q
    proof -
      have "rec_Key q \<noteq> rec_Key r" "mem_view s (rec_Key q) = Some q"
        using fresh that Cons.prems(2) by (metis imageI, simp)
      then show ?thesis by (simp add: mem_view_write)
    qed
    moreover have "distinct (map rec_Key rs)" "\<forall>q \<in> set rs. rec_Version q \<noteq> 0"
      using Cons.prems(1,3) by simp_all
    ultimately have
      n: "n = swept + 1 + length (filter (\<lambda>r. \<not> gc_skip grace now r) rs)"
      and view: "mem_view s' = (\<lambda>k. if k \<in> rec_Key ` set rs
        then map_option (swept_record grace now) (mem_view ?s1 k) else mem_view ?s1 k)"
      using Cons.IH [OF _ _ _ loop] by blast+
    have "mem_view s' k = (if k \<in> rec_Key ` set (r # rs)
        then map_option (swept_record grace now) (mem_view s k) else mem_view s k)" for k
      using False fresh stored
      by (cases "k = rec_Key r") (simp_all add: view mem_view_write swept_record_def)
    with n False show ?thesis by (simp add: fun_eq_iff)
  qed
qed

lemma abs_swept:
  "abs_lease (map_option (swept_record grace now) x) = spec_sweep grace now (abs_lease x)"
  by (cases x) (auto simp: swept_record_def gc_skip_def lease_defs go_simps)

lemma records_distinct_keys:
  assumes "mem_inv s"
  shows "distinct (map rec_Key (map snd (ms_records s)))"
proof -
  have "rec_Key r = k" if "(k, r) \<in> set (ms_records s)" for k r
    using assms that by (auto simp: mem_inv_def intro: keyedD)
  then have eq: "map (rec_Key \<circ> snd) (ms_records s) = map fst (ms_records s)"
    by (auto intro!: map_cong)
  show ?thesis
    unfolding map_map eq using assms by (simp add: mem_inv_def)
qed

lemma distinct_perm: "perm_ok perm \<Longrightarrow> distinct (map f (perm xs)) = distinct (map f xs)"
  by (rule mset_eq_imp_distinct_iff) (simp add: perm_ok_def)

section \<open>Properties\<close>

text \<open>
  C7. Over the in-memory store without interference, \<open>Acquire\<close> with valid arguments is the
  atomic step of the abstract lease: its answer is the specified verdict (grant with the same
  token on a renewal and with the next token on a claim, refusal at the token ceiling, denial by
  the live holder), the key moves to the specified status and no other key changes.
\<close>

theorem acquire_refines_spec:
  assumes "versioned s" and "mem_inv s"
    and "ValidateKey V key = None" and "ValidateHolder h = None" and "0 < ttl"
    and "spec_acquire h ttl (clk 7) (abs_view (mem_view s) key) = (v, st')"
  shows "\<exists>s'. Manager_Acquire V (MemStore_ops perm None) clk key h ttl s = (reply v, s') \<and>
    abs_view (mem_view s') = (abs_view (mem_view s))(key := st')"
proof -
  have "h \<noteq> []"
    using assms(4) by (simp add: ValidateHolder_None)
  have attempts: "maxAcquireAttempts = Suc 7"
    by (simp add: maxAcquireAttempts_def)
  from acquire_refines_step [where clk = clk and n = 7, OF assms(1,2) \<open>h \<noteq> []\<close> assms(6)] obtain s' where
    "acquire_loop (MemStore_ops perm None) clk key h ttl (Suc 7) s = (reply v, s')"
    "abs_view (mem_view s') = (abs_view (mem_view s))(key := st')"
    by blast
  with assms(3-5) show ?thesis
    unfolding Manager_Acquire_def attempts by (simp del: acquire_loop.simps)
qed

lemma versioned_samples [simp]:
  "versioned NewMemStore" "v \<noteq> 0 \<Longrightarrow> versioned (sh_mem (one_lease h ttl acq ren tok v))"
  "mem_inv (sh_mem (one_lease h ttl acq ren tok v))"
  by (simp_all add: versioned_def NewMemStore_def one_lease_def mem_inv_def keyed_def)

lemma ValidateKey_key1 [simp]: "ValidateKey rfc1123 key1 = None"
  by code_simp

theorem acquire_refines_spec_witness:
  "\<exists>s'. Manager_Acquire rfc1123 (MemStore_ops rev None) (\<lambda>n. 20) key1 ''b'' 10
          (sh_mem (one_lease ''a'' 10 5 5 2147483646 9)) = (reply (Granted ''b'' MaxInt32 20 30), s') \<and>
        abs_view (mem_view s') key1 = Held ''b'' MaxInt32 20 30"
proof -
  have "spec_acquire ''b'' 10 20 (abs_view (mem_view (sh_mem (one_lease ''a'' 10 5 5 2147483646 9))) key1) =
      (Granted ''b'' MaxInt32 20 30, Held ''b'' MaxInt32 20 30)"
    by code_simp
  moreover have "ValidateHolder ''b'' = None" by code_simp
  ultimately show ?thesis
    using acquire_refines_spec [of "sh_mem (one_lease ''a'' 10 5 5 2147483646 9)" rfc1123 key1 "''b''" 10
        "\<lambda>n. 20" "Granted ''b'' MaxInt32 20 30" "Held ''b'' MaxInt32 20 30" rev]
    by auto
qed

text \<open>
  C8. \<open>Renew\<close> with valid arguments is the atomic step of the abstract lease: it extends exactly
  when the caller is the holder, the token matches and the lease has not expired; otherwise it
  reports the record that is there and changes nothing.
\<close>

theorem renew_refines_spec:
  assumes "versioned s" and "mem_inv s"
    and "ValidateKey V key = None" and "ValidateHolder h = None" and "0 < sint tok" and "0 < ttl"
    and "spec_renew h tok ttl now (abs_view (mem_view s) key) = (v, st')"
  shows "\<exists>s'. Manager_Renew V (MemStore_ops perm None) now key h tok ttl s = (reply v, s') \<and>
    abs_view (mem_view s') = (abs_view (mem_view s))(key := st')"
proof -
  have "h \<noteq> []"
    using assms(4) by (simp add: ValidateHolder_None)
  from renew_refines_step [OF assms(1,2) this assms(7)] assms(3-6) show ?thesis
    by (simp add: Manager_Renew_def)
qed

theorem renew_refines_spec_witness:
  "\<exists>s'. Manager_Renew rfc1123 (MemStore_ops rev None) 15 key1 ''a'' 2 30
          (sh_mem (one_lease ''a'' 10 5 5 2 9)) = (reply (Granted ''a'' 2 5 45), s') \<and>
        abs_view (mem_view s') key1 = Held ''a'' 2 5 45"
proof -
  have "spec_renew ''a'' 2 30 15 (abs_view (mem_view (sh_mem (one_lease ''a'' 10 5 5 2 9))) key1) =
      (Granted ''a'' 2 5 45, Held ''a'' 2 5 45)"
    by code_simp
  moreover have "ValidateHolder ''a'' = None" by code_simp
  ultimately show ?thesis
    using renew_refines_spec [of "sh_mem (one_lease ''a'' 10 5 5 2 9)" rfc1123 key1 "''a''" 2 30 15
        "Granted ''a'' 2 5 45" "Held ''a'' 2 5 45" rev]
    by auto
qed

text \<open>
  C9. \<open>Release\<close> with a valid key and a holder is the atomic step of the abstract lease: the
  holder's own release frees the key and keeps the token, releasing a free or never leased key
  succeeds and changes nothing, and releasing somebody else's lease is a conflict and changes
  nothing.
\<close>

theorem release_refines_spec:
  assumes "versioned s" and "mem_inv s" and "h \<noteq> []" and "ValidateKey V key = None"
    and "spec_release h tok now (abs_view (mem_view s) key) = (e, st')"
  shows "\<exists>s'. Manager_Release V (MemStore_ops perm None) now key h tok s = (e, s') \<and>
    abs_view (mem_view s') = (abs_view (mem_view s))(key := st')"
  by (rule release_refines_step [OF assms])

theorem release_refines_spec_witness:
  "\<exists>s'. Manager_Release rfc1123 (MemStore_ops rev None) 15 key1 ''a'' 2
          (sh_mem (one_lease ''a'' 10 5 5 2 9)) = (None, s') \<and>
        abs_view (mem_view s') key1 = Free 2 5 15"
proof -
  have "spec_release ''a'' 2 15 (abs_view (mem_view (sh_mem (one_lease ''a'' 10 5 5 2 9))) key1) =
      (None, Free 2 5 15)"
    by code_simp
  then show ?thesis
    using release_refines_spec [of "sh_mem (one_lease ''a'' 10 5 5 2 9)" "''a''" rfc1123 key1 2 15
        None "Free 2 5 15" rev]
    by auto
qed

text \<open>
  C10. One sweep is the pointwise sweep of every key, for every order in which the store lists
  its records: a lease is freed, its token kept, exactly when it expired at least the grace
  period ago; every other key keeps its status; and the reported count is the number of leases
  freed.
\<close>

theorem collect_is_pointwise_sweep:
  assumes "mem_inv s" and "versioned s" and "perm_ok perm"
    and "collect (MemStore_ops perm None) ctxdone e now s = (n, s')"
  shows "abs_view (mem_view s') = spec_sweep (gc_grace e) now \<circ> abs_view (mem_view s) \<and>
    n = length (filter (\<lambda>r. \<not> gc_skip (gc_grace e) now r) (map snd (ms_records s)))"
proof -
  let ?rs = "perm (map snd (ms_records s))"
  have loop: "collect_loop (memops perm) ctxdone (gc_grace e) now ?rs 0 s = (n, s')"
    using assms(4) by (simp add: collect_def MemStore_List_def)
  have set: "set ?rs = snd ` set (ms_records s)"
    using perm_okD [OF assms(3)] by simp
  have stored: "mem_view s (rec_Key r) = Some r" if "r \<in> set ?rs" for r
    using that assms(1) set by (auto simp: mem_inv_def dest: keyedD)
  then have "\<forall>r \<in> set ?rs. rec_Version r \<noteq> 0"
    using assms(2) by (auto simp: versioned_def)
  moreover have "distinct (map rec_Key ?rs)"
    using distinct_perm [OF assms(3), of rec_Key] records_distinct_keys [OF assms(1)] by simp
  ultimately have n: "n = length (filter (\<lambda>r. \<not> gc_skip (gc_grace e) now r) ?rs)"
    and view: "mem_view s' = (\<lambda>k. if k \<in> rec_Key ` set ?rs
      then map_option (swept_record (gc_grace e) now) (mem_view s k) else mem_view s k)"
    using collect_loop_mem [OF _ _ _ loop] stored by auto
  have "mem_view s' k = map_option (swept_record (gc_grace e) now) (mem_view s k)" for k
  proof (cases "mem_view s k")
    case (Some r)
    then have "r \<in> set ?rs" "rec_Key r = k"
      using set assms(1) by (auto simp: mem_inv_def dest: keyedD intro: image_eqI [OF _ map_of_SomeD])
    with view show ?thesis by auto
  qed (simp add: view)
  moreover have "length (filter (\<lambda>r. \<not> gc_skip (gc_grace e) now r) ?rs) =
      length (filter (\<lambda>r. \<not> gc_skip (gc_grace e) now r) (map snd (ms_records s)))"
    by (rule mset_eq_length) (use assms(3) in \<open>simp only: mset_filter perm_ok_def\<close>)
  ultimately show ?thesis
    using n by (auto simp: abs_view_def abs_swept fun_eq_iff)
qed

theorem collect_is_pointwise_sweep_witness:
  "abs_view (mem_view (snd (collect (MemStore_ops rev None) (\<lambda>n. False) (NewTTLEnforcer 0 100) 200
     (sh_mem (one_lease ''a'' 10 5 5 2 9))))) key1 = Free 2 5 200"
proof -
  have "perm_ok rev" by (simp add: perm_ok_def)
  moreover obtain n s' where c: "collect (MemStore_ops rev None) (\<lambda>n. False) (NewTTLEnforcer 0 100) 200
      (sh_mem (one_lease ''a'' 10 5 5 2 9)) = (n, s')"
    by fastforce
  ultimately have "abs_view (mem_view s') = spec_sweep 100 200 \<circ>
      abs_view (mem_view (sh_mem (one_lease ''a'' 10 5 5 2 9)))"
    using collect_is_pointwise_sweep [OF _ _ _ c] by (simp add: NewTTLEnforcer_def)
  moreover have "spec_sweep 100 200
      (abs_view (mem_view (sh_mem (one_lease ''a'' 10 5 5 2 9))) key1) = Free 2 5 200"
    by code_simp
  ultimately show ?thesis by (simp add: c)
qed



end
