(* ===== verification/K8s_Store.thy ===== *)
theory K8s_Store
  imports Lease_Manager
begin

text \<open>
  The Kubernetes backend (\<open>internal/lease/k8sstore.go\<close>): records as \<open>coordination.k8s.io/v1\<close>
  Lease objects, with the version in an annotation and the fencing token in
  \<open>spec.leaseTransitions\<close>.

  The API server and its client are not part of the repository.  They are the fields of
  \<open>lease_api\<close>, a parameter of the operations; the locale \<open>k8s_lease_api\<close> states the
  documented behaviour the store relies on: reads return the current object, a create fails
  when the name exists, an update succeeds only against the current resource version, every
  write draws a fresh resource version, and times travel with microsecond precision.  A small
  reference server with interfering writers interprets it.
\<close>

section \<open>Lease objects\<close>

record lease_obj =
  lo_Name :: string
  lo_Namespace :: string
  lo_Labels :: "(string \<times> string) list"
  lo_Annotations :: "(string \<times> string) list"
  lo_ResourceVersion :: string
  lo_HolderIdentity :: "string option"
  lo_LeaseDurationSeconds :: "int32 option"
  lo_AcquireTime :: "time option"
  lo_RenewTime :: "time option"
  lo_LeaseTransitions :: "int32 option"

definition managedByLabel :: string where
  "managedByLabel = ''berth.skaphos.io/managed-by''"

definition managedByValue :: string where
  "managedByValue = ''berth''"

definition tenantNamespaceAnnotation :: string where
  "tenantNamespaceAnnotation = ''berth.skaphos.io/tenant-namespace''"

definition leaseNameAnnotation :: string where
  "leaseNameAnnotation = ''berth.skaphos.io/lease-name''"

definition versionAnnotation :: string where
  "versionAnnotation = ''berth.skaphos.io/version''"

definition k8sLeaseName :: "Key \<Rightarrow> string" where
  "k8sLeaseName key = key_Namespace key @ ''.'' @ key_Name key"

definition versionFromLease :: "lease_obj \<Rightarrow> int64" where
  "versionFromLease l =
     (case ParseInt 64 (case map_of (lo_Annotations l) versionAnnotation of None \<Rightarrow> [] | Some s \<Rightarrow> s) of
        None \<Rightarrow> 1
      | Some v \<Rightarrow> if v < 1 then 1 else word_of_int v)"

definition recordFromLease :: "lease_obj \<Rightarrow> lease_record outcome" where
  "recordFromLease l =
     (case map_of (lo_Annotations l) tenantNamespaceAnnotation of
        None \<Rightarrow> Inl (ErrText ''lease: missing annotation berth.skaphos.io/tenant-namespace'')
      | Some tenant \<Rightarrow>
          (case map_of (lo_Annotations l) leaseNameAnnotation of
             None \<Rightarrow> Inl (ErrText ''lease: missing annotation berth.skaphos.io/lease-name'')
           | Some name \<Rightarrow>
               Inr \<lparr>rec_Key = \<lparr>key_Namespace = tenant, key_Name = name\<rparr>,
                    rec_Holder = (case lo_HolderIdentity l of None \<Rightarrow> [] | Some h \<Rightarrow> h),
                    rec_TTL = (case lo_LeaseDurationSeconds l of None \<Rightarrow> 0 | Some d \<Rightarrow> seconds (sint d)),
                    rec_AcquiredAt = (case lo_AcquireTime l of None \<Rightarrow> zero_time | Some t \<Rightarrow> t),
                    rec_RenewedAt = (case lo_RenewTime l of None \<Rightarrow> zero_time | Some t \<Rightarrow> t),
                    rec_FencingToken = (case lo_LeaseTransitions l of None \<Rightarrow> 0 | Some t \<Rightarrow> t),
                    rec_Version = versionFromLease l\<rparr>))"

text \<open>\<open>int32(rec.TTL / time.Second)\<close>: the division truncates toward zero, the conversion wraps.\<close>

definition leaseDuration :: "lease_record \<Rightarrow> int32 option" where
  "leaseDuration r =
     (if Tombstone r \<and> rec_TTL r = 0 then None
      else Some (word_of_int (rec_TTL r sdiv second)))"

definition leaseFromRecord :: "lease_record \<Rightarrow> string \<Rightarrow> int64 \<Rightarrow> lease_obj" where
  "leaseFromRecord r namespace version =
     \<lparr>lo_Name = k8sLeaseName (rec_Key r), lo_Namespace = namespace,
      lo_Labels = [(managedByLabel, managedByValue)],
      lo_Annotations =
        [(tenantNamespaceAnnotation, key_Namespace (rec_Key r)),
         (leaseNameAnnotation, key_Name (rec_Key r)),
         (versionAnnotation, FormatInt (sint version))],
      lo_ResourceVersion = [],
      lo_HolderIdentity = Some (rec_Holder r),
      lo_LeaseDurationSeconds = leaseDuration r,
      lo_AcquireTime = Some (rec_AcquiredAt r),
      lo_RenewTime = Some (rec_RenewedAt r),
      lo_LeaseTransitions = Some (rec_FencingToken r)\<rparr>"

definition applyRecordToLease :: "lease_obj \<Rightarrow> lease_record \<Rightarrow> int64 \<Rightarrow> lease_obj" where
  "applyRecordToLease l r version =
     l\<lparr>lo_HolderIdentity := Some (rec_Holder r),
       lo_LeaseDurationSeconds := leaseDuration r,
       lo_AcquireTime := Some (rec_AcquiredAt r),
       lo_RenewTime := Some (rec_RenewedAt r),
       lo_LeaseTransitions := Some (rec_FencingToken r),
       lo_Annotations :=
         AList.update versionAnnotation (FormatInt (sint version))
           (AList.update leaseNameAnnotation (key_Name (rec_Key r))
             (AList.update tenantNamespaceAnnotation (key_Namespace (rec_Key r)) (lo_Annotations l))),
       lo_Labels := AList.update managedByLabel managedByValue (lo_Labels l)\<rparr>"

section \<open>The store\<close>

datatype api_err =
    ApiNotFound
  | ApiAlreadyExists
  | ApiConflict
  | ApiOther goerr

fun api_goerr :: "api_err \<Rightarrow> goerr" where
  "api_goerr ApiNotFound = ErrText ''not found''"
| "api_goerr ApiAlreadyExists = ErrText ''already exists''"
| "api_goerr ApiConflict = ErrText ''the object has been modified''"
| "api_goerr (ApiOther e) = e"

text \<open>The client, bound to the namespace and the context; a listing has an optional label selector.\<close>

record 'a lease_api =
  la_Get :: "'a \<Rightarrow> string \<Rightarrow> (api_err + lease_obj) \<times> 'a"
  la_List :: "'a \<Rightarrow> (string \<times> string) option \<Rightarrow> (api_err + lease_obj list) \<times> 'a"
  la_Create :: "'a \<Rightarrow> lease_obj \<Rightarrow> api_err option \<times> 'a"
  la_Update :: "'a \<Rightarrow> lease_obj \<Rightarrow> api_err option \<times> 'a"

definition NewK8sLeaseStore :: "'c option \<Rightarrow> string \<Rightarrow> ('c \<times> string) outcome" where
  "NewK8sLeaseStore client namespace =
     (case client of
        None \<Rightarrow> Inl (ErrText ''k8s lease store: client is required'')
      | Some c \<Rightarrow>
          if namespace = [] then Inl (ErrText ''k8s lease store: namespace is required'')
          else Inr (c, namespace))"

definition K8s_Ping :: "'a lease_api \<Rightarrow> 'a \<Rightarrow> goerr option" where
  "K8s_Ping api a =
     (case fst (la_List api a None) of
        Inl err \<Rightarrow> Some (ErrWrap ''k8s lease store: ping: '' (api_goerr err))
      | Inr ls \<Rightarrow> None)"

definition K8s_Get :: "'a lease_api \<Rightarrow> 'a \<Rightarrow> Key \<Rightarrow> lease_record outcome \<times> 'a" where
  "K8s_Get api a key =
     (let (x, a') = la_Get api a (k8sLeaseName key) in
      case x of
        Inl err \<Rightarrow>
          if err = ApiNotFound then (Inl ErrNotFound, a')
          else (Inl (ErrWrap ''k8s lease store: get: '' (api_goerr err)), a')
      | Inr l \<Rightarrow> (recordFromLease l, a'))"

definition K8s_List :: "'a lease_api \<Rightarrow> 'a \<Rightarrow> lease_record list outcome \<times> 'a" where
  "K8s_List api a =
     (let (x, a') = la_List api a (Some (managedByLabel, managedByValue)) in
      case x of
        Inl err \<Rightarrow> (Inl (ErrWrap ''k8s lease store: list: '' (api_goerr err)), a')
      | Inr ls \<Rightarrow>
          (Inr (concat (map (\<lambda>l. case recordFromLease l of Inl e \<Rightarrow> [] | Inr r \<Rightarrow> [r]) ls)), a'))"

definition maxPutUpdateAttempts :: nat where
  "maxPutUpdateAttempts = 4"

text \<open>\<open>ctxErr n\<close> is \<open>ctx.Err()\<close> in the attempt that leaves \<open>n\<close> further attempts.\<close>

primrec put_update ::
  "'a lease_api \<Rightarrow> (nat \<Rightarrow> ctx) \<Rightarrow> int64 \<Rightarrow> lease_record \<Rightarrow> nat \<Rightarrow> 'a \<Rightarrow> goerr option \<times> 'a"
where
  "put_update api ctxErr expectedVersion r 0 a = (Some ErrConflict, a)"
| "put_update api ctxErr expectedVersion r (Suc n) a =
     (case ctxErr n of
        Some err \<Rightarrow> (Some (ErrWrap ''k8s lease store: put: '' err), a)
      | None \<Rightarrow>
          (let (x, a1) = la_Get api a (k8sLeaseName (rec_Key r)) in
           case x of
             Inl err \<Rightarrow>
               if err = ApiNotFound then (Some ErrConflict, a1)
               else (Some (ErrWrap ''k8s lease store: get for put: '' (api_goerr err)), a1)
           | Inr cur \<Rightarrow>
               if versionFromLease cur \<noteq> expectedVersion then (Some ErrConflict, a1)
               else
                 (let (e, a2) = la_Update api a1 (applyRecordToLease cur r (expectedVersion + 1)) in
                  case e of
                    None \<Rightarrow> (None, a2)
                  | Some err \<Rightarrow>
                      if err \<noteq> ApiConflict
                      then (Some (ErrWrap ''k8s lease store: update: '' (api_goerr err)), a2)
                      else put_update api ctxErr expectedVersion r n a2)))"

definition K8s_Put ::
  "'a lease_api \<Rightarrow> string \<Rightarrow> (nat \<Rightarrow> ctx) \<Rightarrow> 'a \<Rightarrow> int64 \<Rightarrow> lease_record option \<Rightarrow> goerr option \<times> 'a"
where
  "K8s_Put api namespace ctxErr a expectedVersion rp =
     (case rp of
        None \<Rightarrow> (Some ErrConflict, a)
      | Some r \<Rightarrow>
          if expectedVersion = 0 then
            (let (e, a') = la_Create api a (leaseFromRecord r namespace 1) in
             case e of
               None \<Rightarrow> (None, a')
             | Some err \<Rightarrow>
                 if err = ApiAlreadyExists then (Some ErrConflict, a')
                 else (Some (ErrWrap ''k8s lease store: create: '' (api_goerr err)), a'))
          else put_update api ctxErr expectedVersion r maxPutUpdateAttempts a)"

definition K8s_ops :: "'a lease_api \<Rightarrow> string \<Rightarrow> (nat \<Rightarrow> ctx) \<Rightarrow> 'a Store" where
  "K8s_ops api namespace ctxErr =
     \<lparr>st_Ping = K8s_Ping api, st_Get = K8s_Get api, st_List = K8s_List api,
      st_Put = K8s_Put api namespace ctxErr\<rparr>"

section \<open>Names and round trips\<close>

lemma k8sLeaseName_inj:
  assumes "dns1123_ok V" and "ValidateKey V k = None" and "ValidateKey V k' = None"
    and "k8sLeaseName k = k8sLeaseName k'"
  shows "k = k'"
proof -
  have "key_Namespace k @ CHR ''.'' # key_Name k = key_Namespace k' @ CHR ''.'' # key_Name k'"
    using assms(4) by (simp add: k8sLeaseName_def)
  from append_sep_inject [OF ValidateKey_no_dot [OF assms(1,2)] ValidateKey_no_dot [OF assms(1,3)] this]
  show ?thesis by simp
qed

lemma annotation_names_distinct [simp]:
  "tenantNamespaceAnnotation \<noteq> leaseNameAnnotation" "leaseNameAnnotation \<noteq> tenantNamespaceAnnotation"
  "tenantNamespaceAnnotation \<noteq> versionAnnotation" "versionAnnotation \<noteq> tenantNamespaceAnnotation"
  "leaseNameAnnotation \<noteq> versionAnnotation" "versionAnnotation \<noteq> leaseNameAnnotation"
  by (simp_all add: tenantNamespaceAnnotation_def leaseNameAnnotation_def versionAnnotation_def)

lemma ParseInt_version: "ParseInt 64 (FormatInt (sint (v :: int64))) = Some (sint v)"
  using sint_int64_bounds [of v] by (intro ParseInt_FormatInt) simp_all

text \<open>What a record becomes in a Lease object: whole seconds, as a 32-bit number.\<close>

definition k8s_ttl :: "lease_record \<Rightarrow> duration" where
  "k8s_ttl r = sint (word_of_int (rec_TTL r sdiv second) :: int32) * second"

lemma k8s_ttl_leaseDuration:
  "(case leaseDuration r of None \<Rightarrow> 0 | Some d \<Rightarrow> seconds (sint d)) = k8s_ttl r"
proof -
  have "seconds (sint d) = sint d * second" for d :: int32
    using sint_int32_bounds [of d] by (intro seconds_id) simp
  then show ?thesis by (simp add: leaseDuration_def k8s_ttl_def)
qed

lemma recordFromLease_leaseFromRecord:
  assumes "1 \<le> sint v"
  shows "recordFromLease (leaseFromRecord r ns v) = Inr (r\<lparr>rec_TTL := k8s_ttl r, rec_Version := v\<rparr>)"
  using assms
  by (simp add: recordFromLease_def leaseFromRecord_def versionFromLease_def ParseInt_version
      k8s_ttl_leaseDuration)

lemma recordFromLease_apply:
  assumes "1 \<le> sint v"
  shows "recordFromLease (applyRecordToLease l r v) = Inr (r\<lparr>rec_TTL := k8s_ttl r, rec_Version := v\<rparr>)"
  using assms
  by (simp add: recordFromLease_def applyRecordToLease_def versionFromLease_def ParseInt_version k8s_ttl_leaseDuration
      update_conv')

lemma versionFromLease_leaseFromRecord:
  "1 \<le> sint v \<Longrightarrow> versionFromLease (leaseFromRecord r ns v) = v"
  by (simp add: versionFromLease_def leaseFromRecord_def ParseInt_version)

lemma apply_keeps_identity [simp]:
  "lo_Name (applyRecordToLease l r v) = lo_Name l"
  "lo_ResourceVersion (applyRecordToLease l r v) = lo_ResourceVersion l"
  by (simp_all add: applyRecordToLease_def)

lemma leaseFromRecord_name [simp]: "lo_Name (leaseFromRecord r ns v) = k8sLeaseName (rec_Key r)"
  by (simp add: leaseFromRecord_def)

lemma k8s_ttl_exact:
  assumes "rec_TTL r = n * second" and "0 \<le> n" and "n < 2 ^ 31"
  shows "k8s_ttl r = rec_TTL r"
proof -
  have "rec_TTL r sdiv second = n"
    using assms(1,2) by (simp add: signed_divide_int_def sgn_if)
  moreover have "sint (word_of_int n :: int32) = n"
    using assms(2,3) by (simp add: sint_sbintrunc' signed_take_bit_int_eq_self)
  ultimately show ?thesis
    using assms(1) by (simp add: k8s_ttl_def)
qed

section \<open>The API server\<close>

text \<open>Times travel as RFC 3339 with six fractional digits.\<close>

definition micro :: "time \<Rightarrow> time" where
  "micro t = t div microsecond * microsecond"

definition wire :: "lease_obj \<Rightarrow> lease_obj" where
  "wire o' = o'\<lparr>lo_AcquireTime := map_option micro (lo_AcquireTime o'),
                lo_RenewTime := map_option micro (lo_RenewTime o')\<rparr>"

type_synonym objects = "string \<Rightarrow> lease_obj option"

text \<open>Between two calls, an object that kept its resource version was not written.\<close>

definition rv_stable :: "objects \<Rightarrow> objects \<Rightarrow> bool" where
  "rv_stable m m' \<longleftrightarrow>
     (\<forall>n c c'. m n = Some c \<longrightarrow> m' n = Some c' \<longrightarrow> lo_ResourceVersion c' = lo_ResourceVersion c \<longrightarrow> c' = c)"

text \<open>\<open>j\<close> writes of other clients, each of them a step of \<open>W\<close>, led from one state to the other.\<close>

definition interleaved :: "(objects \<Rightarrow> objects \<Rightarrow> bool) \<Rightarrow> nat \<Rightarrow> objects \<Rightarrow> objects \<Rightarrow> bool" where
  "interleaved W j m m' \<longleftrightarrow> (W ^^ j) m m' \<and> rv_stable m m'"

lemma interleaved_rtranclp: "interleaved W j m m' \<Longrightarrow> W\<^sup>*\<^sup>* m m'"
  by (auto simp: interleaved_def dest: relpowp_imp_rtranclp)

text \<open>
  Writers that neither delete the object nor touch its version annotation; they may set any label,
  any other annotation and even the specification.
\<close>

definition keeps_version :: "string \<Rightarrow> objects \<Rightarrow> objects \<Rightarrow> bool" where
  "keeps_version n m m' \<longleftrightarrow>
     (\<forall>l. m n = Some l \<longrightarrow>
        (\<exists>l'. m' n = Some l' \<and>
           map_of (lo_Annotations l') versionAnnotation = map_of (lo_Annotations l) versionAnnotation))"

lemma keeps_version_steps:
  assumes "(W ^^ j) m m'" and "\<forall>m m'. W m m' \<longrightarrow> keeps_version n m m'" and "m n = Some l"
  shows "\<exists>l'. m' n = Some l' \<and> versionFromLease l' = versionFromLease l"
  using assms(1)
proof (induction j arbitrary: m')
  case 0
  with assms(3) show ?case by auto
next
  case (Suc j)
  then obtain m1 where m1: "(W ^^ j) m m1" "W m1 m'" by auto
  from Suc.IH [OF m1(1)] m1(2) assms(2) show ?case
    by (fastforce simp: keeps_version_def versionFromLease_def)
qed

text \<open>A client whose reads fail only with "not found", and updates only with that or a conflict.\<close>

definition healthy_client :: "'a lease_api \<Rightarrow> bool" where
  "healthy_client api \<longleftrightarrow>
     (\<forall>a n x a'. la_Get api a n = (Inl x, a') \<longrightarrow> x = ApiNotFound) \<and>
     (\<forall>a u x a'. la_Update api a u = (Some x, a') \<longrightarrow> x \<in> {ApiConflict, ApiNotFound})"

text \<open>
  \<open>others\<close> is what one write of another client may do to the objects, and \<open>foreign\<close> counts
  those writes.  Every call may be preceded by such writes; a successful create or update is
  applied to the objects they left, and an update that is refused with a conflict or because the
  object is gone changes nothing.  Nothing is said of the objects after any other error.
\<close>

locale k8s_lease_api =
  fixes api :: "'a lease_api"
    and objs :: "'a \<Rightarrow> objects"
    and srv_inv :: "'a \<Rightarrow> bool"
    and others :: "objects \<Rightarrow> objects \<Rightarrow> bool"
    and foreign :: "'a \<Rightarrow> nat"
  assumes api_get_inv: "srv_inv a \<Longrightarrow> la_Get api a n = (x, a') \<Longrightarrow> srv_inv a'"
    and api_get_others: "srv_inv a \<Longrightarrow> la_Get api a n = (x, a') \<Longrightarrow>
      \<exists>j. foreign a' = foreign a + j \<and> interleaved others j (objs a) (objs a')"
    and api_get_found: "srv_inv a \<Longrightarrow> la_Get api a n = (Inr l, a') \<Longrightarrow> objs a' n = Some l \<and> lo_Name l = n"
    and api_get_absent: "srv_inv a \<Longrightarrow> la_Get api a n = (Inl ApiNotFound, a') \<Longrightarrow> objs a' n = None"
    and api_create_inv: "srv_inv a \<Longrightarrow> la_Create api a l = (e, a') \<Longrightarrow> srv_inv a'"
    and api_create_ok: "srv_inv a \<Longrightarrow> la_Create api a l = (None, a') \<Longrightarrow>
      \<exists>m j rv. foreign a' = foreign a + j \<and> interleaved others j (objs a) m \<and> m (lo_Name l) = None \<and>
        objs a' = m(lo_Name l \<mapsto> (wire l)\<lparr>lo_ResourceVersion := rv\<rparr>)"
    and api_update_inv: "srv_inv a \<Longrightarrow> la_Update api a l = (e, a') \<Longrightarrow> srv_inv a'"
    and api_update_ok: "srv_inv a \<Longrightarrow> la_Update api a l = (None, a') \<Longrightarrow>
      \<exists>m j c rv. foreign a' = foreign a + j \<and> interleaved others j (objs a) m \<and> m (lo_Name l) = Some c \<and>
        lo_ResourceVersion c = lo_ResourceVersion l \<and>
        objs a' = m(lo_Name l \<mapsto> (wire l)\<lparr>lo_ResourceVersion := rv\<rparr>)"
    and api_update_refused: "srv_inv a \<Longrightarrow> la_Update api a l = (Some err, a') \<Longrightarrow>
      err \<in> {ApiConflict, ApiNotFound} \<Longrightarrow>
      \<exists>j. foreign a' = foreign a + j \<and> interleaved others j (objs a) (objs a')"
    and api_update_conflict: "srv_inv a \<Longrightarrow> la_Update api a l = (Some ApiConflict, a') \<Longrightarrow>
      objs a' (lo_Name l) = Some c \<Longrightarrow> lo_ResourceVersion c \<noteq> lo_ResourceVersion l"
    and api_update_absent: "srv_inv a \<Longrightarrow> la_Update api a l = (Some ApiNotFound, a') \<Longrightarrow>
      objs a' (lo_Name l) = None"
begin

text \<open>
  A successful update replaced an object whose version annotation was the expected one, and
  wrote onto that very object, as the writes of others had left it.
\<close>

lemma put_update_ok:
  assumes "srv_inv a" and "put_update api ctxErr v r n a = (None, a')"
  shows "\<exists>m c rv. others\<^sup>*\<^sup>* (objs a) m \<and> m (k8sLeaseName (rec_Key r)) = Some c \<and> versionFromLease c = v \<and>
    objs a' = m(k8sLeaseName (rec_Key r) \<mapsto>
      (wire (applyRecordToLease c r (v + 1)))\<lparr>lo_ResourceVersion := rv\<rparr>)"
  using assms
proof (induction n arbitrary: a)
  case 0
  then show ?case by simp
next
  case (Suc n)
  let ?k = "k8sLeaseName (rec_Key r)"
  obtain x a1 where get: "la_Get api a ?k = (x, a1)" by fastforce
  obtain l where l: "x = Inr l" "versionFromLease l = v"
    using Suc.prems(2) get by (auto split: option.splits sum.splits if_splits)
  have a1: "srv_inv a1" "objs a1 ?k = Some l" "lo_Name l = ?k" "others\<^sup>*\<^sup>* (objs a) (objs a1)"
    using Suc.prems(1) get l(1) api_get_inv api_get_found api_get_others
    by (blast dest: interleaved_rtranclp)+
  obtain e a2 where upd: "la_Update api a1 (applyRecordToLease l r (v + 1)) = (e, a2)" by fastforce
  show ?case
  proof (cases e)
    case None
    then have "a' = a2"
      using Suc.prems(2) get l upd by (auto split: option.splits)
    obtain m j c rv where m: "interleaved others j (objs a1) m" "m ?k = Some c"
      "lo_ResourceVersion c = lo_ResourceVersion l"
      "objs a2 = m(?k \<mapsto> (wire (applyRecordToLease l r (v + 1)))\<lparr>lo_ResourceVersion := rv\<rparr>)"
      using api_update_ok [OF a1(1) upd [unfolded None]] a1(3) by auto
    then have "c = l"
      using a1(2) by (auto simp: rv_stable_def interleaved_def)
    moreover have "others\<^sup>*\<^sup>* (objs a) m"
      using a1(4) interleaved_rtranclp [OF m(1)] by (rule rtranclp_trans)
    ultimately show ?thesis
      using m l(2) \<open>a' = a2\<close> by blast
  next
    case (Some err)
    then have rest: "put_update api ctxErr v r n a2 = (None, a')" "err = ApiConflict"
      using Suc.prems(2) get l upd by (auto split: option.splits if_splits)
    then have "others\<^sup>*\<^sup>* (objs a) (objs a2)"
      using api_update_refused [OF a1(1) upd [unfolded Some]] a1(4)
      by (auto dest!: interleaved_rtranclp)
    with Suc.IH [OF api_update_inv [OF a1(1) upd] rest(1)] show ?thesis
      by (blast intro: rtranclp_trans)
  qed
qed

end

lemma wire_sel [simp]:
  "lo_Annotations (wire l) = lo_Annotations l" "lo_HolderIdentity (wire l) = lo_HolderIdentity l"
  "lo_LeaseDurationSeconds (wire l) = lo_LeaseDurationSeconds l"
  "lo_AcquireTime (wire l) = map_option micro (lo_AcquireTime l)"
  "lo_RenewTime (wire l) = map_option micro (lo_RenewTime l)"
  "lo_LeaseTransitions (wire l) = lo_LeaseTransitions l" "lo_Labels (wire l) = lo_Labels l"
  by (simp_all add: wire_def)

lemma recordFromLease_wire:
  assumes "recordFromLease l = Inr r" and "lo_AcquireTime l = Some a" and "lo_RenewTime l = Some b"
  shows "recordFromLease ((wire l)\<lparr>lo_ResourceVersion := rv\<rparr>) =
    Inr (r\<lparr>rec_AcquiredAt := micro (rec_AcquiredAt r), rec_RenewedAt := micro (rec_RenewedAt r)\<rparr>)"
proof -
  have "versionFromLease ((wire l)\<lparr>lo_ResourceVersion := rv\<rparr>) = versionFromLease l"
    by (simp add: versionFromLease_def)
  with assms show ?thesis
    by (cases "map_of (lo_Annotations l) tenantNamespaceAnnotation";
        cases "map_of (lo_Annotations l) leaseNameAnnotation")
      (auto simp: recordFromLease_def)
qed

text \<open>The record that a backend of whole seconds and microseconds keeps of \<open>r\<close>.\<close>

definition k8s_round :: "lease_record \<Rightarrow> int64 \<Rightarrow> lease_record" where
  "k8s_round r v = r\<lparr>rec_TTL := k8s_ttl r, rec_AcquiredAt := micro (rec_AcquiredAt r),
    rec_RenewedAt := micro (rec_RenewedAt r), rec_Version := v\<rparr>"

lemma recordFromLease_stored:
  assumes "1 \<le> sint v"
  shows "recordFromLease ((wire (applyRecordToLease c r v))\<lparr>lo_ResourceVersion := rv\<rparr>) = Inr (k8s_round r v)"
    "recordFromLease ((wire (leaseFromRecord r ns v))\<lparr>lo_ResourceVersion := rv\<rparr>) = Inr (k8s_round r v)"
proof -
  have "lo_AcquireTime (applyRecordToLease c r v) = Some (rec_AcquiredAt r)"
    "lo_RenewTime (applyRecordToLease c r v) = Some (rec_RenewedAt r)"
    by (simp_all add: applyRecordToLease_def)
  from recordFromLease_wire [OF recordFromLease_apply [OF assms] this]
  show "recordFromLease ((wire (applyRecordToLease c r v))\<lparr>lo_ResourceVersion := rv\<rparr>) = Inr (k8s_round r v)"
    by (cases r) (simp add: k8s_round_def)
  have "lo_AcquireTime (leaseFromRecord r ns v) = Some (rec_AcquiredAt r)"
    "lo_RenewTime (leaseFromRecord r ns v) = Some (rec_RenewedAt r)"
    by (simp_all add: leaseFromRecord_def)
  from recordFromLease_wire [OF recordFromLease_leaseFromRecord [OF assms] this]
  show "recordFromLease ((wire (leaseFromRecord r ns v))\<lparr>lo_ResourceVersion := rv\<rparr>) = Inr (k8s_round r v)"
    by (cases r) (simp add: k8s_round_def)
qed

lemma next_version:
  assumes "0 \<le> sint v" and "v \<noteq> MaxInt64"
  shows "1 \<le> sint (v + 1)"
proof -
  have "sint v \<noteq> 9223372036854775807"
    using assms(2) sint_eq_iff_eq [of v MaxInt64] by simp
  then have "sint v < 9223372036854775807"
    using sint_int64_bounds [of v] by simp
  then show ?thesis
    using sint_succ_int64 assms(1) by simp
qed

context k8s_lease_api
begin

lemma K8s_Put_cas:
  assumes "srv_inv a" and "K8s_Put api ns ctxErr a v (Some r) = (None, a')" and "0 \<le> sint v" and "v \<noteq> MaxInt64"
  shows "\<exists>m l. others\<^sup>*\<^sup>* (objs a) m \<and> objs a' = m(k8sLeaseName (rec_Key r) \<mapsto> l) \<and>
    recordFromLease l = Inr (k8s_round r (v + 1)) \<and>
    (if v = 0 then m (k8sLeaseName (rec_Key r)) = None
     else (\<exists>c. m (k8sLeaseName (rec_Key r)) = Some c \<and> versionFromLease c = v))"
proof (cases "v = 0")
  case True
  obtain e a1 where create: "la_Create api a (leaseFromRecord r ns 1) = (e, a1)" by fastforce
  with assms(2) True have "e = None" "a1 = a'"
    by (simp_all add: K8s_Put_def split: option.splits if_splits)
  with api_create_ok [OF assms(1), of "leaseFromRecord r ns 1" a'] create obtain m j rv where
    m: "interleaved others j (objs a) m" "m (k8sLeaseName (rec_Key r)) = None"
    "objs a' = m(k8sLeaseName (rec_Key r) \<mapsto> (wire (leaseFromRecord r ns 1))\<lparr>lo_ResourceVersion := rv\<rparr>)"
    by auto
  from recordFromLease_stored(2) [where v = 1 and r = r and ns = ns and rv = rv] True m show ?thesis
    by (intro exI [of _ m] exI [of _ "(wire (leaseFromRecord r ns 1))\<lparr>lo_ResourceVersion := rv\<rparr>"])
      (simp add: interleaved_rtranclp)
next
  case False
  then have "put_update api ctxErr v r maxPutUpdateAttempts a = (None, a')"
    using assms(2) by (simp add: K8s_Put_def)
  from put_update_ok [OF assms(1) this] obtain m c rv where
    m: "others\<^sup>*\<^sup>* (objs a) m" "m (k8sLeaseName (rec_Key r)) = Some c" "versionFromLease c = v"
    "objs a' = m(k8sLeaseName (rec_Key r) \<mapsto>
      (wire (applyRecordToLease c r (v + 1)))\<lparr>lo_ResourceVersion := rv\<rparr>)"
    by blast
  with False recordFromLease_stored(1) [OF next_version [OF assms(3,4)]] show ?thesis
    by (intro exI [of _ m] exI conjI) auto
qed

lemma version_kept:
  assumes "interleaved others j (objs a) (objs a')" and "objs a n = Some l"
    and "\<forall>m m'. others m m' \<longrightarrow> keeps_version n m m'"
  obtains l' where "objs a' n = Some l'" "versionFromLease l' = versionFromLease l"
  using keeps_version_steps [of j others "objs a" "objs a'" n l] assms that
  by (auto simp: interleaved_def)

lemma put_update_keeps_metadata:
  assumes "srv_inv a" and "put_update api ctxErr v r n a = (None, a')" and "1 \<le> sint (v + 1)"
  shows "\<exists>m c l'. others\<^sup>*\<^sup>* (objs a) m \<and> m (k8sLeaseName (rec_Key r)) = Some c \<and>
    objs a' = m(k8sLeaseName (rec_Key r) \<mapsto> l') \<and> recordFromLease l' = Inr (k8s_round r (v + 1)) \<and>
    (\<forall>x. x \<noteq> managedByLabel \<longrightarrow> map_of (lo_Labels l') x = map_of (lo_Labels c) x) \<and>
    (\<forall>x. x \<notin> {tenantNamespaceAnnotation, leaseNameAnnotation, versionAnnotation} \<longrightarrow>
       map_of (lo_Annotations l') x = map_of (lo_Annotations c) x)"
proof -
  obtain m c rv where m: "others\<^sup>*\<^sup>* (objs a) m" "m (k8sLeaseName (rec_Key r)) = Some c"
    "objs a' = m(k8sLeaseName (rec_Key r) \<mapsto>
      (wire (applyRecordToLease c r (v + 1)))\<lparr>lo_ResourceVersion := rv\<rparr>)"
    using put_update_ok [OF assms(1,2)] by blast
  with recordFromLease_stored(1) [OF assms(3)] show ?thesis
    by (intro exI [of _ m] exI [of _ c]
        exI [of _ "(wire (applyRecordToLease c r (v + 1)))\<lparr>lo_ResourceVersion := rv\<rparr>"])
      (simp add: applyRecordToLease_def update_conv')
qed

text \<open>A refused attempt was hit by a write of another client between its read and its update.\<close>

lemma attempt_hit:
  assumes "srv_inv a" and "la_Update api a u = (Some ApiConflict, a')"
    and "objs a (lo_Name u) = Some l" and "lo_ResourceVersion l = lo_ResourceVersion u"
  shows "foreign a < foreign a'"
proof -
  obtain j where j: "foreign a' = foreign a + j" "interleaved others j (objs a) (objs a')"
    using api_update_refused [OF assms(1,2)] by auto
  have "j \<noteq> 0"
    using j(2) api_update_conflict [OF assms(1,2)] assms(3,4) by (cases j) (auto simp: interleaved_def)
  with j(1) show ?thesis by simp
qed

lemma put_update_conflict:
  assumes "srv_inv a" and "put_update api ctxErr v r n a = (Some ErrConflict, a')"
    and "objs a (k8sLeaseName (rec_Key r)) = Some l" and "versionFromLease l = v"
    and kept: "\<forall>m m'. others m m' \<longrightarrow> keeps_version (k8sLeaseName (rec_Key r)) m m'"
  shows "foreign a + n \<le> foreign a'"
  using assms(1-4)
proof (induction n arbitrary: a l)
  case 0
  then show ?case by simp
next
  case (Suc n)
  let ?k = "k8sLeaseName (rec_Key r)"
  obtain x a1 where get: "la_Get api a ?k = (x, a1)" by fastforce
  obtain j where j: "foreign a1 = foreign a + j" "interleaved others j (objs a) (objs a1)"
    using api_get_others [OF Suc.prems(1) get] by blast
  obtain l1 where l1: "objs a1 ?k = Some l1" "versionFromLease l1 = v"
    using version_kept [OF j(2) Suc.prems(3) kept] Suc.prems(4) by metis
  have "x \<noteq> Inl ApiNotFound"
    using api_get_absent [OF Suc.prems(1)] get l1(1) by fastforce
  with Suc.prems(2) get have "x = Inr l1"
    using api_get_found [OF Suc.prems(1)] l1(1) by (auto split: option.splits sum.splits if_splits)
  have a1: "srv_inv a1" "lo_Name l1 = ?k"
    using api_get_inv [OF Suc.prems(1) get] api_get_found [OF Suc.prems(1)] get \<open>x = Inr l1\<close> by auto
  let ?u = "applyRecordToLease l1 r (v + 1)"
  obtain e a2 where upd: "la_Update api a1 ?u = (e, a2)" by fastforce
  then have e: "e = Some ApiConflict" and rest: "put_update api ctxErr v r n a2 = (Some ErrConflict, a')"
    using Suc.prems(2) get \<open>x = Inr l1\<close> l1(2) by (auto split: option.splits if_splits)
  obtain i where i: "interleaved others i (objs a1) (objs a2)"
    using api_update_refused [OF a1(1) upd [unfolded e]] by auto
  obtain l2 where l2: "objs a2 ?k = Some l2" "versionFromLease l2 = v"
    using version_kept [OF i l1(1) kept] l1(2) by metis
  have "foreign a1 < foreign a2"
    using attempt_hit [OF a1(1) upd [unfolded e]] l1(1) a1(2) by simp
  with Suc.IH [OF api_update_inv [OF a1(1) upd] rest l2] j(1) show ?case by simp
qed

lemma put_update_outcomes:
  assumes healthy: "healthy_client api" and "\<forall>i. ctxErr i = None" and "srv_inv a"
    and "objs a (k8sLeaseName (rec_Key r)) = Some l" and "versionFromLease l = v"
    and kept: "\<forall>m m'. others m m' \<longrightarrow> keeps_version (k8sLeaseName (rec_Key r)) m m'"
  shows "fst (put_update api ctxErr v r n a) \<in> {None, Some ErrConflict}"
  using assms(3-5)
proof (induction n arbitrary: a l)
  case 0
  then show ?case by simp
next
  case (Suc n)
  let ?k = "k8sLeaseName (rec_Key r)"
  obtain x a1 where get: "la_Get api a ?k = (x, a1)" by fastforce
  show ?case
  proof (cases x)
    case (Inl err)
    then have "err = ApiNotFound"
      using get healthy unfolding healthy_client_def by blast
    with Inl get assms(2) show ?thesis by simp
  next
    case (Inr l1)
    have a1: "srv_inv a1" "objs a1 ?k = Some l1" "lo_Name l1 = ?k"
      using api_get_inv [OF Suc.prems(1) get] api_get_found [OF Suc.prems(1)] get Inr by auto
    let ?u = "applyRecordToLease l1 r (v + 1)"
    obtain e a2 where upd: "la_Update api a1 ?u = (e, a2)" by fastforce
    show ?thesis
    proof (cases e)
      case None
      with get upd Inr assms(2) show ?thesis by simp
    next
      case (Some err)
      have err: "err \<in> {ApiConflict, ApiNotFound}"
        using healthy upd Some unfolding healthy_client_def by blast
      then obtain i where i: "interleaved others i (objs a1) (objs a2)"
        using api_update_refused [OF a1(1) upd [unfolded Some]] by blast
      obtain l2 where l2: "objs a2 ?k = Some l2" "versionFromLease l2 = versionFromLease l1"
        using version_kept [OF i a1(2) kept] .
      with err have "err = ApiConflict"
        using api_update_absent [OF a1(1)] upd Some a1(3) by fastforce
      with Suc.IH [OF api_update_inv [OF a1(1) upd] l2(1)] l2(2) get upd Inr Some assms(2) show ?thesis
        by simp
    qed
  qed
qed

end

section \<open>A reference server\<close>

text \<open>
  Objects with a counter of writes, and turns: the writes of other clients before each call, which
  set a label or an annotation of an object, overwrite an object altogether or delete it.
\<close>

datatype ext_write =
    ExtLabel string string string
  | ExtAnnotate string string string
  | ExtReplace string lease_obj
  | ExtDelete string

fun ext_target :: "ext_write \<Rightarrow> string" where
  "ext_target (ExtLabel n k v) = n"
| "ext_target (ExtAnnotate n k v) = n"
| "ext_target (ExtReplace n l) = n"
| "ext_target (ExtDelete n) = n"

fun ext_next :: "ext_write \<Rightarrow> lease_obj option \<Rightarrow> lease_obj option" where
  "ext_next (ExtLabel n k v) cur = map_option (\<lambda>l. l\<lparr>lo_Labels := AList.update k v (lo_Labels l)\<rparr>) cur"
| "ext_next (ExtAnnotate n k v) cur =
     map_option (\<lambda>l. l\<lparr>lo_Annotations := AList.update k v (lo_Annotations l)\<rparr>) cur"
| "ext_next (ExtReplace n l) cur = Some l"
| "ext_next (ExtDelete n) cur = None"

record api_server =
  sv_objs :: "(string \<times> lease_obj) list"
  sv_rv :: nat
  sv_foreign :: nat
  sv_turns :: "ext_write list list"

abbreviation sv_view :: "api_server \<Rightarrow> objects" where
  "sv_view s \<equiv> map_of (sv_objs s)"

definition sv_write :: "string \<Rightarrow> lease_obj \<Rightarrow> api_server \<Rightarrow> api_server" where
  "sv_write n l s =
     s\<lparr>sv_objs := AList.update n
          (l\<lparr>lo_Name := n, lo_ResourceVersion := format_nat (Suc (sv_rv s))\<rparr>) (sv_objs s),
       sv_rv := Suc (sv_rv s)\<rparr>"

definition sv_delete :: "string \<Rightarrow> api_server \<Rightarrow> api_server" where
  "sv_delete n s = s\<lparr>sv_objs := AList.delete n (sv_objs s)\<rparr>"

definition ext_apply :: "ext_write \<Rightarrow> api_server \<Rightarrow> api_server" where
  "ext_apply w s =
     (case ext_next w (sv_view s (ext_target w)) of
        None \<Rightarrow> sv_delete (ext_target w) s
      | Some l \<Rightarrow> sv_write (ext_target w) l s)\<lparr>sv_foreign := Suc (sv_foreign s)\<rparr>"

definition sv_turn :: "api_server \<Rightarrow> api_server" where
  "sv_turn s =
     (case sv_turns s of
        [] \<Rightarrow> s
      | ws # ts \<Rightarrow> (fold ext_apply ws s)\<lparr>sv_turns := ts\<rparr>)"

definition ref_api :: "api_server lease_api" where
  "ref_api =
     \<lparr>la_Get = (\<lambda>s n. let s' = sv_turn s in
        (case map_of (sv_objs s') n of None \<Rightarrow> Inl ApiNotFound | Some l \<Rightarrow> Inr l, s')),
      la_List = (\<lambda>s sel. let s' = sv_turn s in
        (Inr (filter (\<lambda>l. case sel of None \<Rightarrow> True | Some (k, v) \<Rightarrow> map_of (lo_Labels l) k = Some v)
           (map snd (sv_objs s'))), s')),
      la_Create = (\<lambda>s l. let s' = sv_turn s in
        (case map_of (sv_objs s') (lo_Name l) of
           Some c \<Rightarrow> (Some ApiAlreadyExists, s')
         | None \<Rightarrow> (None, sv_write (lo_Name l) (wire l) s'))),
      la_Update = (\<lambda>s l. let s' = sv_turn s in
        (case map_of (sv_objs s') (lo_Name l) of
           None \<Rightarrow> (Some ApiNotFound, s')
         | Some c \<Rightarrow>
             if lo_ResourceVersion c \<noteq> lo_ResourceVersion l then (Some ApiConflict, s')
             else (None, sv_write (lo_Name l) (wire l) s')))\<rparr>"

text \<open>A policy \<open>P\<close> says which writes the other clients make.\<close>

definition sv_inv :: "(ext_write \<Rightarrow> bool) \<Rightarrow> api_server \<Rightarrow> bool" where
  "sv_inv P s \<longleftrightarrow> list_all (list_all P) (sv_turns s) \<and> (\<forall>n l. sv_view s n = Some l \<longrightarrow>
     lo_Name l = n \<and> (\<exists>j \<le> sv_rv s. lo_ResourceVersion l = format_nat j))"

definition ext_step :: "(ext_write \<Rightarrow> bool) \<Rightarrow> objects \<Rightarrow> objects \<Rightarrow> bool" where
  "ext_step P m m' \<longleftrightarrow>
     (\<exists>w rv. P w \<and> m' = m(ext_target w :=
        map_option (\<lambda>l. l\<lparr>lo_Name := ext_target w, lo_ResourceVersion := rv\<rparr>) (ext_next w (m (ext_target w)))))"

definition sv_grows :: "api_server \<Rightarrow> api_server \<Rightarrow> bool" where
  "sv_grows s s' \<longleftrightarrow> sv_rv s \<le> sv_rv s' \<and>
     (\<forall>n c. sv_view s' n = Some c \<longrightarrow>
        sv_view s n = Some c \<or> (\<exists>j. sv_rv s < j \<and> lo_ResourceVersion c = format_nat j))"

lemma format_nat_inj: "format_nat i = format_nat j \<Longrightarrow> i = j"
  by (metis of_nat_eq_iff option.inject parse_format_nat)

lemma sv_grows_refl [simp]: "sv_grows s s"
  by (simp add: sv_grows_def)

lemma sv_grows_trans: "sv_grows a b \<Longrightarrow> sv_grows b c \<Longrightarrow> sv_grows a c"
  unfolding sv_grows_def by (meson le_less_trans le_trans)

lemma sv_view_write:
  "sv_view (sv_write n l s) =
     (sv_view s)(n \<mapsto> l\<lparr>lo_Name := n, lo_ResourceVersion := format_nat (Suc (sv_rv s))\<rparr>)"
  by (simp add: sv_write_def update_conv')

lemma sv_view_delete: "sv_view (sv_delete n s) = (sv_view s)(n := None)"
  by (simp add: sv_delete_def delete_conv')

lemma sv_write_ok: "sv_inv P s \<Longrightarrow> sv_inv P (sv_write n l s)" "sv_grows s (sv_write n l s)"
  "sv_foreign (sv_write n l s) = sv_foreign s"
proof -
  have rv: "sv_rv (sv_write n l s) = Suc (sv_rv s)" and turns: "sv_turns (sv_write n l s) = sv_turns s"
    by (simp_all add: sv_write_def)
  show "sv_grows s (sv_write n l s)"
    unfolding sv_grows_def rv sv_view_write by (auto simp: fun_upd_def split: if_splits)
  show "sv_inv P (sv_write n l s)" if "sv_inv P s"
    using that unfolding sv_inv_def rv turns sv_view_write
    by (auto simp: fun_upd_def split: if_splits) (meson le_SucI)
qed (simp add: sv_write_def)

lemma sv_delete_ok: "sv_inv P s \<Longrightarrow> sv_inv P (sv_delete n s)" "sv_grows s (sv_delete n s)"
  by (auto simp: sv_inv_def sv_grows_def sv_view_delete fun_upd_def split: if_splits)
    (auto simp: sv_delete_def)

lemma sv_frame [simp]:
  "sv_grows s (s'\<lparr>sv_turns := ts\<rparr>) = sv_grows s s'" "sv_grows s (s'\<lparr>sv_foreign := n\<rparr>) = sv_grows s s'"
  "sv_inv P (s'\<lparr>sv_foreign := n\<rparr>) = sv_inv P s'"
  by (simp_all add: sv_inv_def sv_grows_def)

lemma ext_apply_ok:
  assumes "sv_inv P s"
  shows "sv_inv P (ext_apply w s)" "sv_grows s (ext_apply w s)"
    "sv_foreign (ext_apply w s) = Suc (sv_foreign s)"
  using assms by (simp_all add: ext_apply_def sv_write_ok sv_delete_ok split: option.split)

lemma ext_apply_step: "P w \<Longrightarrow> ext_step P (sv_view s) (sv_view (ext_apply w s))"
  unfolding ext_step_def ext_apply_def
  by (intro exI [of _ w] exI [of _ "format_nat (Suc (sv_rv s))"])
    (simp add: sv_view_write sv_view_delete split: option.split)

lemma ext_fold_ok:
  assumes "sv_inv P s" and "list_all P ws"
  shows "sv_inv P (fold ext_apply ws s) \<and> sv_grows s (fold ext_apply ws s) \<and>
    sv_foreign (fold ext_apply ws s) = sv_foreign s + length ws \<and>
    (ext_step P ^^ length ws) (sv_view s) (sv_view (fold ext_apply ws s))"
  using assms(2)
proof (induction ws rule: rev_induct)
  case Nil
  with assms(1) show ?case by simp
next
  case (snoc w ws)
  then have IH: "sv_inv P (fold ext_apply ws s)" "sv_grows s (fold ext_apply ws s)"
    "sv_foreign (fold ext_apply ws s) = sv_foreign s + length ws"
    "(ext_step P ^^ length ws) (sv_view s) (sv_view (fold ext_apply ws s))"
    by simp_all
  from snoc.prems have "ext_step P (sv_view (fold ext_apply ws s)) (sv_view (ext_apply w (fold ext_apply ws s)))"
    by (simp add: ext_apply_step)
  with IH(4) have "(ext_step P ^^ Suc (length ws)) (sv_view s) (sv_view (ext_apply w (fold ext_apply ws s)))"
    by (auto simp: relcompp.simps)
  with ext_apply_ok [OF IH(1), of w] IH(2,3) show ?case
    by (auto intro: sv_grows_trans simp del: relpowp.simps)
qed

lemma sv_grows_stable:
  assumes "sv_inv P s" and "sv_grows s s'"
  shows "rv_stable (sv_view s) (sv_view s')"
  unfolding rv_stable_def
proof (intro allI impI)
  fix n c c'
  assume c: "sv_view s n = Some c" "sv_view s' n = Some c'"
    "lo_ResourceVersion c' = lo_ResourceVersion c"
  obtain j where j: "j \<le> sv_rv s" "lo_ResourceVersion c = format_nat j"
    using assms(1) c(1) by (auto simp: sv_inv_def)
  have "sv_view s n = Some c' \<or> (\<exists>i. sv_rv s < i \<and> lo_ResourceVersion c' = format_nat i)"
    using assms(2) c(2) by (simp add: sv_grows_def)
  with j c(1,3) show "c' = c" by (auto dest: format_nat_inj)
qed

lemma sv_turn_ok:
  assumes "sv_inv P s"
  shows "sv_inv P (sv_turn s)"
    "\<exists>j. sv_foreign (sv_turn s) = sv_foreign s + j \<and>
       interleaved (ext_step P) j (sv_view s) (sv_view (sv_turn s))"
proof -
  have "\<exists>j. sv_inv P (sv_turn s) \<and> sv_foreign (sv_turn s) = sv_foreign s + j \<and> sv_grows s (sv_turn s) \<and>
      (ext_step P ^^ j) (sv_view s) (sv_view (sv_turn s))"
  proof (cases "sv_turns s")
    case Nil
    with assms show ?thesis by (auto simp: sv_turn_def intro!: exI [of _ 0])
  next
    case (Cons ws ts)
    with assms have "list_all P ws" "list_all (list_all P) ts" by (simp_all add: sv_inv_def)
    with ext_fold_ok [OF assms this(1)] Cons show ?thesis
      by (intro exI [of _ "length ws"]) (simp add: sv_turn_def sv_inv_def)
  qed
  then show "sv_inv P (sv_turn s)"
    "\<exists>j. sv_foreign (sv_turn s) = sv_foreign s + j \<and>
       interleaved (ext_step P) j (sv_view s) (sv_view (sv_turn s))"
    using sv_grows_stable [OF assms] by (auto simp: interleaved_def)
qed

lemma ref_api_sel:
  "la_Get ref_api s n = (let s' = sv_turn s in
     (case sv_view s' n of None \<Rightarrow> Inl ApiNotFound | Some l \<Rightarrow> Inr l, s'))"
  "la_Create ref_api s l = (let s' = sv_turn s in
     (case sv_view s' (lo_Name l) of
        Some c \<Rightarrow> (Some ApiAlreadyExists, s')
      | None \<Rightarrow> (None, sv_write (lo_Name l) (wire l) s')))"
  "la_Update ref_api s l = (let s' = sv_turn s in
     (case sv_view s' (lo_Name l) of
        None \<Rightarrow> (Some ApiNotFound, s')
      | Some c \<Rightarrow>
          if lo_ResourceVersion c \<noteq> lo_ResourceVersion l then (Some ApiConflict, s')
          else (None, sv_write (lo_Name l) (wire l) s')))"
  by (simp_all add: ref_api_def)

lemma ref_update_refused:
  "la_Update ref_api a l = (Some e, a') \<Longrightarrow> a' = sv_turn a \<and>
     (e = ApiNotFound \<and> sv_view a' (lo_Name l) = None \<or>
      e = ApiConflict \<and> (\<exists>c. sv_view a' (lo_Name l) = Some c \<and> lo_ResourceVersion c \<noteq> lo_ResourceVersion l))"
  by (auto simp: ref_api_sel Let_def split: option.splits if_splits)

lemma wire_name [simp]: "(wire l)\<lparr>lo_Name := lo_Name l, lo_ResourceVersion := rv\<rparr> = (wire l)\<lparr>lo_ResourceVersion := rv\<rparr>"
  by (simp add: wire_def)

interpretation kref: k8s_lease_api ref_api sv_view "sv_inv P" "ext_step P" sv_foreign
proof unfold_locales
  fix a n x a' assume "sv_inv P a" and "la_Get ref_api a n = (x, a')"
  then show "sv_inv P a'" "\<exists>j. sv_foreign a' = sv_foreign a + j \<and> interleaved (ext_step P) j (sv_view a) (sv_view a')"
    using sv_turn_ok [of P a] by (simp_all add: ref_api_sel Let_def)
next
  fix a n l a' assume "sv_inv P a" and "la_Get ref_api a n = (Inr l, a')"
  then show "sv_view a' n = Some l \<and> lo_Name l = n"
    using sv_turn_ok(1) [of P a] by (auto simp: ref_api_sel Let_def sv_inv_def split: option.splits)
next
  fix a n a' assume "la_Get ref_api a n = (Inl ApiNotFound, a')"
  then show "sv_view a' n = None" by (auto simp: ref_api_sel Let_def split: option.splits)
next
  fix a l e a' assume "sv_inv P a" and "la_Create ref_api a l = (e, a')"
  then show "sv_inv P a'" using sv_turn_ok(1) [of P a]
    by (auto simp: ref_api_sel Let_def intro: sv_write_ok(1) split: option.splits)
next
  fix a l a' assume a: "sv_inv P a" "la_Create ref_api a l = (None, a')"
  then have "sv_view (sv_turn a) (lo_Name l) = None" "a' = sv_write (lo_Name l) (wire l) (sv_turn a)"
    by (auto simp: ref_api_sel Let_def split: option.splits)
  with sv_turn_ok(2) [OF a(1)]
  show "\<exists>m j rv. sv_foreign a' = sv_foreign a + j \<and> interleaved (ext_step P) j (sv_view a) m \<and>
      m (lo_Name l) = None \<and> sv_view a' = m(lo_Name l \<mapsto> (wire l)\<lparr>lo_ResourceVersion := rv\<rparr>)"
    by (intro exI [of _ "sv_view (sv_turn a)"]) (auto simp: sv_view_write sv_write_ok)
next
  fix a l e a' assume "sv_inv P a" and "la_Update ref_api a l = (e, a')"
  then show "sv_inv P a'" using sv_turn_ok(1) [of P a]
    by (auto simp: ref_api_sel Let_def intro: sv_write_ok(1) split: option.splits if_splits)
next
  fix a l a' assume a: "sv_inv P a" "la_Update ref_api a l = (None, a')"
  then obtain c where "sv_view (sv_turn a) (lo_Name l) = Some c"
    "lo_ResourceVersion c = lo_ResourceVersion l" "a' = sv_write (lo_Name l) (wire l) (sv_turn a)"
    by (auto simp: ref_api_sel Let_def split: option.splits if_splits)
  with sv_turn_ok(2) [OF a(1)]
  show "\<exists>m j c rv. sv_foreign a' = sv_foreign a + j \<and> interleaved (ext_step P) j (sv_view a) m \<and>
      m (lo_Name l) = Some c \<and> lo_ResourceVersion c = lo_ResourceVersion l \<and>
      sv_view a' = m(lo_Name l \<mapsto> (wire l)\<lparr>lo_ResourceVersion := rv\<rparr>)"
    by (intro exI [of _ "sv_view (sv_turn a)"]) (auto simp: sv_view_write sv_write_ok)
next
  fix a l err a' assume "sv_inv P a" and "la_Update ref_api a l = (Some err, a')"
  then show "\<exists>j. sv_foreign a' = sv_foreign a + j \<and> interleaved (ext_step P) j (sv_view a) (sv_view a')"
    using sv_turn_ok(2) ref_update_refused by blast
qed (auto dest!: ref_update_refused)

section \<open>Properties\<close>

text \<open>
  C12. The encoding of a key as the name of a Lease object is injective on the keys that pass
  validation, so two keys never share an object.
\<close>

theorem k8s_lease_names_injective:
  assumes "dns1123_ok V" and "ValidateKey V k = None" and "ValidateKey V k' = None" and "k \<noteq> k'"
  shows "k8sLeaseName k \<noteq> k8sLeaseName k'"
  using k8sLeaseName_inj [OF assms(1-3)] assms(4) by blast

theorem k8s_lease_names_injective_witness:
  "k8sLeaseName \<lparr>key_Namespace = ''a'', key_Name = ''b.c''\<rparr> \<noteq>
   k8sLeaseName \<lparr>key_Namespace = ''a-b'', key_Name = ''c''\<rparr>"
proof -
  have "ValidateKey rfc1123 \<lparr>key_Namespace = ''a'', key_Name = ''b.c''\<rparr> = None"
    "ValidateKey rfc1123 \<lparr>key_Namespace = ''a-b'', key_Name = ''c''\<rparr> = None"
    by code_simp+
  from k8s_lease_names_injective [OF rfc1123_ok this] show ?thesis by simp
qed

text \<open>
  C13. A successful \<open>Put\<close> of the Kubernetes backend is a compare-and-swap on the version
  annotation, for every API server that keeps the contract and against every interleaving of other
  writers: they led from the objects at the call to some state \<open>m\<close>, in which the object was absent
  (expected version 0) or carried exactly the expected version; \<open>Put\<close> replaced that object in \<open>m\<close>
  and nothing else, and what is now stored reads back as the record, at the next version, with its
  time to live in whole seconds and its times in whole microseconds.
\<close>

theorem k8s_put_is_compare_and_swap:
  assumes contract: "k8s_lease_api api objs srv_inv others foreign"
    and "srv_inv a" and "K8s_Put api ns ctxErr a v (Some r) = (None, a')"
    and "0 \<le> sint v" and "v \<noteq> MaxInt64"
  shows "\<exists>m l. others\<^sup>*\<^sup>* (objs a) m \<and> objs a' = m(k8sLeaseName (rec_Key r) \<mapsto> l) \<and>
    recordFromLease l = Inr (r\<lparr>rec_TTL := sint (word_of_int (rec_TTL r sdiv second) :: int32) * second,
      rec_AcquiredAt := rec_AcquiredAt r div microsecond * microsecond,
      rec_RenewedAt := rec_RenewedAt r div microsecond * microsecond, rec_Version := v + 1\<rparr>) \<and>
    (if v = 0 then m (k8sLeaseName (rec_Key r)) = None
     else (\<exists>c. m (k8sLeaseName (rec_Key r)) = Some c \<and> versionFromLease c = v))"
  using k8s_lease_api.K8s_Put_cas [OF assms] by (simp add: k8s_round_def k8s_ttl_def micro_def)

definition sample_record :: lease_record where
  "sample_record =
     \<lparr>rec_Key = \<lparr>key_Namespace = ''ns'', key_Name = ''job''\<rparr>, rec_Holder = ''a'', rec_TTL = 30 * second,
      rec_AcquiredAt = 1500, rec_RenewedAt = 2700, rec_FencingToken = 1, rec_Version = 0\<rparr>"

text \<open>
  A server that holds the record at version 1, and on which other clients label and annotate the
  object between the read and the update of the first two attempts of a \<open>Put\<close>.
\<close>

definition labelled_server :: api_server where
  "labelled_server =
     \<lparr>sv_objs = [(''ns.job'', (leaseFromRecord sample_record ''pool'' 1)\<lparr>lo_ResourceVersion := ''1''\<rparr>)],
      sv_rv = 1, sv_foreign = 0,
      sv_turns = [[], [ExtLabel ''ns.job'' ''team'' ''x''], [], [ExtAnnotate ''ns.job'' ''backup'' ''y'']]\<rparr>"

fun leaves_version :: "ext_write \<Rightarrow> bool" where
  "leaves_version (ExtLabel n k v) = True"
| "leaves_version (ExtAnnotate n k v) = (k \<noteq> versionAnnotation)"
| "leaves_version w = False"

lemma sv_inv_labelled: "sv_inv leaves_version labelled_server"
proof -
  have "''1'' = format_nat 1" by code_simp
  then have "\<exists>j \<le> 1. ''1'' = format_nat j" by blast
  then show ?thesis
    by (simp add: sv_inv_def labelled_server_def sample_record_def k8sLeaseName_def versionAnnotation_def)
qed

theorem k8s_put_is_compare_and_swap_witness:
  "\<exists>a' m l. K8s_Put ref_api ''pool'' (\<lambda>n. None) labelled_server 1 (Some sample_record) = (None, a') \<and>
     (ext_step leaves_version)\<^sup>*\<^sup>* (sv_view labelled_server) m \<and>
     sv_view a' = m(k8sLeaseName (rec_Key sample_record) \<mapsto> l) \<and>
     (\<exists>c. m (k8sLeaseName (rec_Key sample_record)) = Some c \<and> versionFromLease c = 1)"
proof -
  obtain e a' where put: "K8s_Put ref_api ''pool'' (\<lambda>n. None) labelled_server 1 (Some sample_record) = (e, a')"
    by fastforce
  have "fst (K8s_Put ref_api ''pool'' (\<lambda>n. None) labelled_server 1 (Some sample_record)) = None"
    by code_simp
  with put have "e = None" by simp
  note put = put [unfolded this]
  have "(1 :: int64) \<noteq> MaxInt64" "0 \<le> sint (1 :: int64)" by (simp_all add: MaxInt64_def)
  from k8s_put_is_compare_and_swap [OF kref.k8s_lease_api_axioms sv_inv_labelled put this(2,1)] put
  show ?thesis by auto
qed

text \<open>
  C14. Writers that leave the version annotation alone never cost a holder its lease.  Suppose that
  the stored object carries the expected version, and that the writes of other clients neither
  delete it nor touch its version annotation.  Then \<open>Put\<close> answers a conflict only if other clients
  wrote at least four times during the call; with a healthy client (reads fail only with "not
  found", updates only with that or a conflict) and a live context, every other outcome is success;
  and after a success the object reads back as the record at the next version and still has every
  foreign label and annotation, those set during the call included.
\<close>

theorem k8s_put_survives_metadata_writes:
  assumes contract: "k8s_lease_api api objs srv_inv others foreign" and "srv_inv a"
    and "\<forall>m m'. others m m' \<longrightarrow> keeps_version (k8sLeaseName (rec_Key r)) m m'"
    and "objs a (k8sLeaseName (rec_Key r)) = Some l" and "versionFromLease l = v"
    and "0 < sint v" and "v \<noteq> MaxInt64"
    and put: "K8s_Put api ns ctxErr a v (Some r) = (e, a')"
  shows "(e = Some ErrConflict \<longrightarrow> foreign a + 4 \<le> foreign a') \<and>
    (healthy_client api \<and> (\<forall>i. ctxErr i = None) \<longrightarrow> e = None \<or> e = Some ErrConflict) \<and>
    (e = None \<longrightarrow> (\<exists>m c l'. others\<^sup>*\<^sup>* (objs a) m \<and> m (k8sLeaseName (rec_Key r)) = Some c \<and>
      objs a' = m(k8sLeaseName (rec_Key r) \<mapsto> l') \<and> recordFromLease l' = Inr (k8s_round r (v + 1)) \<and>
      (\<forall>x. x \<noteq> managedByLabel \<longrightarrow> map_of (lo_Labels l') x = map_of (lo_Labels c) x) \<and>
      (\<forall>x. x \<notin> {tenantNamespaceAnnotation, leaseNameAnnotation, versionAnnotation} \<longrightarrow>
         map_of (lo_Annotations l') x = map_of (lo_Annotations c) x)))"
proof (intro conjI impI)
  have "v \<noteq> 0" using assms(6) by auto
  with put have upd: "put_update api ctxErr v r 4 a = (e, a')"
    by (simp add: K8s_Put_def maxPutUpdateAttempts_def del: put_update.simps)
  show "foreign a + 4 \<le> foreign a'" if "e = Some ErrConflict"
    using k8s_lease_api.put_update_conflict [OF contract assms(2) _ assms(4,5,3)] upd that by blast
  show "e = None \<or> e = Some ErrConflict" if "healthy_client api \<and> (\<forall>i. ctxErr i = None)"
    using k8s_lease_api.put_update_outcomes [OF contract _ _ assms(2,4,5,3), of ctxErr 4] upd that by simp
  show "\<exists>m c l'. others\<^sup>*\<^sup>* (objs a) m \<and> m (k8sLeaseName (rec_Key r)) = Some c \<and>
      objs a' = m(k8sLeaseName (rec_Key r) \<mapsto> l') \<and> recordFromLease l' = Inr (k8s_round r (v + 1)) \<and>
      (\<forall>x. x \<noteq> managedByLabel \<longrightarrow> map_of (lo_Labels l') x = map_of (lo_Labels c) x) \<and>
      (\<forall>x. x \<notin> {tenantNamespaceAnnotation, leaseNameAnnotation, versionAnnotation} \<longrightarrow>
         map_of (lo_Annotations l') x = map_of (lo_Annotations c) x)" if "e = None"
    using k8s_lease_api.put_update_keeps_metadata [OF contract assms(2)] upd that
      next_version [OF less_imp_le [OF assms(6)] assms(7)] by blast
qed

text \<open>The object of \<open>labelled_server\<close> is written twice during the call, and \<open>Put\<close> succeeds.\<close>

theorem k8s_put_survives_metadata_writes_witness:
  "\<exists>s' l'. K8s_Put ref_api ''pool'' (\<lambda>n. None) labelled_server 1 (Some sample_record) = (None, s') \<and>
     sv_view s' ''ns.job'' = Some l' \<and> recordFromLease l' = Inr (k8s_round sample_record 2)"
proof -
  let ?l = "(leaseFromRecord sample_record ''pool'' 1)\<lparr>lo_ResourceVersion := ''1''\<rparr>"
  let ?put = "K8s_Put ref_api ''pool'' (\<lambda>n. None) labelled_server 1 (Some sample_record)"
  have name: "k8sLeaseName (rec_Key sample_record) = ''ns.job''"
    by code_simp
  have kept: "\<forall>m m'. ext_step leaves_version m m' \<longrightarrow> keeps_version ''ns.job'' m m'"
    by (auto simp: ext_step_def keeps_version_def update_conv' elim!: leaves_version.elims)
  have view: "sv_view labelled_server ''ns.job'' = Some ?l"
    by code_simp
  have version: "versionFromLease ?l = 1"
    using versionFromLease_leaseFromRecord [of 1 sample_record "''pool''"] by (simp add: versionFromLease_def)
  have healthy: "healthy_client ref_api"
    by (auto simp: healthy_client_def ref_api_sel Let_def dest: ref_update_refused split: option.splits)
  have v: "0 < sint (1 :: int64)" "(1 :: int64) \<noteq> MaxInt64" by (simp_all add: MaxInt64_def)
  obtain e s' where put: "?put = (e, s')" by fastforce
  have "sv_foreign (snd ?put) = 2" "sv_foreign labelled_server = 0" by code_simp+
  with put have "\<not> sv_foreign labelled_server + 4 \<le> sv_foreign s'" by simp
  with k8s_put_survives_metadata_writes [OF kref.k8s_lease_api_axioms sv_inv_labelled
      kept [folded name] view [folded name] version v put] healthy put name
  show ?thesis by auto
qed

end
