(* ===== verification/Sha256.thy ===== *)
theory Sha256
  imports Berth_Prelude
begin

text \<open>
  The functions \<open>sha256.Sum256\<close> and \<open>hex.EncodeToString\<close> of the Go standard library, which
  the static authenticator uses to look a bearer token up by its hash
  (\<open>internal/auth/static.go\<close>, function \<open>hashToken\<close>).  Bytes are characters; words are 32 bits
  wide and their addition wraps.
\<close>

unbundle bit_operations_syntax

definition rotr :: "nat \<Rightarrow> int32 \<Rightarrow> int32" where
  "rotr n w = (drop_bit n w OR push_bit (32 - n) w)"

text \<open>
  The constants of the standard are fractions of roots: the round constants are the first 32
  bits of the fractional parts of the cube roots of the first 64 primes, the initial hash value
  those of the square roots of the first 8.  They are computed here from that description;
  \<open>root_bits e b x 0\<close> is the integer \<open>e\<close>-th root of \<open>x\<close>, found bit by bit from the top, for
  roots of at most \<open>b\<close> bits, and the conversion to a word drops the integral part.  The primes
  are sieved: a composite number below 19 * 19 has a divisor among the primes up to 17.
\<close>

fun root_bits :: "nat \<Rightarrow> nat \<Rightarrow> int \<Rightarrow> int \<Rightarrow> int" where
  "root_bits e 0 x r = r"
| "root_bits e (Suc b) x r =
     (let r' = r + 2 ^ b in root_bits e b x (if r' ^ e \<le> x then r' else r))"

definition root_frac :: "nat \<Rightarrow> int \<Rightarrow> int32" where
  "root_frac e p = word_of_int (root_bits e 37 (p * 2 ^ (32 * e)) 0)"

definition small_primes :: "int list" where
  "small_primes =
     filter (\<lambda>p. list_all (\<lambda>d. p = d \<or> p mod d \<noteq> 0) [2, 3, 5, 7, 11, 13, 17]) [2..311]"

definition sha_k :: "int32 list" where
  "sha_k = map (root_frac 3) small_primes"

definition sha_h0 :: "int32 list" where
  "sha_h0 = map (root_frac 2) (take 8 small_primes)"

text \<open>The computed root is the integer root, whenever the root fits into the given bits.\<close>

lemma root_bits_correct:
  assumes "0 \<le> r" and "r ^ e \<le> x" and "x < (r + 2 ^ b) ^ e"
  shows "root_bits e b x r ^ e \<le> x \<and> x < (root_bits e b x r + 1) ^ e"
  using assms
proof (induction b arbitrary: r)
  case 0
  then show ?case by simp
next
  case (Suc b)
  have two: "r + 2 ^ b + 2 ^ b = r + 2 ^ Suc b" by simp
  show ?case
    using Suc.IH [of r] Suc.IH [of "r + 2 ^ b"] Suc.prems
    by (simp add: Let_def two)
qed

lemma length_small_primes: "length small_primes = 64"
  by code_simp

text \<open>Padding: the bit 1, zeros up to 56 modulo 64 bytes, and the length in bits, big-endian.\<close>

definition byte_of :: "nat \<Rightarrow> char" where
  "byte_of n = char_of (n mod 256)"

definition be_bytes :: "nat \<Rightarrow> nat \<Rightarrow> char list" where
  "be_bytes k n = map (\<lambda>i. byte_of (n div 256 ^ (k - 1 - i))) [0..<k]"

definition sha_pad :: "char list \<Rightarrow> char list" where
  "sha_pad msg =
     msg @ [byte_of 128] @ replicate ((119 - length msg mod 64) mod 64) (byte_of 0)
         @ be_bytes 8 (8 * length msg)"

fun chunks :: "nat \<Rightarrow> 'a list \<Rightarrow> 'a list list" where
  "chunks n [] = []"
| "chunks n (x # xs) =
     (if n = 0 then [] else take n (x # xs) # chunks n (drop n (x # xs)))"

definition be_word :: "char list \<Rightarrow> int32" where
  "be_word bs = foldl (\<lambda>w b. push_bit 8 w OR of_nat (of_char b)) 0 bs"

text \<open>The message schedule, extended from the 16 words of a block to 64.\<close>

fun sha_extend :: "nat \<Rightarrow> int32 list \<Rightarrow> int32 list" where
  "sha_extend 0 ws = ws"
| "sha_extend (Suc n) ws =
     (let i = length ws;
          w15 = ws ! (i - 15); w2 = ws ! (i - 2);
          s0 = (rotr 7 w15 XOR rotr 18 w15) XOR drop_bit 3 w15;
          s1 = (rotr 17 w2 XOR rotr 19 w2) XOR drop_bit 10 w2
      in sha_extend n (ws @ [ws ! (i - 16) + s0 + ws ! (i - 7) + s1]))"

fun sha_round :: "int32 list \<Rightarrow> int32 \<times> int32 \<Rightarrow> int32 list" where
  "sha_round [a, b, c, d, e, f, g, h] (k, w) =
     (let s1 = (rotr 6 e XOR rotr 11 e) XOR rotr 25 e;
          ch = (e AND f) XOR (NOT e AND g);
          t1 = h + s1 + ch + k + w;
          s0 = (rotr 2 a XOR rotr 13 a) XOR rotr 22 a;
          maj = ((a AND b) XOR (a AND c)) XOR (b AND c)
      in [t1 + (s0 + maj), a, b, c, d + t1, e, f, g])"
| "sha_round hs kw = hs"

definition sha_block :: "int32 list \<Rightarrow> char list \<Rightarrow> int32 list" where
  "sha_block hs block =
     (let ws = sha_extend 48 (map be_word (chunks 4 block))
      in map2 (+) hs (foldl sha_round hs (zip sha_k ws)))"

definition Sum256 :: "char list \<Rightarrow> char list" where
  "Sum256 msg =
     concat (map (\<lambda>w. be_bytes 4 (unat w)) (foldl sha_block sha_h0 (chunks 64 (sha_pad msg))))"

definition hex_digit :: "nat \<Rightarrow> char" where
  "hex_digit d = (if d < 10 then char_of (48 + d) else char_of (87 + d))"

definition EncodeToString :: "char list \<Rightarrow> string" where
  "EncodeToString bs =
     concat (map (\<lambda>b. [hex_digit (of_char b div 16), hex_digit (of_char b mod 16)]) bs)"

lemma length_be_bytes [simp]: "length (be_bytes k n) = k"
  by (simp add: be_bytes_def)

lemma length_EncodeToString: "length (EncodeToString bs) = 2 * length bs"
  by (induction bs) (simp_all add: EncodeToString_def)

lemma length_sha_round [simp]: "length (sha_round hs kw) = length hs"
  by (induction hs kw rule: sha_round.induct) (simp_all add: Let_def)

lemma length_sha_rounds: "length (foldl sha_round hs kws) = length hs"
  by (induction kws arbitrary: hs) auto

lemma length_sha_block [simp]: "length (sha_block hs block) = length hs"
  by (simp add: sha_block_def Let_def length_sha_rounds)

lemma length_sha_blocks: "length (foldl sha_block hs blocks) = length hs"
  by (induction blocks arbitrary: hs) auto

lemma length_Sum256: "length (Sum256 msg) = 32"
proof -
  have four: "length (concat (map (\<lambda>w. be_bytes 4 (unat w)) ws)) = 4 * length ws" for ws :: "int32 list"
    by (induction ws) simp_all
  show ?thesis
    unfolding Sum256_def four length_sha_blocks by (simp add: sha_h0_def length_small_primes)
qed

end
