(* ===== verification/Auth_Tenant.thy ===== *)
theory Auth_Tenant
  imports Go_Text Sha256 "HOL-Library.AList"
begin

text \<open>
  Authentication and tenants (\<open>internal/auth\<close>, \<open>internal/tenant\<close>).

  \<^item> Static keys: the keys file (one \<open>id:sha256\<close> entry per line), \<open>Reload\<close> and
    \<open>Authenticate\<close>.  A file is its bytes and the read error that may end them.
  \<^item> OIDC: the checks Berth makes on a verified token.  Verification and discovery belong to
    \<open>go-oidc\<close> and are arguments of the definitions.
  \<^item> The default authorizer: a holder belongs to a tenant when it is the tenant's name or
    starts with that name and a slash.
\<close>

section \<open>Identities (auth.go, noauth.go)\<close>

record Identity =
  id_Holder :: string
  id_Tenant :: string
  id_Raw :: string

definition ValidateTenant :: "string \<Rightarrow> goerr option" where
  "ValidateTenant tenant =
     (if ContainsChar tenant CHR ''/''
      then Some (ErrText ''tenant id must not contain / (reserved for holder scoping)'') else None)"

definition NoOp_Authenticate :: "string \<Rightarrow> Identity outcome" where
  "NoOp_Authenticate token = Inr \<lparr>id_Holder = ''anonymous'', id_Tenant = ''anonymous'', id_Raw = []\<rparr>"

section \<open>Static keys (static.go)\<close>

definition hashToken :: "string \<Rightarrow> string" where
  "hashToken token = EncodeToString (Sum256 token)"

definition hex_char :: "char \<Rightarrow> bool" where
  "hex_char c \<longleftrightarrow>
     (let n = (of_char c :: nat) in 48 \<le> n \<and> n \<le> 57 \<or> 97 \<le> n \<and> n \<le> 102)"

definition validHex256 :: "string \<Rightarrow> bool" where
  "validHex256 s \<longleftrightarrow> length s = 64 \<and> list_all hex_char s"

type_synonym keyset = "(string \<times> Identity) list"

text \<open>
  \<open>bufio.Scanner\<close> with its default split function: lines end at a newline, one trailing
  carriage return is dropped, an unterminated last line counts unless it is empty, and a line
  that does not fit the buffer of 64 KiB stops the scan with an error.
\<close>

definition drop_cr :: "string \<Rightarrow> string" where
  "drop_cr s = (if s \<noteq> [] \<and> last s = CHR 0x0D then butlast s else s)"

definition raw_lines :: "string \<Rightarrow> string list" where
  "raw_lines content =
     (let ls = go_Split content CHR 0x0A in if last ls = [] then butlast ls else ls)"

definition MaxScanTokenSize :: nat where
  "MaxScanTokenSize = 65536"

definition keys_line :: "keyset \<Rightarrow> string \<Rightarrow> keyset outcome" where
  "keys_line keys line =
     (let txt = TrimSpace (drop_cr line) in
      if txt = [] \<or> HasPrefix txt ''#'' then Inr keys
      else
        (case SplitN2 txt CHR '':'' of
           [a, b] \<Rightarrow>
             (let keyID = TrimSpace a; hashHex = TrimSpace b in
              if keyID = [] then Inl (ErrText ''keys file: empty key id'')
              else
                (case ValidateTenant keyID of
                   Some err \<Rightarrow> Inl (ErrWrap ''keys file: '' err)
                 | None \<Rightarrow>
                     if \<not> validHex256 hashHex
                     then Inl (ErrText ''keys file: hash must be 64 lowercase hex chars'')
                     else if map_of keys hashHex \<noteq> None
                     then Inl (ErrText ''keys file: duplicate hash for key id'')
                     else Inr (AList.update hashHex
                            \<lparr>id_Holder = keyID, id_Tenant = keyID, id_Raw = []\<rparr> keys)))
         | parts \<Rightarrow> Inl (ErrText ''keys file: expected <key-id>:<sha256-hex>'')))"

fun keys_lines :: "string list \<Rightarrow> goerr option \<Rightarrow> keyset \<Rightarrow> keyset outcome" where
  "keys_lines [] readErr keys =
     (case readErr of
        Some err \<Rightarrow> Inl (ErrWrap ''scan keys file: '' err)
      | None \<Rightarrow> Inr keys)"
| "keys_lines (l # ls) readErr keys =
     (if length l \<ge> MaxScanTokenSize
      then Inl (ErrWrap ''scan keys file: '' (ErrText ''bufio.Scanner: token too long''))
      else
        (case keys_line keys l of
           Inl err \<Rightarrow> Inl err
         | Inr keys' \<Rightarrow> keys_lines ls readErr keys'))"

type_synonym filesys = "string \<Rightarrow> (string \<times> goerr option) outcome"

definition loadKeysFile :: "filesys \<Rightarrow> string \<Rightarrow> keyset outcome" where
  "loadKeysFile fs path =
     (case fs path of
        Inl err \<Rightarrow> Inl (ErrWrap ''open keys file: '' err)
      | Inr (content, readErr) \<Rightarrow> keys_lines (raw_lines content) readErr [])"

record StaticAuthenticator =
  sa_keys :: keyset
  sa_filePath :: string

definition NewStaticAuthenticator :: "(string \<times> Identity) list \<Rightarrow> StaticAuthenticator" where
  "NewStaticAuthenticator keys =
     \<lparr>sa_keys = fold (\<lambda>(raw, i) ks. AList.update (hashToken raw) i ks) keys [], sa_filePath = []\<rparr>"

definition Static_Reload :: "filesys \<Rightarrow> StaticAuthenticator \<Rightarrow> goerr option \<times> StaticAuthenticator" where
  "Static_Reload fs a =
     (if sa_filePath a = [] then (Some (ErrText ''static auth: no file path configured for reload''), a)
      else
        (case loadKeysFile fs (sa_filePath a) of
           Inl err \<Rightarrow> (Some err, a)
         | Inr keys \<Rightarrow> (None, a\<lparr>sa_keys := keys\<rparr>)))"

definition NewStaticAuthenticatorFromKeysFile :: "filesys \<Rightarrow> string \<Rightarrow> StaticAuthenticator outcome" where
  "NewStaticAuthenticatorFromKeysFile fs path =
     (if path = [] then Inl (ErrText ''static auth: keys file path is required'')
      else
        (case Static_Reload fs \<lparr>sa_keys = [], sa_filePath = path\<rparr> of
           (Some err, a) \<Rightarrow> Inl err
         | (None, a) \<Rightarrow> Inr a))"

definition Static_Authenticate :: "StaticAuthenticator \<Rightarrow> string \<Rightarrow> Identity outcome" where
  "Static_Authenticate a token =
     (if token = [] then Inl (ErrText ''static auth: empty token'')
      else
        (case map_of (sa_keys a) (hashToken token) of
           None \<Rightarrow> Inl (ErrText ''static auth: unauthorized'')
         | Some i \<Rightarrow>
             if ValidateTenant (id_Tenant i) \<noteq> None
             then Inl (ErrText ''static auth: unauthorized'') else Inr i))"

section \<open>OIDC (oidc.go)\<close>

datatype claim = CStr string | CArr "claim list" | COther

type_synonym claims = "(string \<times> claim) list"

record OIDCConfig =
  oc_IssuerURL :: string
  oc_Audience :: string
  oc_JWKSURL :: string
  oc_RequiredClaims :: "(string \<times> string) list"
  oc_UsernameClaim :: string
  oc_TenantClaim :: string

record OIDCAuthenticator =
  oa_issuer :: string
  oa_jwksURL :: string
  oa_clientID :: string
  oa_requiredClaims :: "(string \<times> string) list"
  oa_usernameClaim :: string
  oa_tenantClaim :: string

definition defaultStr :: "string \<Rightarrow> string \<Rightarrow> string" where
  "defaultStr s d = (if s = [] then d else s)"

text \<open>
  \<open>discover\<close> stands for \<open>oidc.NewProvider\<close>: a provider, or an error; \<open>metadata\<close> for reading
  \<open>jwks_uri\<close> from its discovery document.
\<close>

definition NewOIDCAuthenticator ::
  "(string \<Rightarrow> 'p outcome) \<Rightarrow> ('p \<Rightarrow> string outcome) \<Rightarrow> OIDCConfig \<Rightarrow> OIDCAuthenticator outcome"
where
  "NewOIDCAuthenticator discover metadata cfg =
     (if oc_IssuerURL cfg = [] then Inl (ErrText ''oidc: issuer URL is required'')
      else if oc_Audience cfg = [] then Inl (ErrText ''oidc: audience is required'')
      else
        (let mk = (\<lambda>jwks. \<lparr>oa_issuer = oc_IssuerURL cfg, oa_jwksURL = jwks, oa_clientID = oc_Audience cfg,
                           oa_requiredClaims = oc_RequiredClaims cfg,
                           oa_usernameClaim = defaultStr (oc_UsernameClaim cfg) ''sub'',
                           oa_tenantClaim = defaultStr (oc_TenantClaim cfg) ''sub''\<rparr>)
         in if oc_JWKSURL cfg \<noteq> [] then Inr (mk (oc_JWKSURL cfg))
            else
              (case discover (oc_IssuerURL cfg) of
                 Inl err \<Rightarrow> Inl (ErrWrap ''oidc: discover provider: '' err)
               | Inr p \<Rightarrow>
                   (case metadata p of
                      Inl err \<Rightarrow> Inl (ErrWrap ''oidc: read discovery claims: '' err)
                    | Inr jwks \<Rightarrow>
                        if jwks = [] then Inl (ErrText ''oidc: provider discovery doc missing jwks_uri'')
                        else Inr (mk jwks)))))"

definition claimContains :: "claims \<Rightarrow> string \<Rightarrow> string \<Rightarrow> bool" where
  "claimContains cs key want \<longleftrightarrow>
     (case map_of cs key of
        None \<Rightarrow> False
      | Some (CStr v) \<Rightarrow> v = want
      | Some (CArr vs) \<Rightarrow> list_ex (\<lambda>v. v = CStr want) vs
      | Some COther \<Rightarrow> False)"

definition claimAsString :: "claims \<Rightarrow> string \<Rightarrow> string" where
  "claimAsString cs key =
     (case map_of cs key of
        None \<Rightarrow> []
      | Some (CStr v) \<Rightarrow> v
      | Some (CArr vs) \<Rightarrow> (case vs of CStr v # rest \<Rightarrow> v | other \<Rightarrow> [])
      | Some COther \<Rightarrow> [])"

text \<open>\<open>verify\<close> stands for the token verifier, \<open>read_claims\<close> for decoding a verified token.\<close>

definition OIDC_Authenticate ::
  "(OIDCAuthenticator \<Rightarrow> string \<Rightarrow> 't outcome) \<Rightarrow> ('t \<Rightarrow> claims outcome) \<Rightarrow>
   OIDCAuthenticator \<Rightarrow> string \<Rightarrow> Identity outcome"
where
  "OIDC_Authenticate verify read_claims a token =
     (if token = [] then Inl (ErrText ''oidc: empty token'')
      else
        (case verify a token of
           Inl err \<Rightarrow> Inl (ErrText ''oidc: unauthorized'')
         | Inr t \<Rightarrow>
             (case read_claims t of
                Inl err \<Rightarrow> Inl (ErrText ''oidc: unauthorized'')
              | Inr cs \<Rightarrow>
                  if \<not> list_all (\<lambda>(k, want). claimContains cs k want) (oa_requiredClaims a)
                  then Inl (ErrText ''oidc: unauthorized'')
                  else
                    (let tenant = claimAsString cs (oa_tenantClaim a) in
                     if ValidateTenant tenant \<noteq> None then Inl (ErrText ''oidc: unauthorized'')
                     else Inr \<lparr>id_Holder = claimAsString cs (oa_usernameClaim a),
                               id_Tenant = tenant, id_Raw = []\<rparr>))))"

section \<open>Tenants (authorizer.go)\<close>

definition ResolveTenant :: "Identity option \<Rightarrow> string outcome" where
  "ResolveTenant i =
     (case i of
        None \<Rightarrow> Inl (ErrText ''nil identity'')
      | Some x \<Rightarrow>
          if id_Tenant x = [] then Inl (ErrText ''identity carries no tenant'') else Inr (id_Tenant x))"

definition resolveTenant :: "(Identity option \<Rightarrow> string outcome) \<Rightarrow> Identity option \<Rightarrow> string outcome" where
  "resolveTenant resolver i =
     (case resolver i of
        Inl err \<Rightarrow> Inl err
      | Inr tenant \<Rightarrow>
          (case ValidateTenant tenant of Some err \<Rightarrow> Inl err | None \<Rightarrow> Inr tenant))"

definition AuthorizeNamespace ::
  "(Identity option \<Rightarrow> string outcome) \<Rightarrow> Identity option \<Rightarrow> string \<Rightarrow> goerr option"
where
  "AuthorizeNamespace resolver i namespace =
     (case resolveTenant resolver i of Inl err \<Rightarrow> Some err | Inr tenant \<Rightarrow> None)"

definition AuthorizeHolder ::
  "(Identity option \<Rightarrow> string outcome) \<Rightarrow> Identity option \<Rightarrow> string \<Rightarrow> goerr option"
where
  "AuthorizeHolder resolver i holder =
     (case resolveTenant resolver i of
        Inl err \<Rightarrow> Some err
      | Inr tenant \<Rightarrow>
          if holder = tenant \<or> HasPrefix holder (tenant @ ''/'') then None
          else Some (ErrText ''holder is not within tenant''))"

section \<open>Holders determine tenants\<close>

lemma ValidateTenant_None: "ValidateTenant t = None \<longleftrightarrow> CHR ''/'' \<notin> set t"
  by (simp add: ValidateTenant_def ContainsChar_def)

lemma AuthorizeHolder_None:
  "AuthorizeHolder ResolveTenant i h = None \<longleftrightarrow>
     (\<exists>x. i = Some x \<and> id_Tenant x \<noteq> [] \<and> CHR ''/'' \<notin> set (id_Tenant x) \<and>
        (h = id_Tenant x \<or> prefix (id_Tenant x @ ''/'') h))"
  by (auto simp: AuthorizeHolder_def resolveTenant_def ResolveTenant_def HasPrefix_def
      ValidateTenant_None [symmetric] split: option.splits if_splits)

lemma owned_holder_root:
  assumes "c \<notin> set t" and "h = t \<or> prefix (t @ [c]) h"
  shows "takeWhile (\<lambda>x. x \<noteq> c) h = t"
proof -
  have all: "takeWhile (\<lambda>x. x \<noteq> c) t = t"
    using assms(1) by (auto simp: takeWhile_eq_all_conv)
  show ?thesis
    using assms all by (auto elim!: prefixE simp: takeWhile_append)
qed

section \<open>The keys file\<close>

text \<open>Every entry of a loaded key set has a valid hash and names a usable tenant.\<close>

definition keys_ok :: "keyset \<Rightarrow> bool" where
  "keys_ok keys \<longleftrightarrow>
     (\<forall>h i. map_of keys h = Some i \<longrightarrow>
        validHex256 h \<and> id_Tenant i \<noteq> [] \<and> ValidateTenant (id_Tenant i) = None \<and> id_Holder i = id_Tenant i)"

lemma keys_line_ok:
  assumes "keys_line keys l = Inr keys'" and "keys_ok keys"
  shows "keys_ok keys'"
  using assms
  by (auto simp: keys_line_def keys_ok_def Let_def update_conv'
      split: if_splits list.splits option.splits)

lemma keys_lines_ok:
  "keys_lines ls readErr keys = Inr keys' \<Longrightarrow> keys_ok keys \<Longrightarrow> keys_ok keys'"
  by (induction ls readErr keys rule: keys_lines.induct)
    (auto split: option.splits if_splits sum.splits dest: keys_line_ok)

lemma loadKeysFile_ok: "loadKeysFile fs path = Inr keys \<Longrightarrow> keys_ok keys"
proof -
  have "keys_ok []" by (simp add: keys_ok_def)
  then show "loadKeysFile fs path = Inr keys \<Longrightarrow> keys_ok keys"
    by (auto simp: loadKeysFile_def split: sum.splits intro: keys_lines_ok)
qed

text \<open>Writing a key set in the documented format, one entry per line.\<close>

definition render_entry :: "string \<times> string \<Rightarrow> string" where
  "render_entry e = fst e @ '':'' @ snd e"

definition render_keys :: "(string \<times> string) list \<Rightarrow> string" where
  "render_keys es = concat (map (\<lambda>e. render_entry e @ [CHR 0x0A]) es)"

definition entry_ok :: "string \<times> string \<Rightarrow> bool" where
  "entry_ok e \<longleftrightarrow>
     fst e \<noteq> [] \<and> list_all printable (fst e) \<and> hd (fst e) \<noteq> CHR ''#'' \<and>
     CHR '':'' \<notin> set (fst e) \<and> CHR ''/'' \<notin> set (fst e) \<and> length (fst e) < 60000 \<and> validHex256 (snd e)"

definition entry_key :: "string \<times> string \<Rightarrow> string \<times> Identity" where
  "entry_key e = (snd e, \<lparr>id_Holder = fst e, id_Tenant = fst e, id_Raw = []\<rparr>)"

lemma go_Split_line: "c \<notin> set l \<Longrightarrow> go_Split (l @ c # rest) c = l # go_Split rest c"
  by (induction l) auto

lemma raw_lines_render:
  assumes "\<forall>l \<in> set ls. CHR 0x0A \<notin> set l"
  shows "raw_lines (concat (map (\<lambda>l. l @ [CHR 0x0A]) ls)) = ls"
proof -
  have "go_Split (concat (map (\<lambda>l. l @ [CHR 0x0A]) ls)) CHR 0x0A = ls @ [[]]"
    using assms by (induction ls) (simp_all add: go_Split_line)
  then show ?thesis by (simp add: raw_lines_def)
qed

lemma hex_printable: "hex_char c \<Longrightarrow> printable c"
  by (auto simp: hex_char_def printable_def Let_def)

lemma entry_chars:
  assumes "entry_ok e"
  shows "list_all printable (render_entry e)" "render_entry e \<noteq> []"
    "hd (render_entry e) = hd (fst e)" "length (render_entry e) < MaxScanTokenSize"
proof -
  have "list_all printable (snd e)"
    using assms by (auto simp: entry_ok_def validHex256_def list_all_iff hex_printable)
  moreover have "printable CHR '':''" by (simp add: printable_def)
  ultimately show "list_all printable (render_entry e)"
    using assms by (simp add: render_entry_def entry_ok_def)
  show "hd (render_entry e) = hd (fst e)" "render_entry e \<noteq> []"
    using assms by (simp_all add: render_entry_def entry_ok_def)
  show "length (render_entry e) < MaxScanTokenSize"
    using assms by (simp add: render_entry_def entry_ok_def validHex256_def MaxScanTokenSize_def)
qed

lemma printable_ends: "list_all printable s \<Longrightarrow> s = [] \<or> printable (hd s) \<and> printable (last s)"
  by (cases "s = []") (simp_all add: list_all_iff)

lemma not_printable_controls: "\<not> printable CHR 0x0A" "\<not> printable CHR 0x0D"
  by (simp_all add: printable_def)

lemma keys_line_render:
  assumes "entry_ok e" and "map_of keys (snd e) = None"
  shows "keys_line keys (render_entry e) = Inr (keys @ [entry_key e])"
proof -
  note chars = entry_chars [OF assms(1)]
  have cr: "drop_cr (render_entry e) = render_entry e"
    using printable_ends [OF chars(1)] chars(2) not_printable_controls(2)
    by (auto simp: drop_cr_def)
  have "list_all printable (fst e)" "list_all printable (snd e)"
    using chars(1) by (simp_all add: render_entry_def)
  then have trims: "TrimSpace (render_entry e) = render_entry e" "TrimSpace (fst e) = fst e"
    "TrimSpace (snd e) = snd e"
    using chars(1) by (simp_all add: TrimSpace_printable printable_ends)
  have split: "SplitN2 (render_entry e) CHR '':'' = [fst e, snd e]"
    using SplitN2_append [of "CHR '':''" "fst e" "snd e"] assms(1)
    by (simp add: render_entry_def entry_ok_def)
  have "AList.update (snd e) v keys = keys @ [(snd e, v)]" for v
    using assms(2) by (induction keys) (auto split: if_splits)
  moreover have "\<not> HasPrefix (render_entry e) ''#''"
    using chars(2,3) assms(1) by (cases "render_entry e") (auto simp: HasPrefix_def entry_ok_def)
  moreover have "ValidateTenant (fst e) = None"
    using assms(1) by (simp add: ValidateTenant_None entry_ok_def)
  ultimately show ?thesis
    unfolding keys_line_def cr trims(1) Let_def
    using assms chars(2)
    by (simp add: split trims entry_ok_def entry_key_def)
qed

lemma keys_lines_render:
  assumes "\<forall>e \<in> set es. entry_ok e" and "distinct (map snd es)"
    and "\<forall>e \<in> set es. map_of keys (snd e) = None"
  shows "keys_lines (map render_entry es) None keys = Inr (keys @ map entry_key es)"
  using assms
proof (induction es arbitrary: keys)
  case Nil
  then show ?case by simp
next
  case (Cons e es)
  have "\<forall>x \<in> set es. map_of (keys @ [entry_key e]) (snd x) = None"
    using Cons.prems(2,3) by (auto simp: entry_key_def image_iff)
  with Cons.IH [of "keys @ [entry_key e]"] Cons.prems keys_line_render [of e keys] entry_chars(4) [of e]
  show ?case by simp
qed

section \<open>Properties\<close>

text \<open>
  C15. Tenants cannot act for each other: under the default policy no holder is authorized for
  two identities of different tenants, so a caller cannot acquire, renew or release a lease as a
  holder of another tenant.
\<close>

theorem holders_of_tenants_are_disjoint:
  assumes "AuthorizeHolder ResolveTenant (Some i) h = None"
    and "AuthorizeHolder ResolveTenant (Some j) h = None"
  shows "id_Tenant i = id_Tenant j"
proof -
  have "takeWhile (\<lambda>x. x \<noteq> CHR ''/'') h = id_Tenant i" "takeWhile (\<lambda>x. x \<noteq> CHR ''/'') h = id_Tenant j"
    using assms by (auto simp: AuthorizeHolder_None intro!: owned_holder_root)
  then show ?thesis by simp
qed

theorem holders_of_tenants_are_disjoint_witness:
  "id_Tenant \<lparr>id_Holder = ''x'', id_Tenant = ''team-a'', id_Raw = []\<rparr> =
   id_Tenant \<lparr>id_Holder = ''y'', id_Tenant = ''team-a'', id_Raw = []\<rparr>"
proof -
  have "AuthorizeHolder ResolveTenant (Some \<lparr>id_Holder = ''x'', id_Tenant = ''team-a'', id_Raw = []\<rparr>)
      ''team-a/pod-1'' = None"
    "AuthorizeHolder ResolveTenant (Some \<lparr>id_Holder = ''y'', id_Tenant = ''team-a'', id_Raw = []\<rparr>)
      ''team-a/pod-1'' = None"
    by code_simp+
  from holders_of_tenants_are_disjoint [OF this] show ?thesis .
qed

text \<open>
  C16. Reloading the keys file is atomic and fails safe: either it reports an error and the key
  set is unchanged, or it installs a key set in which every hash is 64 lower-case hexadecimal
  digits and every identity has a non-empty tenant without a slash.
\<close>

theorem reload_keeps_keys_on_error:
  "case Static_Reload fs a of
     (Some err, a') \<Rightarrow> a' = a
   | (None, a') \<Rightarrow> keys_ok (sa_keys a') \<and> sa_filePath a' = sa_filePath a"
  by (auto simp: Static_Reload_def loadKeysFile_ok split: sum.splits)

text \<open>
  C17. The keys file round trip: a file written in the documented format, with usable ids and
  distinct hashes, loads into exactly those entries, in order; a token is then accepted exactly
  when its SHA-256 hash is one of them, and the identity is the id on that line.
\<close>

theorem keys_file_round_trip:
  assumes "path \<noteq> []" and "fs path = Inr (render_keys es, None)"
    and "\<forall>e \<in> set es. entry_ok e" and "distinct (map snd es)"
  shows "\<exists>a. NewStaticAuthenticatorFromKeysFile fs path = Inr a \<and> sa_keys a = map entry_key es \<and>
    (\<forall>token i. Static_Authenticate a token = Inr i \<longleftrightarrow>
       token \<noteq> [] \<and> (hashToken token, i) \<in> set (map entry_key es))"
proof -
  have "CHR 0x0A \<notin> set (render_entry e)" if "e \<in> set es" for e
    using entry_chars(1) [of e] assms(3) that not_printable_controls by (auto simp: list_all_iff)
  then have "raw_lines (render_keys es) = map render_entry es"
    using raw_lines_render [of "map render_entry es"] by (simp add: render_keys_def comp_def)
  then have load: "loadKeysFile fs path = Inr (map entry_key es)"
    using keys_lines_render [OF assms(3,4), of "[]"] assms(2) by (simp add: loadKeysFile_def)
  have distinct: "distinct (map fst (map entry_key es))"
    using assms(4) by (simp add: entry_key_def comp_def)
  have found: "map_of (map entry_key es) h = Some i \<longleftrightarrow> (h, i) \<in> set (map entry_key es)" for h i
    using distinct by (rule map_of_distinct_conv)
  have valid: "ValidateTenant (id_Tenant i) = None" if "(h, i) \<in> set (map entry_key es)" for h i
    using that assms(3) by (auto simp: entry_key_def entry_ok_def ValidateTenant_None)
  have "Static_Authenticate \<lparr>sa_keys = map entry_key es, sa_filePath = path\<rparr> token = Inr i \<longleftrightarrow>
      token \<noteq> [] \<and> (hashToken token, i) \<in> set (map entry_key es)" for token i
    unfolding found [symmetric] Static_Authenticate_def
    using valid [unfolded found [symmetric], of "hashToken token"] by (simp split: option.split)
  with load assms(1) show ?thesis
    by (simp add: NewStaticAuthenticatorFromKeysFile_def Static_Reload_def)
qed

definition sample_hash :: string where
  "sample_hash = replicate 64 CHR ''a''"

theorem keys_file_round_trip_witness:
  "\<exists>a. NewStaticAuthenticatorFromKeysFile (\<lambda>p. Inr (render_keys [(''team-a'', sample_hash)], None)) ''keys'' = Inr a \<and>
     sa_keys a = [(sample_hash, \<lparr>id_Holder = ''team-a'', id_Tenant = ''team-a'', id_Raw = []\<rparr>)]"
proof -
  have "entry_ok (''team-a'', sample_hash)"
    by (simp add: entry_ok_def sample_hash_def validHex256_def hex_char_def printable_def list_all_iff)
  then have "\<forall>e \<in> set [(''team-a'', sample_hash)]. entry_ok e" by simp
  from keys_file_round_trip [OF _ _ this, of "''keys''" "\<lambda>p. Inr (render_keys [(''team-a'', sample_hash)], None)"]
  show ?thesis by (auto simp: entry_key_def)
qed

end
