(* ===== verification/API_Server.thy ===== *)
theory API_Server
  imports Lease_Spec Auth_Tenant
begin

text \<open>
  The HTTP layer of the API server (\<open>internal/api\<close>): decoding and checking of requests,
  authentication and authorization, the three lease handlers, the error envelope with its
  correlation id, and the readiness gate.

  A request carries the segments of its path after unescaping, the three headers the code
  reads, its body with the read error that may end it, and the 16 random bytes that a fresh
  correlation id would draw.  The JSON decoder is an argument: for a body it yields the result
  of the first \<open>Decode\<close>, and whether a second \<open>Decode\<close> meets the end of the input; what is
  proved holds for every decoder.  The manager's store, clock and validators are arguments as
  in the manager's theory.  The observability label a handler records is part of its result.
\<close>

section \<open>Requests and responses\<close>

record http_request =
  rq_Method :: string
  rq_Segments :: "string list"
  rq_Authorization :: string
  rq_XRequestId :: string
  rq_Traceparent :: string
  rq_Body :: "string \<times> goerr option"
  rq_Random :: "string option"

record LeaseResponse =
  lr_Acquired :: bool
  lr_Holder :: string
  lr_FencingToken :: int32
  lr_ExpiresAt :: time
  lr_AcquiredAt :: time

datatype resp_body =
    BodyError string string
  | BodyLease LeaseResponse
  | BodyPlain string
  | BodyEmpty

record http_response =
  rs_Status :: nat
  rs_Body :: resp_body

record AcquireRequest =
  aq_Holder :: string
  aq_TTLSeconds :: int32

record RenewRequest =
  rn_Holder :: string
  rn_FencingToken :: int32
  rn_TTLSeconds :: int32

record ReleaseRequest =
  rl_Holder :: string
  rl_FencingToken :: int32

definition leaseResponseFrom :: "AcquireResult \<Rightarrow> LeaseResponse" where
  "leaseResponseFrom r =
     \<lparr>lr_Acquired = ar_Acquired r, lr_Holder = ar_Holder r, lr_FencingToken = ar_FencingToken r,
      lr_ExpiresAt = ar_ExpiresAt r, lr_AcquiredAt = ar_AcquiredAt r\<rparr>"

definition writeJSON :: "nat \<Rightarrow> resp_body \<Rightarrow> http_response" where
  "writeJSON status body = \<lparr>rs_Status = status, rs_Body = body\<rparr>"

definition writeError :: "nat \<Rightarrow> string \<Rightarrow> http_response" where
  "writeError status msg = writeJSON status (BodyError msg [])"

definition writePlain :: "nat \<Rightarrow> string \<Rightarrow> http_response" where
  "writePlain status body = \<lparr>rs_Status = status, rs_Body = BodyPlain body\<rparr>"

text \<open>The label recorded for the logs and metrics; \<open>None\<close> when a path records nothing.\<close>

datatype outcome_label =
    outcomeAcquired
  | outcomeHeldByOther
  | outcomeRenewed
  | outcomeReleased
  | outcomeConflict
  | outcomeUnauthorized
  | outcomeInvalidKey
  | outcomeError

type_synonym 's handled = "http_response \<times> outcome_label option \<times> 's"

section \<open>Correlation ids (obs.go)\<close>

definition safe_id_char :: "char \<Rightarrow> bool" where
  "safe_id_char c \<longleftrightarrow>
     (let n = (of_char c :: nat) in
      97 \<le> n \<and> n \<le> 122 \<or> 65 \<le> n \<and> n \<le> 90 \<or> 48 \<le> n \<and> n \<le> 57 \<or> n = 45 \<or> n = 95)"

definition isSafeRequestID :: "string \<Rightarrow> bool" where
  "isSafeRequestID s \<longleftrightarrow> s \<noteq> [] \<and> length s \<le> 64 \<and> list_all safe_id_char s"

definition isHex :: "string \<Rightarrow> bool" where
  "isHex s \<longleftrightarrow> list_all hex_char s \<and> 0 < length s"

definition traceID :: "string \<Rightarrow> string" where
  "traceID tp =
     (if length tp < 2 + 1 + 32 + 1 \<or> tp ! 2 \<noteq> CHR ''-'' then []
      else
        (let i = take 32 (drop 3 tp) in
         if tp ! 35 \<noteq> CHR ''-'' \<or> \<not> isHex i then [] else i))"

definition randomID :: "string option \<Rightarrow> string" where
  "randomID r = (case r of None \<Rightarrow> ''unknown'' | Some bs \<Rightarrow> EncodeToString (take 16 bs))"

definition requestID :: "http_request \<Rightarrow> string" where
  "requestID r =
     (if isSafeRequestID (rq_XRequestId r) then rq_XRequestId r
      else if rq_Traceparent r \<noteq> [] \<and> traceID (rq_Traceparent r) \<noteq> [] then traceID (rq_Traceparent r)
      else randomID (rq_Random r))"

text \<open>
  \<open>ctxID\<close> is \<open>RequestIDFromContext\<close>: the id the logging middleware assigned, or the empty string
  when that middleware is not installed.
\<close>

definition LoggingMiddleware_id :: "http_request \<Rightarrow> string" where
  "LoggingMiddleware_id r = requestID r"

definition writeInternalError :: "http_request \<Rightarrow> string \<Rightarrow> http_response" where
  "writeInternalError r ctxID =
     (let i = (if ctxID = [] then requestID r else ctxID)
      in writeJSON 500 (BodyError ''internal error'' i))"

section \<open>Decoding and checks (leases.go)\<close>

definition maxLeaseBodyBytes :: nat where
  "maxLeaseBodyBytes = 4096"

definition decodeJSON :: "(string \<Rightarrow> 'r outcome \<times> bool) \<Rightarrow> http_request \<Rightarrow> http_response + 'r" where
  "decodeJSON dec r =
     (let (content, readErr) = rq_Body r in
      if length content > maxLeaseBodyBytes
      then Inl (writeError 413 ''request body must be at most 4096 bytes'')
      else if readErr \<noteq> None then Inl (writeError 400 ''could not read request body'')
      else
        (case fst (dec content) of
           Inl err \<Rightarrow> Inl (writeError 400 ''invalid json body'')
         | Inr v \<Rightarrow>
             if \<not> snd (dec content) then Inl (writeError 400 ''request body must contain one JSON object'')
             else Inr v))"

record authorizer =
  az_Namespace :: "Identity option \<Rightarrow> string \<Rightarrow> goerr option"
  az_Holder :: "Identity option \<Rightarrow> string \<Rightarrow> goerr option"

definition NewDefaultAuthorizer :: authorizer where
  "NewDefaultAuthorizer =
     \<lparr>az_Namespace = AuthorizeNamespace ResolveTenant, az_Holder = AuthorizeHolder ResolveTenant\<rparr>"

text \<open>\<open>authorize\<close> answers \<open>None\<close> to allow, and the response it wrote to deny.\<close>

definition authorize ::
  "authorizer option \<Rightarrow> Identity option \<Rightarrow> string \<Rightarrow> string \<Rightarrow> http_response option"
where
  "authorize authz ident namespace holder =
     (case ident of
        None \<Rightarrow> None
      | Some i \<Rightarrow>
          (case authz of
             None \<Rightarrow> Some (writeError 403 ''forbidden'')
           | Some az \<Rightarrow>
               if az_Namespace az (Some i) namespace \<noteq> None
               then Some (writeError 403 ''not authorized for this namespace'')
               else if az_Holder az (Some i) holder \<noteq> None
               then Some (writeError 403 ''holder not authorized for this identity'')
               else None))"

fun errText :: "goerr \<Rightarrow> string" where
  "errText ErrNotFound = ''lease: not found''"
| "errText ErrConflict = ''lease: conflict''"
| "errText ClientErrConflict = ''lease held by another identity or token''"
| "errText ErrCtxDone = ''context canceled''"
| "errText (ErrText m) = m"
| "errText (ErrWrap m e) = m @ errText e"
| "errText (ErrJoin a b) = errText a @ [CHR 0x0A] @ errText b"

definition handleAcquire ::
  "dns1123 \<Rightarrow> 's Store \<Rightarrow> (nat \<Rightarrow> time) \<Rightarrow> authorizer option \<Rightarrow> (string \<Rightarrow> AcquireRequest outcome \<times> bool) \<Rightarrow>
   string \<Rightarrow> Key \<Rightarrow> Identity option \<Rightarrow> http_request \<Rightarrow> 's \<Rightarrow> 's handled"
where
  "handleAcquire V S clk authz dec ctxID key ident r s =
     (case decodeJSON dec r of
        Inl resp \<Rightarrow> (resp, None, s)
      | Inr req \<Rightarrow>
          (case ValidateHolder (aq_Holder req) of
             Some err \<Rightarrow> (writeError 400 (errText err), None, s)
           | None \<Rightarrow>
               if sint (aq_TTLSeconds req) \<le> 0
               then (writeError 400 ''ttlSeconds must be positive'', None, s)
               else
                 (case authorize authz ident (key_Namespace key) (aq_Holder req) of
                    Some resp \<Rightarrow> (resp, None, s)
                  | None \<Rightarrow>
                      (case ValidateKey V key of
                         Some err \<Rightarrow> (writeError 400 (errText err), Some outcomeInvalidKey, s)
                       | None \<Rightarrow>
                           (let (x, s') = Manager_Acquire V S clk key (aq_Holder req)
                                            (seconds (sint (aq_TTLSeconds req))) s
                            in case x of
                                 Inl err \<Rightarrow> (writeInternalError r ctxID, Some outcomeError, s')
                               | Inr res \<Rightarrow>
                                   (writeJSON 200 (BodyLease (leaseResponseFrom res)),
                                    Some (if ar_Acquired res then outcomeAcquired else outcomeHeldByOther),
                                    s'))))))"

definition handleRenew ::
  "dns1123 \<Rightarrow> 's Store \<Rightarrow> time \<Rightarrow> authorizer option \<Rightarrow> (string \<Rightarrow> RenewRequest outcome \<times> bool) \<Rightarrow>
   string \<Rightarrow> Key \<Rightarrow> Identity option \<Rightarrow> http_request \<Rightarrow> 's \<Rightarrow> 's handled"
where
  "handleRenew V S now authz dec ctxID key ident r s =
     (case decodeJSON dec r of
        Inl resp \<Rightarrow> (resp, None, s)
      | Inr req \<Rightarrow>
          (case ValidateHolder (rn_Holder req) of
             Some err \<Rightarrow> (writeError 400 (errText err), None, s)
           | None \<Rightarrow>
               if rn_FencingToken req = 0
               then (writeError 400 ''fencingToken must be non-zero'', None, s)
               else if sint (rn_TTLSeconds req) \<le> 0
               then (writeError 400 ''ttlSeconds must be positive'', None, s)
               else
                 (case authorize authz ident (key_Namespace key) (rn_Holder req) of
                    Some resp \<Rightarrow> (resp, None, s)
                  | None \<Rightarrow>
                      (case ValidateKey V key of
                         Some err \<Rightarrow> (writeError 400 (errText err), Some outcomeInvalidKey, s)
                       | None \<Rightarrow>
                           (let (x, s') = Manager_Renew V S now key (rn_Holder req) (rn_FencingToken req)
                                            (seconds (sint (rn_TTLSeconds req))) s
                            in case x of
                                 Inl err \<Rightarrow> (writeInternalError r ctxID, Some outcomeError, s')
                               | Inr res \<Rightarrow>
                                   (writeJSON 200 (BodyLease (leaseResponseFrom res)),
                                    Some (if ar_Acquired res then outcomeRenewed else outcomeHeldByOther),
                                    s'))))))"

definition handleRelease ::
  "dns1123 \<Rightarrow> 's Store \<Rightarrow> time \<Rightarrow> authorizer option \<Rightarrow> (string \<Rightarrow> ReleaseRequest outcome \<times> bool) \<Rightarrow>
   string \<Rightarrow> Key \<Rightarrow> Identity option \<Rightarrow> http_request \<Rightarrow> 's \<Rightarrow> 's handled"
where
  "handleRelease V S now authz dec ctxID key ident r s =
     (case decodeJSON dec r of
        Inl resp \<Rightarrow> (resp, None, s)
      | Inr req \<Rightarrow>
          if rl_Holder req = [] then (writeError 400 ''holder is required'', None, s)
          else
            (case authorize authz ident (key_Namespace key) (rl_Holder req) of
               Some resp \<Rightarrow> (resp, None, s)
             | None \<Rightarrow>
                 (case ValidateKey V key of
                    Some err \<Rightarrow> (writeError 400 (errText err), Some outcomeInvalidKey, s)
                  | None \<Rightarrow>
                      (let (e, s') = Manager_Release V S now key (rl_Holder req) (rl_FencingToken req) s
                       in case e of
                            Some err \<Rightarrow>
                              if errors_Is err ErrConflict
                              then (writeError 409 ''lease held by another identity or token'',
                                    Some outcomeConflict, s')
                              else (writeInternalError r ctxID, Some outcomeError, s')
                          | None \<Rightarrow>
                              (\<lparr>rs_Status = 204, rs_Body = BodyEmpty\<rparr>, Some outcomeReleased, s')))))"

section \<open>Authentication middleware and routes (middleware.go, routes.go)\<close>

definition bearerToken :: "http_request \<Rightarrow> string option" where
  "bearerToken r =
     (let h = rq_Authorization r in
      if h = [] then None
      else if \<not> HasPrefix h ''Bearer '' then None
      else
        (let token = TrimSpace (TrimPrefix h ''Bearer '') in
         if token = [] then None else Some token))"

text \<open>An authenticator answers an error, or an identity that may be nil.\<close>

type_synonym authenticator = "string \<Rightarrow> Identity option outcome"

definition AuthMiddleware ::
  "authenticator \<Rightarrow> (Identity option \<Rightarrow> http_request \<Rightarrow> 's \<Rightarrow> 's handled) \<Rightarrow> http_request \<Rightarrow> 's \<Rightarrow> 's handled"
where
  "AuthMiddleware authn nxt r s =
     (case bearerToken r of
        None \<Rightarrow> (writeError 401 ''missing or malformed Authorization header'', Some outcomeUnauthorized, s)
      | Some token \<Rightarrow>
          (case authn token of
             Inl err \<Rightarrow> (writeError 401 ''unauthorized'', Some outcomeUnauthorized, s)
           | Inr None \<Rightarrow> (writeError 401 ''unauthorized'', Some outcomeUnauthorized, s)
           | Inr (Some i) \<Rightarrow> nxt (Some i) r s))"

datatype lease_action = DoAcquire | DoRenew | DoRelease

text \<open>
  The three patterns of \<open>registerLeaseRoutes\<close>.  A wildcard of \<open>http.ServeMux\<close> matches one segment,
  unescaped, except the segment \<open>%2F\<close>, which it refuses.
\<close>

fun lease_route :: "string list \<Rightarrow> (lease_action \<times> Key) option" where
  "lease_route [v, nss, ns, ls, name, act] =
     (if v = ''v1alpha1'' \<and> nss = ''namespaces'' \<and> ls = ''leases'' \<and> ns \<noteq> ''/'' \<and> name \<noteq> ''/'' then
        (if act = ''acquire'' then Some (DoAcquire, \<lparr>key_Namespace = ns, key_Name = name\<rparr>)
         else if act = ''renew'' then Some (DoRenew, \<lparr>key_Namespace = ns, key_Name = name\<rparr>)
         else if act = ''release'' then Some (DoRelease, \<lparr>key_Namespace = ns, key_Name = name\<rparr>)
         else None)
      else None)"
| "lease_route segs = None"

record decoders =
  dec_Acquire :: "string \<Rightarrow> AcquireRequest outcome \<times> bool"
  dec_Renew :: "string \<Rightarrow> RenewRequest outcome \<times> bool"
  dec_Release :: "string \<Rightarrow> ReleaseRequest outcome \<times> bool"

definition registerLeaseRoutes ::
  "dns1123 \<Rightarrow> 's Store \<Rightarrow> (nat \<Rightarrow> time) \<Rightarrow> decoders \<Rightarrow> string \<Rightarrow> authenticator option \<Rightarrow> authorizer option \<Rightarrow>
   lease_action \<times> Key \<Rightarrow> http_request \<Rightarrow> 's \<Rightarrow> 's handled"
where
  "registerLeaseRoutes V S clk D ctxID authn authz route =
     (let (act, key) = route;
          h = (case act of
                 DoAcquire \<Rightarrow> handleAcquire V S clk authz (dec_Acquire D) ctxID key
               | DoRenew \<Rightarrow> handleRenew V S (clk 0) authz (dec_Renew D) ctxID key
               | DoRelease \<Rightarrow> handleRelease V S (clk 0) authz (dec_Release D) ctxID key)
      in case authn of None \<Rightarrow> h None | Some a \<Rightarrow> AuthMiddleware a h)"

text \<open>
  \<open>NewMux\<close> for a server with a manager: probes are unauthenticated; a lease route needs the
  method POST (405 otherwise), and an authorizer is installed whenever an authenticator is.
  \<open>readyz\<close> is the answer of the readiness gate.
\<close>

definition NewMux ::
  "dns1123 \<Rightarrow> 's Store \<Rightarrow> (nat \<Rightarrow> time) \<Rightarrow> decoders \<Rightarrow> string \<Rightarrow> authenticator option \<Rightarrow> authorizer option \<Rightarrow>
   goerr option \<Rightarrow> http_request \<Rightarrow> 's \<Rightarrow> 's handled"
where
  "NewMux V S clk D ctxID authn authz readyz r s =
     (let get = (rq_Method r = ''GET'' \<or> rq_Method r = ''HEAD'');
          authz' = (case authn of
                      None \<Rightarrow> authz
                    | Some a \<Rightarrow> Some (case authz of None \<Rightarrow> NewDefaultAuthorizer | Some z \<Rightarrow> z))
      in if rq_Segments r = [''healthz''] then
           (if get then (writePlain 200 (''ok'' @ [CHR 0x0A]), None, s)
            else (writePlain 405 (''Method Not Allowed'' @ [CHR 0x0A]), None, s))
         else if rq_Segments r = [''readyz''] then
           (if get then
              (case readyz of
                 Some err \<Rightarrow> (writePlain 503 (''not ready'' @ [CHR 0x0A]), None, s)
               | None \<Rightarrow> (writePlain 200 (''ok'' @ [CHR 0x0A]), None, s))
            else (writePlain 405 (''Method Not Allowed'' @ [CHR 0x0A]), None, s))
         else
           (case lease_route (rq_Segments r) of
              None \<Rightarrow> (writePlain 404 (''404 page not found'' @ [CHR 0x0A]), None, s)
            | Some route \<Rightarrow>
                if rq_Method r = ''POST''
                then registerLeaseRoutes V S clk D ctxID authn authz' route r s
                else (writePlain 405 (''Method Not Allowed'' @ [CHR 0x0A]), None, s)))"

section \<open>The readiness gate (routes.go)\<close>

definition readinessCacheTTL :: duration where
  "readinessCacheTTL = second"

record readinessGate =
  rg_checkedAt :: time
  rg_lastErr :: "goerr option"
  rg_primed :: bool

definition zero_gate :: readinessGate where
  "zero_gate = \<lparr>rg_checkedAt = zero_time, rg_lastErr = None, rg_primed = False\<rparr>"

text \<open>
  One call: the clock at the cache test, the result of the probe should it run, and the clock
  when the probe has returned.  The answer, the new gate, and whether the backend was probed.
\<close>

definition gate_ready ::
  "duration \<Rightarrow> time \<Rightarrow> goerr option \<Rightarrow> time \<Rightarrow> readinessGate \<Rightarrow> goerr option \<times> readinessGate \<times> bool"
where
  "gate_ready ttl now probe after g =
     (if rg_primed g \<and> time_Sub now (rg_checkedAt g) < ttl then (rg_lastErr g, g, False)
      else (probe, \<lparr>rg_checkedAt = after, rg_lastErr = probe, rg_primed = True\<rparr>, True))"

section \<open>What reaches the manager\<close>

text \<open>The holder a decoded request names.\<close>

definition request_holder :: "decoders \<Rightarrow> lease_action \<Rightarrow> http_request \<Rightarrow> string option" where
  "request_holder D act r =
     (case act of
        DoAcquire \<Rightarrow> (case decodeJSON (dec_Acquire D) r of Inl e \<Rightarrow> None | Inr q \<Rightarrow> Some (aq_Holder q))
      | DoRenew \<Rightarrow> (case decodeJSON (dec_Renew D) r of Inl e \<Rightarrow> None | Inr q \<Rightarrow> Some (rn_Holder q))
      | DoRelease \<Rightarrow> (case decodeJSON (dec_Release D) r of Inl e \<Rightarrow> None | Inr q \<Rightarrow> Some (rl_Holder q)))"

text \<open>The labels of requests that were answered from the manager.\<close>

definition manager_labels :: "outcome_label set" where
  "manager_labels =
     {outcomeAcquired, outcomeHeldByOther, outcomeRenewed, outcomeReleased, outcomeConflict, outcomeError}"

definition touched :: "'s handled \<Rightarrow> 's \<Rightarrow> bool" where
  "touched h s \<longleftrightarrow>
     snd (snd h) \<noteq> s \<or> (case fst (snd h) of None \<Rightarrow> False | Some l \<Rightarrow> l \<in> manager_labels)"

definition cleared ::
  "dns1123 \<Rightarrow> authorizer option \<Rightarrow> Identity option \<Rightarrow> Key \<Rightarrow> string \<Rightarrow> bool"
where
  "cleared V authz ident key holder \<longleftrightarrow>
     holder \<noteq> [] \<and> authorize authz ident (key_Namespace key) holder = None \<and> ValidateKey V key = None"

lemma handleAcquire_touched:
  assumes "touched (handleAcquire V S clk authz dec ctxID key ident r s) s"
  shows "\<exists>q. decodeJSON dec r = Inr q \<and> cleared V authz ident key (aq_Holder q)"
  using assms
  by (auto simp: handleAcquire_def touched_def manager_labels_def cleared_def ValidateHolder_None
      split: sum.splits option.splits if_splits)

lemma handleRenew_touched:
  assumes "touched (handleRenew V S now authz dec ctxID key ident r s) s"
  shows "\<exists>q. decodeJSON dec r = Inr q \<and> cleared V authz ident key (rn_Holder q)"
  using assms
  by (auto simp: handleRenew_def touched_def manager_labels_def cleared_def ValidateHolder_None
      split: sum.splits option.splits if_splits)

lemma handleRelease_touched:
  assumes "touched (handleRelease V S now authz dec ctxID key ident r s) s"
  shows "\<exists>q. decodeJSON dec r = Inr q \<and> cleared V authz ident key (rl_Holder q)"
  using assms
  by (auto simp: handleRelease_def touched_def manager_labels_def cleared_def
      split: sum.splits option.splits if_splits)

definition act_handler ::
  "dns1123 \<Rightarrow> 's Store \<Rightarrow> (nat \<Rightarrow> time) \<Rightarrow> decoders \<Rightarrow> string \<Rightarrow> authorizer option \<Rightarrow>
   lease_action \<times> Key \<Rightarrow> Identity option \<Rightarrow> http_request \<Rightarrow> 's \<Rightarrow> 's handled"
where
  "act_handler V S clk D ctxID authz route =
     (case fst route of
        DoAcquire \<Rightarrow> handleAcquire V S clk authz (dec_Acquire D) ctxID (snd route)
      | DoRenew \<Rightarrow> handleRenew V S (clk 0) authz (dec_Renew D) ctxID (snd route)
      | DoRelease \<Rightarrow> handleRelease V S (clk 0) authz (dec_Release D) ctxID (snd route))"

lemma act_handler_touched:
  assumes "touched (act_handler V S clk D ctxID authz (act, key) ident r s) s"
  shows "\<exists>h. request_holder D act r = Some h \<and> cleared V authz ident key h"
  using assms
  by (cases act)
    (auto simp: act_handler_def request_holder_def
      dest: handleAcquire_touched handleRenew_touched handleRelease_touched)

lemma registerLeaseRoutes_alt:
  "registerLeaseRoutes V S clk D ctxID authn authz route =
     (case authn of
        None \<Rightarrow> act_handler V S clk D ctxID authz route None
      | Some a \<Rightarrow> AuthMiddleware a (act_handler V S clk D ctxID authz route))"
  by (cases authn; cases route; cases "fst route")
    (simp_all add: registerLeaseRoutes_def act_handler_def Let_def)

lemma AuthMiddleware_touched:
  assumes "touched (AuthMiddleware authn nxt r s) s"
  obtains token i where "bearerToken r = Some token" "authn token = Inr (Some i)"
    "AuthMiddleware authn nxt r s = nxt (Some i) r s"
  using assms
  by (auto simp: AuthMiddleware_def touched_def manager_labels_def split: option.splits sum.splits)

lemma default_authorizer_allows:
  "authorize (Some NewDefaultAuthorizer) (Some i) ns h = None \<Longrightarrow>
     AuthorizeHolder ResolveTenant (Some i) h = None"
  by (auto simp: authorize_def NewDefaultAuthorizer_def split: if_splits)

section \<open>Safe correlation ids\<close>

lemma hex_digit_safe: "d < 16 \<Longrightarrow> safe_id_char (hex_digit d)"
  by (auto simp: hex_digit_def safe_id_char_def of_char_mod_256 Let_def)

lemma EncodeToString_safe: "list_all safe_id_char (EncodeToString bs)"
proof -
  have "of_char b div 16 < (16 :: nat)" for b :: char
    using of_char_mod_256 [of b] mod_less_divisor [of 256 "of_char b"] by (metis div_less_iff_less_mult
        numeral_times_numeral semiring_norm(11,13,16) zero_less_numeral mult.commute)
  then show ?thesis
    by (induction bs) (simp_all add: EncodeToString_def hex_digit_safe)
qed

lemma requestID_safe:
  assumes "\<forall>bs. rq_Random r = Some bs \<longrightarrow> length bs = 16"
  shows "isSafeRequestID (requestID r)"
proof -
  have hex_safe: "safe_id_char c" if "hex_char c" for c
    using that by (auto simp: hex_char_def safe_id_char_def Let_def)
  have trace: "isSafeRequestID (traceID tp)" if "traceID tp \<noteq> []" for tp
    using that
    by (auto simp: traceID_def isSafeRequestID_def isHex_def list_all_iff Let_def hex_safe
        split: if_splits)
  have random: "isSafeRequestID (randomID (rq_Random r))"
  proof (cases "rq_Random r")
    case None
    then show ?thesis
      by (simp add: randomID_def isSafeRequestID_def safe_id_char_def)
  next
    case (Some bs)
    with assms have "length bs = 16" by simp
    with Some show ?thesis
      using EncodeToString_safe [of bs] length_EncodeToString [of bs]
      by (auto simp: randomID_def isSafeRequestID_def)
  qed
  show ?thesis
    using trace random by (simp add: requestID_def)
qed

lemma untouched [simp]: "\<not> touched (resp, None, s) s"
  by (simp add: touched_def)

text \<open>Which answers carry status 500.\<close>

definition internal_error_ok :: "http_request \<Rightarrow> string \<Rightarrow> 's handled \<Rightarrow> bool" where
  "internal_error_ok r ctxID h \<longleftrightarrow>
     (rs_Status (fst h) = 500 \<longrightarrow> rs_Body (fst h) = BodyError ''internal error'' (if ctxID = [] then requestID r else ctxID))"

lemma status_simps [simp]:
  "rs_Status (writeError n m) = n" "rs_Status (writePlain n m) = n" "rs_Status (writeJSON n b) = n"
  "rs_Body (writeInternalError r ctxID) =
     BodyError ''internal error'' (if ctxID = [] then requestID r else ctxID)"
  by (simp_all add: writeError_def writePlain_def writeJSON_def writeInternalError_def Let_def)

lemma early_status:
  "decodeJSON dec r = Inl resp \<Longrightarrow> rs_Status resp \<in> {400, 413}"
  "authorize authz ident ns h = Some resp \<Longrightarrow> rs_Status resp = 403"
  by (auto simp: decodeJSON_def authorize_def split: prod.splits sum.splits option.splits if_splits)

lemma internal_error_other [simp]: "rs_Status resp \<noteq> 500 \<Longrightarrow> internal_error_ok r ctxID (resp, l, s)"
  by (simp add: internal_error_ok_def)

lemma handlers_internal_error:
  "internal_error_ok r ctxID (handleAcquire V S clk authz da ctxID key ident r s)"
  "internal_error_ok r ctxID (handleRenew V S now authz dn ctxID key ident r s)"
  "internal_error_ok r ctxID (handleRelease V S now authz dl ctxID key ident r s)"
  by (auto simp: internal_error_ok_def handleAcquire_def handleRenew_def handleRelease_def
      split: sum.splits option.splits prod.splits if_splits dest: early_status)

lemma act_handler_internal_error:
  "internal_error_ok r ctxID (act_handler V S clk D ctxID authz route ident r s)"
  by (cases "fst route") (simp_all add: act_handler_def handlers_internal_error)

section \<open>Lease bodies\<close>

lemma error_bodies [simp]:
  "rs_Body (writeError n m) \<noteq> BodyLease lr" "rs_Body (writePlain n m) \<noteq> BodyLease lr"
  "rs_Body (writeInternalError r i) \<noteq> BodyLease lr" "rs_Body (writeJSON n b) = b"
  by (simp_all add: writeError_def writePlain_def writeJSON_def writeInternalError_def Let_def)

lemma early_bodies:
  "decodeJSON dec r = Inl resp \<Longrightarrow> rs_Body resp \<noteq> BodyLease lr"
  "authorize authz ident ns h = Some resp \<Longrightarrow> rs_Body resp \<noteq> BodyLease lr"
  by (auto simp: decodeJSON_def authorize_def Let_def split: sum.splits option.splits if_splits prod.splits)

lemma NewMux_lease_body:
  assumes "NewMux V S clk D ctxID authn authz readyz r s = (resp, lbl, s')" and "rs_Body resp = BodyLease lr"
  shows "\<exists>act key authz' ident. lease_route (rq_Segments r) = Some (act, key) \<and>
    act_handler V S clk D ctxID authz' (act, key) ident r s = (resp, lbl, s')"
  using assms
  by (auto simp: NewMux_def Let_def registerLeaseRoutes_alt AuthMiddleware_def
      split: if_splits option.splits sum.splits)

lemma int32_seconds: "seconds (sint (t :: int32)) = sint t * second"
  using sint_int32_bounds [of t] by (intro seconds_id) simp

lemma handleAcquire_granted:
  assumes "shared_inv any_write s"
    and "handleAcquire V shared_ops clk authz dec ctxID key ident r s = (resp, lbl, s')"
    and "rs_Body resp = BodyLease lr" and "lr_Acquired lr"
  shows "\<exists>h ttl c. decodeJSON dec r = Inr \<lparr>aq_Holder = h, aq_TTLSeconds = ttl\<rparr> \<and>
    sh_view s' key = Some c \<and> rec_Holder c = h \<and> rec_TTL c = sint ttl * second \<and>
    lr = \<lparr>lr_Acquired = True, lr_Holder = h, lr_FencingToken = rec_FencingToken c,
          lr_ExpiresAt = rec_RenewedAt c + sint ttl * second, lr_AcquiredAt = rec_AcquiredAt c\<rparr>"
proof -
  obtain q res where q: "decodeJSON dec r = Inr q" and lr: "lr = leaseResponseFrom res"
    and acq: "Manager_Acquire V shared_ops clk key (aq_Holder q) (seconds (sint (aq_TTLSeconds q))) s = (Inr res, s')"
    using assms(2,3)
    by (auto simp: handleAcquire_def early_bodies split: sum.splits option.splits if_splits prod.splits)
  have "ar_Acquired res"
    using assms(4) lr by (simp add: leaseResponseFrom_def)
  from sh.manager_acquire_granted [OF assms(1) acq this] obtain m i where
    "acquired_as m (sh_view s') key (aq_Holder q) (seconds (sint (aq_TTLSeconds q))) (clk i) res"
    by auto
  with q lr show ?thesis
    by (cases q) (auto simp: acquired_as_def leaseResponseFrom_def int32_seconds lease_defs time_Add_def)
qed

lemma handleRenew_granted:
  assumes "shared_inv any_write s"
    and "handleRenew V shared_ops now authz dec ctxID key ident r s = (resp, lbl, s')"
    and "rs_Body resp = BodyLease lr" and "lr_Acquired lr"
  shows "\<exists>h ttl c. decodeJSON dec r =
      Inr \<lparr>rn_Holder = h, rn_FencingToken = rec_FencingToken c, rn_TTLSeconds = ttl\<rparr> \<and>
    sh_view s' key = Some c \<and> rec_Holder c = h \<and> rec_TTL c = sint ttl * second \<and>
    lr = \<lparr>lr_Acquired = True, lr_Holder = h, lr_FencingToken = rec_FencingToken c,
          lr_ExpiresAt = rec_RenewedAt c + sint ttl * second, lr_AcquiredAt = rec_AcquiredAt c\<rparr>"
proof -
  obtain q res where q: "decodeJSON dec r = Inr q" and lr: "lr = leaseResponseFrom res"
    and ren: "Manager_Renew V shared_ops now key (rn_Holder q) (rn_FencingToken q)
      (seconds (sint (rn_TTLSeconds q))) s = (Inr res, s')"
    using assms(2,3)
    by (auto simp: handleRenew_def early_bodies split: sum.splits option.splits if_splits prod.splits)
  have "ar_Acquired res"
    using assms(4) lr by (simp add: leaseResponseFrom_def)
  from sh.manager_renew_granted [OF assms(1) ren this] q lr show ?thesis
    by (cases q) (auto simp: leaseResponseFrom_def int32_seconds time_Add_def)
qed

lemma handleRelease_no_lease:
  "rs_Body (fst (handleRelease V S now authz dec ctxID key ident r s)) \<noteq> BodyLease lr"
  by (auto simp: handleRelease_def early_bodies Let_def split: sum.split option.split prod.split)

section \<open>Properties\<close>

text \<open>Data of the witnesses: a POST by the tenant \<open>''team''\<close>, and decoders for it.\<close>

definition sample_request :: http_request where
  "sample_request =
     \<lparr>rq_Method = ''POST'',
      rq_Segments = [''v1alpha1'', ''namespaces'', ''ns'', ''leases'', ''job'', ''acquire''],
      rq_Authorization = ''Bearer secret'', rq_XRequestId = [], rq_Traceparent = [],
      rq_Body = (''{}'', None), rq_Random = None\<rparr>"

definition sample_decoders :: decoders where
  "sample_decoders =
     \<lparr>dec_Acquire = (\<lambda>b. (Inr \<lparr>aq_Holder = ''team/a'', aq_TTLSeconds = 30\<rparr>, True)),
      dec_Renew = (\<lambda>b. (Inr \<lparr>rn_Holder = ''team/a'', rn_FencingToken = - 1, rn_TTLSeconds = 30\<rparr>, True)),
      dec_Release = (\<lambda>b. (Inr \<lparr>rl_Holder = ''team/a'', rl_FencingToken = 1\<rparr>, True))\<rparr>"

definition sample_authn :: authenticator where
  "sample_authn token =
     (if token = ''secret'' then Inr (Some \<lparr>id_Holder = ''team'', id_Tenant = ''team'', id_Raw = []\<rparr>)
      else Inl (ErrText ''unauthorized''))"

text \<open>
  C18. No request reaches the manager unauthenticated or unauthorized.  When authentication is
  configured and the default policy applies, a request that changes the store, or that is
  answered from the manager, presented a bearer token which the authenticator accepted, named in
  its body a holder that belongs to the tenant of that identity, and addressed a valid key.
\<close>

theorem manager_is_reached_only_authorized:
  assumes "touched (NewMux V S clk D ctxID (Some authn) None readyz r s) s"
  shows "\<exists>token i act key h.
    bearerToken r = Some token \<and> authn token = Inr (Some i) \<and>
    lease_route (rq_Segments r) = Some (act, key) \<and> request_holder D act r = Some h \<and>
    AuthorizeHolder ResolveTenant (Some i) h = None \<and> ValidateKey V key = None"
proof -
  obtain act key where route: "lease_route (rq_Segments r) = Some (act, key)"
    and t: "touched (AuthMiddleware authn (act_handler V S clk D ctxID (Some NewDefaultAuthorizer) (act, key)) r s) s"
    using assms
    by (auto simp: NewMux_def Let_def registerLeaseRoutes_alt split: if_splits option.splits)
  from AuthMiddleware_touched [OF t] obtain token i where
    auth: "bearerToken r = Some token" "authn token = Inr (Some i)"
    and next_h: "touched (act_handler V S clk D ctxID (Some NewDefaultAuthorizer) (act, key) (Some i) r s) s"
    using t by metis
  from act_handler_touched [OF next_h] obtain h where
    "request_holder D act r = Some h" "cleared V (Some NewDefaultAuthorizer) (Some i) key h"
    by blast
  with auth route show ?thesis
    by (auto simp: cleared_def intro: default_authorizer_allows)
qed

theorem manager_is_reached_only_authorized_witness:
  "\<exists>token i. bearerToken sample_request = Some token \<and> sample_authn token = Inr (Some i) \<and> id_Tenant i = ''team''"
proof -
  have "touched (NewMux rfc1123 (MemStore_ops rev None) (\<lambda>n. 5) sample_decoders [] (Some sample_authn) None None
      sample_request NewMemStore) NewMemStore"
    by code_simp
  from manager_is_reached_only_authorized [OF this] obtain token i where
    "bearerToken sample_request = Some token" "sample_authn token = Inr (Some i)"
    by blast
  then show ?thesis by (auto simp: sample_authn_def split: if_splits)
qed

text \<open>
  C19. A granted lease is stored as answered.  Whenever the server, with or without authentication
  and under any authorizer, answers a lease body with \<open>acquired\<close> set, whatever other replicas write
  meanwhile, the request was an acquire or a renewal, and the store then holds under the key of its
  path the holder named in its body, a time to live of exactly \<open>ttlSeconds\<close> seconds, for a renewal
  the fencing token named in the body, and the answer carries the holder, the token, the expiry and
  the acquisition time of that record.
\<close>

theorem granted_answer_is_stored:
  assumes "shared_inv any_write s"
    and "NewMux V shared_ops clk D ctxID authn authz readyz r s = (resp, lbl, s')"
    and "rs_Body resp = BodyLease lr" and "lr_Acquired lr"
  shows "\<exists>act key h ttl c. lease_route (rq_Segments r) = Some (act, key) \<and>
    (act = DoAcquire \<and> decodeJSON (dec_Acquire D) r = Inr \<lparr>aq_Holder = h, aq_TTLSeconds = ttl\<rparr> \<or>
     act = DoRenew \<and> decodeJSON (dec_Renew D) r =
       Inr \<lparr>rn_Holder = h, rn_FencingToken = rec_FencingToken c, rn_TTLSeconds = ttl\<rparr>) \<and>
    sh_view s' key = Some c \<and> rec_Holder c = h \<and> rec_TTL c = sint ttl * second \<and>
    lr = \<lparr>lr_Acquired = True, lr_Holder = h, lr_FencingToken = rec_FencingToken c,
          lr_ExpiresAt = rec_RenewedAt c + sint ttl * second, lr_AcquiredAt = rec_AcquiredAt c\<rparr>"
proof -
  from NewMux_lease_body [OF assms(2,3)] obtain act key authz' ident where
    route: "lease_route (rq_Segments r) = Some (act, key)"
    and h: "act_handler V shared_ops clk D ctxID authz' (act, key) ident r s = (resp, lbl, s')"
    by blast
  show ?thesis
  proof (cases act)
    case DoAcquire
    then have "handleAcquire V shared_ops clk authz' (dec_Acquire D) ctxID key ident r s = (resp, lbl, s')"
      using h by (simp add: act_handler_def)
    from handleAcquire_granted [OF assms(1) this assms(3,4)] route DoAcquire show ?thesis by blast
  next
    case DoRenew
    then have "handleRenew V shared_ops (clk 0) authz' (dec_Renew D) ctxID key ident r s = (resp, lbl, s')"
      using h by (simp add: act_handler_def)
    from handleRenew_granted [OF assms(1) this assms(3,4)] route DoRenew show ?thesis by blast
  next
    case DoRelease
    with h handleRelease_no_lease [of V shared_ops "clk 0" authz' "dec_Release D" ctxID key ident r s lr] assms(3)
    show ?thesis by (auto simp: act_handler_def)
  qed
qed

theorem granted_answer_is_stored_witness:
  "\<exists>c. sh_view (snd (snd (NewMux rfc1123 shared_ops (\<lambda>n. 5) sample_decoders [] (Some sample_authn) None None
          sample_request racing_shared))) key1 = Some c \<and> rec_Holder c = ''team/a'' \<and> rec_TTL c = 30 * second"
proof -
  let ?h = "NewMux rfc1123 shared_ops (\<lambda>n. 5) sample_decoders [] (Some sample_authn) None None sample_request
    racing_shared"
  have body: "case rs_Body (fst ?h) of BodyLease lr \<Rightarrow> lr_Acquired lr | b \<Rightarrow> False"
    by code_simp
  then obtain lr where lr: "rs_Body (fst ?h) = BodyLease lr" "lr_Acquired lr"
    by (auto split: resp_body.splits)
  have route: "lease_route (rq_Segments sample_request) = Some (DoAcquire, key1)"
    by code_simp
  have q: "decodeJSON (dec_Acquire sample_decoders) sample_request =
      Inr \<lparr>aq_Holder = ''team/a'', aq_TTLSeconds = 30\<rparr>"
    by code_simp
  obtain resp lbl s' where h: "?h = (resp, lbl, s')"
    by (metis prod.collapse)
  with lr have "rs_Body resp = BodyLease lr" by simp
  from granted_answer_is_stored [OF shared_inv_samples(2) h this lr(2)] route q h show ?thesis by auto
qed

text \<open>
  C20. Internal errors reveal nothing but a safe correlation id.  Every answer with status 500
  has the fixed message \<open>internal error\<close> and an id that is not empty, at most 64 characters long
  and made of letters, digits, hyphens and underscores only, whatever the inbound headers are.
\<close>

theorem internal_errors_are_generic:
  assumes "ctxID = [] \<or> ctxID = LoggingMiddleware_id r"
    and "\<forall>bs. rq_Random r = Some bs \<longrightarrow> length bs = 16"
    and "NewMux V S clk D ctxID authn authz readyz r s = (resp, lbl, s')" and "rs_Status resp = 500"
  shows "\<exists>i. rs_Body resp = BodyError ''internal error'' i \<and> isSafeRequestID i"
proof -
  have "internal_error_ok r ctxID (NewMux V S clk D ctxID authn authz readyz r s)"
    by (simp add: NewMux_def Let_def registerLeaseRoutes_alt AuthMiddleware_def act_handler_internal_error
        split: option.split sum.split)
  with assms(3,4) have "rs_Body resp = BodyError ''internal error'' (if ctxID = [] then requestID r else ctxID)"
    by (simp add: internal_error_ok_def)
  with assms(1) requestID_safe [OF assms(2)] show ?thesis
    by (auto simp: LoggingMiddleware_id_def)
qed

definition failing_request :: http_request where
  "failing_request = sample_request
     \<lparr>rq_Segments := [''v1alpha1'', ''namespaces'', ''ns'', ''leases'', ''job'', ''renew''],
      rq_XRequestId := ''evil'' @ [CHR 0x0A], rq_Random := Some (replicate 16 CHR ''x'')\<rparr>"

theorem internal_errors_are_generic_witness:
  "\<exists>i. rs_Body (fst (NewMux rfc1123 (MemStore_ops rev None) (\<lambda>n. 5) sample_decoders [] (Some sample_authn)
      None None failing_request NewMemStore)) = BodyError ''internal error'' i \<and> isSafeRequestID i"
proof -
  let ?h = "NewMux rfc1123 (MemStore_ops rev None) (\<lambda>n. 5) sample_decoders [] (Some sample_authn)
      None None failing_request NewMemStore"
  have "rs_Status (fst ?h) = 500" by code_simp
  moreover have "\<forall>bs. rq_Random failing_request = Some bs \<longrightarrow> length bs = 16"
    by (simp add: failing_request_def)
  moreover obtain resp lbl s' where "?h = (resp, lbl, s')"
    by (metis prod.collapse)
  ultimately show ?thesis
    using internal_errors_are_generic [of "[]" failing_request] by fastforce
qed

text \<open>
  C21. A negative fencing token in a renew request, although it is an error of the client that the
  manager detects before it reads anything, is answered with status 500 and leaves the store
  unchanged: the handler refuses only the token zero.
\<close>

theorem negative_token_is_internal_error:
  assumes "decodeJSON dec r = Inr q" and "ValidateHolder (rn_Holder q) = None"
    and "sint (rn_FencingToken q) < 0" and "0 < sint (rn_TTLSeconds q)"
    and "authorize authz ident (key_Namespace key) (rn_Holder q) = None" and "ValidateKey V key = None"
  shows "handleRenew V S now authz dec ctxID key ident r s = (writeInternalError r ctxID, Some outcomeError, s)"
proof -
  have "rn_FencingToken q \<noteq> 0"
    using assms(3) by auto
  with assms show ?thesis
    by (simp add: handleRenew_def Manager_Renew_def)
qed

theorem negative_token_is_internal_error_witness:
  "rs_Status (fst (handleRenew rfc1123 (MemStore_ops rev None) 5 None (dec_Renew sample_decoders) [] key1 None
     failing_request NewMemStore)) = 500"
proof -
  have "decodeJSON (dec_Renew sample_decoders) failing_request =
      Inr \<lparr>rn_Holder = ''team/a'', rn_FencingToken = - 1, rn_TTLSeconds = 30\<rparr>"
    by code_simp
  moreover have "ValidateHolder ''team/a'' = None" by code_simp
  ultimately show ?thesis
    using negative_token_is_internal_error [of "dec_Renew sample_decoders" failing_request
        "\<lparr>rn_Holder = ''team/a'', rn_FencingToken = - 1, rn_TTLSeconds = 30\<rparr>" None None key1 rfc1123
        "MemStore_ops rev None" 5 "[]" NewMemStore]
    by (simp add: authorize_def writeInternalError_def Let_def)
qed

text \<open>A run of the readiness gate: the requests with their clock readings and probe results.\<close>

fun gate_run ::
  "duration \<Rightarrow> (time \<times> goerr option \<times> time) list \<Rightarrow> readinessGate \<Rightarrow> (goerr option \<times> time option) list"
where
  "gate_run ttl [] g = []"
| "gate_run ttl ((now, probe, after) # rs) g =
     (let (ans, g', probed) = gate_ready ttl now probe after g
      in (ans, if probed then Some now else None) # gate_run ttl rs g')"

definition probe_times :: "(goerr option \<times> time option) list \<Rightarrow> time list" where
  "probe_times as = concat (map (\<lambda>a. case snd a of None \<Rightarrow> [] | Some x \<Rightarrow> [x]) as)"

lemma probe_times_simps [simp]:
  "probe_times [] = []" "probe_times ((a, None) # as) = probe_times as"
  "probe_times ((a, Some t) # as) = t # probe_times as"
  by (simp_all add: probe_times_def)

lemma gate_run_first:
  assumes "0 < ttl" and "ttl < 2 ^ 63" and "rg_primed g" and "probe_times (gate_run ttl rs g) = t # ts"
  shows "rg_checkedAt g + ttl \<le> t"
  using assms(4)
proof (induction rs)
  case (Cons x rs)
  obtain now probe after where x: "x = (now, probe, after)"
    by (cases x) auto
  show ?case
  proof (cases "time_Sub now (rg_checkedAt g) < ttl")
    case True
    with Cons x assms(3) show ?thesis by (simp add: gate_ready_def)
  next
    case False
    then have "ttl \<le> now - rg_checkedAt g"
      using time_Sub_ge_iff [of ttl now "rg_checkedAt g"] assms(1,2) by simp
    with False Cons.prems x show ?thesis by (simp add: gate_ready_def)
  qed
qed simp

text \<open>
  C22. The unauthenticated readiness route cannot be used to load the backend: however many
  requests arrive, two probes of the backend start at least one cache window (one second)
  apart.
\<close>

theorem readiness_probes_are_spaced:
  assumes "list_all (\<lambda>(now, p, after). now \<le> after) rs"
  shows "successively (\<lambda>a b. a + readinessCacheTTL \<le> b) (probe_times (gate_run readinessCacheTTL rs g))"
  using assms
proof (induction rs arbitrary: g)
  case (Cons x rs)
  obtain now probe after where x: "x = (now, probe, after)"
    by (cases x) auto
  let ?g' = "\<lparr>rg_checkedAt = after, rg_lastErr = probe, rg_primed = True\<rparr>"
  have "now \<le> after"
    using Cons.prems x by simp
  have "now + readinessCacheTTL \<le> t" if "probe_times (gate_run readinessCacheTTL rs ?g') = t # ts" for t ts
    using gate_run_first [of readinessCacheTTL ?g' rs t ts] that \<open>now \<le> after\<close>
    by (simp add: readinessCacheTTL_def)
  then have "successively (\<lambda>a b. a + readinessCacheTTL \<le> b)
      (now # probe_times (gate_run readinessCacheTTL rs ?g'))"
    using Cons.IH [of ?g'] Cons.prems x
    by (cases "probe_times (gate_run readinessCacheTTL rs ?g')") simp_all
  with Cons.IH [of g] Cons.prems x show ?case
    by (simp add: gate_ready_def)
qed simp

theorem readiness_probes_are_spaced_witness:
  "successively (\<lambda>a b. a + readinessCacheTTL \<le> b)
     (probe_times (gate_run readinessCacheTTL [(0, None, 5), (10, None, 10), (second + 5, None, second + 6)] zero_gate)) \<and>
   probe_times (gate_run readinessCacheTTL [(0, None, 5), (10, None, 10), (second + 5, None, second + 6)] zero_gate) =
     [0, second + 5]"
  using readiness_probes_are_spaced
    [of "[(0, None, 5), (10, None, 10), (second + 5, None, second + 6)]" zero_gate]
  by (simp add: gate_ready_def zero_gate_def readinessCacheTTL_def time_Sub_def)

end
