(* ===== verification/Acquire_State.thy ===== *)
theory Acquire_State
  imports Go_Text "HOL-Library.AList"
begin

text \<open>
  The shared volume of the injected helper (\<open>internal/acquire/state.go\<close>): the files in which the
  init container hands the holder and the fencing token to the sidecar, the health marker of the
  liveness probe, and the copied check binary.

  The file system is explicit.  A file is its content, its mode and its modification time.  Every
  system call takes the next entry of a script of faults: a call may fail, and a failing write may
  leave any number of its bytes behind.  Directories are not represented; a missing directory
  shows as the failure of a call.  The names that \<open>os.CreateTemp\<close> tries come from a script of
  random numbers, and a name in use is skipped.
\<close>

section \<open>Paths (path/filepath)\<close>

definition clean_step :: "bool \<Rightarrow> string list \<Rightarrow> string \<Rightarrow> string list" where
  "clean_step rooted st seg =
     (if seg = [] \<or> seg = ''.'' then st
      else if seg = ''..'' then
        (case st of
           [] \<Rightarrow> if rooted then [] else [''..'']
         | t # st' \<Rightarrow> if t = ''..'' then ''..'' # st else st')
      else seg # st)"

definition path_Clean :: "string \<Rightarrow> string" where
  "path_Clean p =
     (if p = [] then ''.''
      else
        (let rooted = (hd p = CHR ''/'');
             st = foldl (clean_step rooted) [] (go_Split p CHR ''/'');
             body = go_Join (rev st) ''/''
         in if rooted then ''/'' @ body else if body = [] then ''.'' else body))"

definition path_Join :: "string \<Rightarrow> string \<Rightarrow> string" where
  "path_Join a b =
     (if a = [] then (if b = [] then [] else path_Clean b) else path_Clean (a @ ''/'' @ b))"

definition path_Dir :: "string \<Rightarrow> string" where
  "path_Dir p = path_Clean (rev (dropWhile (\<lambda>c. c \<noteq> CHR ''/'') (rev p)))"

definition path_Base :: "string \<Rightarrow> string" where
  "path_Base p =
     (if p = [] then ''.''
      else
        (let q = rev (dropWhile (\<lambda>c. c = CHR ''/'') (rev p))
         in if q = [] then ''/'' else rev (takeWhile (\<lambda>c. c \<noteq> CHR ''/'') (rev q))))"

section \<open>The file system\<close>

record file_info =
  fi_Data :: string
  fi_Mode :: nat
  fi_ModTime :: time

text \<open>\<open>Fail e n\<close>: the call fails with \<open>e\<close>; a failing write has written \<open>n\<close> bytes.\<close>

datatype fault = Pass | Fail goerr nat

record fsys =
  fs_files :: "(string \<times> file_info) list"
  fs_clock :: time
  fs_faults :: "fault list"
  fs_random :: "nat list"

definition ErrNotExist :: goerr where
  "ErrNotExist = ErrText ''file does not exist''"

definition fs_lookup :: "fsys \<Rightarrow> string \<Rightarrow> file_info option" where
  "fs_lookup fs = map_of (fs_files fs)"

definition next_fault :: "fsys \<Rightarrow> fault \<times> fsys" where
  "next_fault fs =
     (case fs_faults fs of
        [] \<Rightarrow> (Pass, fs)
      | f # rest \<Rightarrow> (f, fs\<lparr>fs_faults := rest\<rparr>))"

definition fs_set :: "string \<Rightarrow> file_info \<Rightarrow> fsys \<Rightarrow> fsys" where
  "fs_set p i fs = fs\<lparr>fs_files := AList.update p i (fs_files fs)\<rparr>"

definition fs_unset :: "string \<Rightarrow> fsys \<Rightarrow> fsys" where
  "fs_unset p fs = fs\<lparr>fs_files := AList.delete p (fs_files fs)\<rparr>"

text \<open>A call without an effect on files: \<open>MkdirAll\<close>, \<open>Close\<close>.\<close>

definition os_call :: "fsys \<Rightarrow> goerr option \<times> fsys" where
  "os_call fs =
     (let (f, fs') = next_fault fs in case f of Pass \<Rightarrow> (None, fs') | Fail e n \<Rightarrow> (Some e, fs'))"

definition os_ReadFile :: "string \<Rightarrow> fsys \<Rightarrow> string outcome \<times> fsys" where
  "os_ReadFile p fs =
     (let (f, fs') = next_fault fs
      in case f of
           Fail e n \<Rightarrow> (Inl e, fs')
         | Pass \<Rightarrow> (case fs_lookup fs' p of None \<Rightarrow> Inl ErrNotExist | Some i \<Rightarrow> Inr (fi_Data i), fs'))"

definition os_Remove :: "string \<Rightarrow> fsys \<Rightarrow> goerr option \<times> fsys" where
  "os_Remove p fs =
     (let (f, fs') = next_fault fs
      in case f of
           Fail e n \<Rightarrow> (Some e, fs')
         | Pass \<Rightarrow> (case fs_lookup fs' p of None \<Rightarrow> (Some ErrNotExist, fs') | Some i \<Rightarrow> (None, fs_unset p fs')))"

definition os_Rename :: "string \<Rightarrow> string \<Rightarrow> fsys \<Rightarrow> goerr option \<times> fsys" where
  "os_Rename old new fs =
     (let (f, fs') = next_fault fs
      in case f of
           Fail e n \<Rightarrow> (Some e, fs')
         | Pass \<Rightarrow>
             (case fs_lookup fs' old of
                None \<Rightarrow> (Some ErrNotExist, fs')
              | Some i \<Rightarrow> (None, fs_set new i (fs_unset old fs'))))"

definition file_Write :: "string \<Rightarrow> string \<Rightarrow> fsys \<Rightarrow> goerr option \<times> fsys" where
  "file_Write p data fs =
     (let (f, fs') = next_fault fs;
          put = (\<lambda>d. case fs_lookup fs' p of
                       None \<Rightarrow> fs'
                     | Some i \<Rightarrow> fs_set p (i\<lparr>fi_Data := d, fi_ModTime := fs_clock fs'\<rparr>) fs')
      in case f of Pass \<Rightarrow> (None, put data) | Fail e n \<Rightarrow> (Some e, put (take n data)))"

definition file_Chmod :: "string \<Rightarrow> nat \<Rightarrow> fsys \<Rightarrow> goerr option \<times> fsys" where
  "file_Chmod p mode fs =
     (let (f, fs') = next_fault fs
      in case f of
           Fail e n \<Rightarrow> (Some e, fs')
         | Pass \<Rightarrow>
             (None, case fs_lookup fs' p of
                      None \<Rightarrow> fs' | Some i \<Rightarrow> fs_set p (i\<lparr>fi_Mode := mode\<rparr>) fs'))"

definition temp_name :: "string \<Rightarrow> string \<Rightarrow> nat \<Rightarrow> string" where
  "temp_name dir pre n =
     dir @ (if dir \<noteq> [] \<and> last dir = CHR ''/'' then [] else ''/'') @ pre @ format_nat n"

fun pick_temp :: "(string \<Rightarrow> bool) \<Rightarrow> string \<Rightarrow> string \<Rightarrow> nat list \<Rightarrow> (string \<times> nat list) option" where
  "pick_temp used dir pre [] = None"
| "pick_temp used dir pre (n # ns) =
     (if used (temp_name dir pre n) then pick_temp used dir pre ns else Some (temp_name dir pre n, ns))"

definition os_CreateTemp :: "string \<Rightarrow> string \<Rightarrow> fsys \<Rightarrow> string outcome \<times> fsys" where
  "os_CreateTemp dir pre fs =
     (let (f, fs') = next_fault fs
      in case f of
           Fail e n \<Rightarrow> (Inl e, fs')
         | Pass \<Rightarrow>
             (case pick_temp (\<lambda>p. fs_lookup fs' p \<noteq> None) dir pre (fs_random fs') of
                None \<Rightarrow> (Inl (ErrText ''file exists''), fs'\<lparr>fs_random := []\<rparr>)
              | Some (p, ns) \<Rightarrow>
                  (Inr p, fs_set p \<lparr>fi_Data = [], fi_Mode = 384, fi_ModTime = fs_clock fs'\<rparr>
                            (fs'\<lparr>fs_random := ns\<rparr>))))"

section \<open>Atomic writes (state.go)\<close>

text \<open>The result of \<open>os.Remove\<close> in the clean-up is dropped, as in the source.\<close>

definition remove_quietly :: "string \<Rightarrow> fsys \<Rightarrow> fsys" where
  "remove_quietly p fs = snd (os_Remove p fs)"

definition close_quietly :: "fsys \<Rightarrow> fsys" where
  "close_quietly fs = snd (os_call fs)"

definition writeFileAtomic :: "string \<Rightarrow> string \<Rightarrow> nat \<Rightarrow> fsys \<Rightarrow> goerr option \<times> fsys" where
  "writeFileAtomic path data mode fs =
     (let (x, fs1) = os_CreateTemp (path_Dir path) ''.tmp-'' fs
      in case x of
           Inl err \<Rightarrow> (Some err, fs1)
         | Inr tmp \<Rightarrow>
             (let (e2, fs2) = file_Write tmp data fs1
              in if e2 \<noteq> None then (e2, remove_quietly tmp (close_quietly fs2))
                 else
                   (let (e3, fs3) = file_Chmod tmp mode fs2
                    in if e3 \<noteq> None then (e3, remove_quietly tmp (close_quietly fs3))
                       else
                         (let (e4, fs4) = os_call fs3
                          in if e4 \<noteq> None then (e4, remove_quietly tmp fs4)
                             else os_Rename tmp path fs4))))"

definition wrap_opt :: "string \<Rightarrow> goerr option \<Rightarrow> goerr option" where
  "wrap_opt msg e = map_option (ErrWrap msg) e"

definition copyFile :: "string \<Rightarrow> string \<Rightarrow> nat \<Rightarrow> fsys \<Rightarrow> goerr option \<times> fsys" where
  "copyFile src dst mode fs =
     (let (x, fs0) = os_ReadFile src fs
      in case x of
           Inl err \<Rightarrow> (Some (ErrWrap ''open: '' err), fs0)
         | Inr data \<Rightarrow>
             (let (y, fs1) = os_CreateTemp (path_Dir dst) ''.check-'' fs0
              in case y of
                   Inl err \<Rightarrow> (Some (ErrWrap ''create temp: '' err), fs1)
                 | Inr tmp \<Rightarrow>
                     (let (e2, fs2) = file_Write tmp data fs1
                      in if e2 \<noteq> None then (wrap_opt ''copy: '' e2, remove_quietly tmp (close_quietly fs2))
                         else
                           (let (e3, fs3) = file_Chmod tmp mode fs2
                            in if e3 \<noteq> None
                               then (wrap_opt ''chmod: '' e3, remove_quietly tmp (close_quietly fs3))
                               else
                                 (let (e4, fs4) = os_call fs3
                                  in if e4 \<noteq> None then (wrap_opt ''close: '' e4, remove_quietly tmp fs4)
                                     else
                                       (let (e5, fs5) = os_Rename tmp dst fs4
                                        in if e5 \<noteq> None then (wrap_opt ''rename: '' e5, remove_quietly tmp fs5)
                                           else (None, fs5)))))))"

section \<open>The state files (state.go)\<close>

definition holderPath :: "string \<Rightarrow> string" where
  "holderPath dir = path_Join dir ''holder''"

definition tokenPath :: "string \<Rightarrow> string" where
  "tokenPath dir = path_Join dir ''token''"

definition healthyPath :: "string \<Rightarrow> string" where
  "healthyPath dir = path_Join dir ''healthy''"

definition CheckPath :: "string \<Rightarrow> string" where
  "CheckPath dir = path_Join dir ''check''"

definition marker_data :: string where
  "marker_data = ''ok'' @ [CHR 0x0A]"

definition MarkHealthy :: "string \<Rightarrow> fsys \<Rightarrow> goerr option \<times> fsys" where
  "MarkHealthy dir fs =
     (let (e1, fs1) = os_call fs
      in if e1 \<noteq> None then (wrap_opt ''create state dir: '' e1, fs1)
         else
           (let (e2, fs2) = writeFileAtomic (healthyPath dir) marker_data 420 fs1
            in (wrap_opt ''write health marker: '' e2, fs2)))"

definition MarkUnhealthy :: "string \<Rightarrow> fsys \<Rightarrow> goerr option \<times> fsys" where
  "MarkUnhealthy dir fs =
     (let (e, fs') = os_Remove (healthyPath dir) fs
      in case e of
           None \<Rightarrow> (None, fs')
         | Some err \<Rightarrow>
             if errors_Is err ErrNotExist then (None, fs')
             else (Some (ErrWrap ''remove health marker: '' err), fs'))"

definition WriteAcquired :: "string \<Rightarrow> string \<Rightarrow> int32 \<Rightarrow> fsys \<Rightarrow> goerr option \<times> fsys" where
  "WriteAcquired dir holder token fs =
     (let (e1, fs1) = os_call fs
      in if e1 \<noteq> None then (wrap_opt ''create state dir: '' e1, fs1)
         else
           (let (e2, fs2) = writeFileAtomic (holderPath dir) holder 420 fs1
            in if e2 \<noteq> None then (wrap_opt ''write holder: '' e2, fs2)
               else
                 (let (e3, fs3) = writeFileAtomic (tokenPath dir) (FormatInt (sint token)) 420 fs2
                  in if e3 \<noteq> None then (wrap_opt ''write token: '' e3, fs3)
                     else MarkHealthy dir fs3)))"

definition ReadHolder :: "string \<Rightarrow> fsys \<Rightarrow> string outcome \<times> fsys" where
  "ReadHolder dir fs = os_ReadFile (holderPath dir) fs"

definition ReadToken :: "string \<Rightarrow> fsys \<Rightarrow> int32 outcome \<times> fsys" where
  "ReadToken dir fs =
     (let (x, fs') = os_ReadFile (tokenPath dir) fs
      in (case x of
            Inl err \<Rightarrow> Inl err
          | Inr b \<Rightarrow>
              (case ParseInt 32 (TrimSpace b) of
                 None \<Rightarrow> Inl (ErrText ''parse token'')
               | Some n \<Rightarrow> Inr (word_of_int n)),
          fs'))"

text \<open>\<open>self\<close> is the result of \<open>os.Executable\<close>.\<close>

definition InstallCheckBinary :: "string \<Rightarrow> string outcome \<Rightarrow> fsys \<Rightarrow> goerr option \<times> fsys" where
  "InstallCheckBinary dir self fs =
     (case self of
        Inl err \<Rightarrow> (Some (ErrWrap ''locate self: '' err), fs)
      | Inr exe \<Rightarrow>
          (let (e1, fs1) = os_call fs
           in if e1 \<noteq> None then (wrap_opt ''create state dir: '' e1, fs1)
              else copyFile exe (CheckPath dir) 493 fs1))"

section \<open>The health marker (state.go)\<close>

datatype HealthVerdict = HealthOK | HealthAbsent | HealthStale | HealthIndeterminate

record HealthResult =
  hr_Verdict :: HealthVerdict
  hr_Age :: duration
  hr_MaxAge :: duration
  hr_Err :: "goerr option"

definition hr_OK :: "HealthResult \<Rightarrow> bool" where
  "hr_OK r \<longleftrightarrow> hr_Verdict r = HealthOK"

definition evaluateMarkerAge :: "time \<Rightarrow> time \<Rightarrow> duration \<Rightarrow> HealthResult" where
  "evaluateMarkerAge modified observed maxAge =
     (if maxAge \<le> 0 then \<lparr>hr_Verdict = HealthOK, hr_Age = 0, hr_MaxAge = 0, hr_Err = None\<rparr>
      else
        (let age = time_Sub observed modified in
         if age > maxAge
         then \<lparr>hr_Verdict = HealthStale, hr_Age = age, hr_MaxAge = maxAge, hr_Err = None\<rparr>
         else \<lparr>hr_Verdict = HealthOK, hr_Age = age, hr_MaxAge = maxAge, hr_Err = None\<rparr>))"

definition EvaluateMarker :: "string \<Rightarrow> duration \<Rightarrow> time \<Rightarrow> fsys \<Rightarrow> HealthResult \<times> fsys" where
  "EvaluateMarker path maxAge now fs =
     (let (f, fs') = next_fault fs
      in (case f of
            Fail e n \<Rightarrow>
              if errors_Is e ErrNotExist
              then \<lparr>hr_Verdict = HealthAbsent, hr_Age = 0, hr_MaxAge = maxAge, hr_Err = None\<rparr>
              else \<lparr>hr_Verdict = HealthIndeterminate, hr_Age = 0, hr_MaxAge = maxAge, hr_Err = Some e\<rparr>
          | Pass \<Rightarrow>
              (case fs_lookup fs' path of
                 None \<Rightarrow> \<lparr>hr_Verdict = HealthAbsent, hr_Age = 0, hr_MaxAge = maxAge, hr_Err = None\<rparr>
               | Some i \<Rightarrow> evaluateMarkerAge (fi_ModTime i) now maxAge),
          fs'))"

definition IsFresh :: "string \<Rightarrow> duration \<Rightarrow> time \<Rightarrow> fsys \<Rightarrow> HealthResult \<times> fsys" where
  "IsFresh dir maxAge now fs = EvaluateMarker (healthyPath dir) maxAge now fs"

definition IsHealthy :: "string \<Rightarrow> time \<Rightarrow> fsys \<Rightarrow> bool \<times> fsys" where
  "IsHealthy dir now fs =
     (let (r, fs') = EvaluateMarker (healthyPath dir) 0 now fs in (hr_OK r, fs'))"

section \<open>Distinct paths\<close>

definition last_comp :: "string \<Rightarrow> string" where
  "last_comp p = rev (takeWhile (\<lambda>c. c \<noteq> CHR ''/'') (rev p))"

definition plain_name :: "string \<Rightarrow> bool" where
  "plain_name n \<longleftrightarrow> n \<noteq> [] \<and> n \<noteq> ''.'' \<and> n \<noteq> ''..'' \<and> CHR ''/'' \<notin> set n"

lemma last_comp_append: "CHR ''/'' \<notin> set n \<Longrightarrow> last_comp (x @ CHR ''/'' # n) = n"
proof -
  assume "CHR ''/'' \<notin> set n"
  then have "takeWhile (\<lambda>c. c \<noteq> CHR ''/'') (rev n @ CHR ''/'' # rev x) = rev n"
    by (subst takeWhile_append2) auto
  then show ?thesis by (simp add: last_comp_def)
qed

lemma last_comp_plain: "CHR ''/'' \<notin> set n \<Longrightarrow> last_comp n = n"
proof -
  assume "CHR ''/'' \<notin> set n"
  then have "takeWhile (\<lambda>c. c \<noteq> CHR ''/'') (rev n) = rev n"
    unfolding takeWhile_eq_all_conv by auto
  then show ?thesis by (simp only: last_comp_def rev_rev_ident)
qed

lemma last_comp_Join:
  assumes "plain_name n"
  shows "last_comp (path_Join d n) = n"
proof -
  have slash: "CHR ''/'' \<notin> set n" and ne: "n \<noteq> []"
    using assms by (simp_all add: plain_name_def)
  have step: "clean_step r st n = n # st" for r st
    using assms by (simp add: clean_step_def plain_name_def)
  have join: "last_comp (go_Join (rev (n # st)) ''/'') = n" "go_Join (rev (n # st)) ''/'' \<noteq> []" for st
  proof -
    show "last_comp (go_Join (rev (n # st)) ''/'') = n"
      using go_Join_snoc [of "rev st" n "''/''"] last_comp_append [OF slash, of "go_Join (rev st) ''/''"]
        last_comp_plain [OF slash]
      by (cases "st = []") simp_all
    show "go_Join (rev (n # st)) ''/'' \<noteq> []"
      using go_Join_snoc [of "rev st" n "''/''"] ne by (cases "st = []") simp_all
  qed
  have rooted: "last_comp (CHR ''/'' # b) = last_comp b" if "last_comp b = n" for b
  proof (cases "CHR ''/'' \<in> set b")
    case True
    then show ?thesis by (simp add: last_comp_def takeWhile_append1)
  next
    case False
    then show ?thesis using last_comp_append [of b "[]"] last_comp_plain [of b] by simp
  qed
  show ?thesis
  proof (cases "d = []")
    case True
    have "go_Split n CHR ''/'' = [n]" using go_Split_snoc [OF slash, of "[]"] by simp
    moreover have "hd n \<noteq> CHR ''/''" using slash ne by (cases n) auto
    ultimately show ?thesis
      using True ne by (simp add: path_Join_def path_Clean_def step last_comp_plain [OF slash])
  next
    case False
    then show ?thesis
      using join rooted go_Split_snoc [OF slash, of d]
      by (simp add: path_Join_def path_Clean_def Let_def step)
  qed
qed

lemma last_comp_temp: "CHR ''/'' \<notin> set pre \<Longrightarrow> last_comp (temp_name dir pre n) = pre @ format_nat n"
proof -
  assume pre: "CHR ''/'' \<notin> set pre"
  have "CHR ''/'' \<notin> set (format_nat n)"
    using format_nat_digits [of n] by (auto simp: list_all_iff is_digit_def)
  with pre have slash: "CHR ''/'' \<notin> set (pre @ format_nat n)" by simp
  obtain x where "temp_name dir pre n = x @ CHR ''/'' # (pre @ format_nat n)"
  proof (cases "dir \<noteq> [] \<and> last dir = CHR ''/''")
    case True
    then obtain d where "dir = d @ [CHR ''/'']" by (cases dir rule: rev_cases) auto
    then show ?thesis by (intro that [of d]) (simp add: temp_name_def)
  next
    case False
    then show ?thesis by (intro that [of dir]) (auto simp: temp_name_def)
  qed
  then show ?thesis by (simp add: last_comp_append [OF slash])
qed

lemma pick_temp_fresh:
  "pick_temp used dir pre ns = Some (p, ms) \<Longrightarrow> \<not> used p \<and> (\<exists>n. p = temp_name dir pre n)"
  by (induction ns) (auto split: if_splits)

section \<open>Effects of the system calls\<close>

lemma next_fault_files [simp]:
  "next_fault fs = (f, fs') \<Longrightarrow> fs_lookup fs' = fs_lookup fs \<and> fs_clock fs' = fs_clock fs"
  by (auto simp: next_fault_def fs_lookup_def split: list.splits)

lemma fs_lookup_set [simp]: "fs_lookup (fs_set p i fs) = (fs_lookup fs)(p \<mapsto> i)"
  by (simp add: fs_lookup_def fs_set_def update_conv')

lemma fs_lookup_unset [simp]: "fs_lookup (fs_unset p fs) = (fs_lookup fs)(p := None)"
  by (simp add: fs_lookup_def fs_unset_def delete_conv')

lemma fs_clock_set [simp]: "fs_clock (fs_set p i fs) = fs_clock fs" "fs_clock (fs_unset p fs) = fs_clock fs"
  by (simp_all add: fs_set_def fs_unset_def)

lemma fs_lookup_random [simp]: "fs_lookup (fs\<lparr>fs_random := ns\<rparr>) = fs_lookup fs"
  by (simp add: fs_lookup_def)

lemma os_call_files: "os_call fs = (e, fs') \<Longrightarrow> fs_lookup fs' = fs_lookup fs \<and> fs_clock fs' = fs_clock fs"
  by (auto simp: os_call_def split: prod.splits fault.splits dest: next_fault_files)

lemma os_Remove_files:
  "os_Remove p fs = (e, fs') \<Longrightarrow> (fs_lookup fs' = fs_lookup fs \<or> fs_lookup fs' = (fs_lookup fs)(p := None)) \<and>
     fs_clock fs' = fs_clock fs \<and> (e = None \<longrightarrow> fs_lookup fs' p = None) \<and>
     (e = Some ErrNotExist \<longrightarrow> fs_lookup fs' = fs_lookup fs)"
  by (auto simp: os_Remove_def split: prod.splits fault.splits option.splits dest: next_fault_files)

lemma os_Rename_files:
  assumes "os_Rename old new fs = (e, fs')"
  shows "(e \<noteq> None \<longrightarrow> fs_lookup fs' = fs_lookup fs) \<and>
    (e = None \<longrightarrow> (\<exists>i. fs_lookup fs old = Some i \<and> fs_lookup fs' = (fs_lookup fs)(old := None, new \<mapsto> i)))"
  using assms
  by (auto simp: os_Rename_def split: prod.splits fault.splits option.splits dest: next_fault_files)

lemma file_Write_files:
  assumes "file_Write p data fs = (e, fs')" and "fs_lookup fs p = Some i"
  shows "\<exists>d. fs_lookup fs' = (fs_lookup fs)(p \<mapsto> i\<lparr>fi_Data := d, fi_ModTime := fs_clock fs\<rparr>) \<and>
    (e = None \<longrightarrow> d = data) \<and> fs_clock fs' = fs_clock fs"
  using assms
  by (auto simp: file_Write_def Let_def split: prod.splits fault.splits option.splits dest: next_fault_files)

lemma file_Chmod_files:
  assumes "file_Chmod p mode fs = (e, fs')" and "fs_lookup fs p = Some i"
  shows "\<exists>m. fs_lookup fs' = (fs_lookup fs)(p \<mapsto> i\<lparr>fi_Mode := m\<rparr>) \<and> (e = None \<longrightarrow> m = mode) \<and>
    fs_clock fs' = fs_clock fs"
  using assms
  by (auto simp: file_Chmod_def Let_def fun_upd_idem split: prod.splits fault.splits option.splits
      dest!: next_fault_files intro: exI [of _ "fi_Mode i"])

lemma os_CreateTemp_files:
  assumes "os_CreateTemp dir pre fs = (x, fs')"
  shows "case x of
      Inl e \<Rightarrow> fs_lookup fs' = fs_lookup fs
    | Inr tmp \<Rightarrow> fs_lookup fs tmp = None \<and> (\<exists>n. tmp = temp_name dir pre n) \<and>
        fs_lookup fs' = (fs_lookup fs)(tmp \<mapsto> \<lparr>fi_Data = [], fi_Mode = 384, fi_ModTime = fs_clock fs\<rparr>) \<and>
        fs_clock fs' = fs_clock fs"
  using assms
  by (auto simp: os_CreateTemp_def split: prod.splits fault.splits option.splits
      dest!: pick_temp_fresh next_fault_files)

lemma remove_quietly_files:
  "fs_lookup (remove_quietly p fs) = fs_lookup fs \<or> fs_lookup (remove_quietly p fs) = (fs_lookup fs)(p := None)"
  using os_Remove_files [of p fs "fst (os_Remove p fs)" "snd (os_Remove p fs)"]
  by (auto simp: remove_quietly_def)

lemma close_quietly_files: "fs_lookup (close_quietly fs) = fs_lookup fs"
  using os_call_files [of fs "fst (os_call fs)" "snd (os_call fs)"] by (simp add: close_quietly_def)

text \<open>
  An atomic write leaves every file but its own and one fresh temporary alone.  When it succeeds
  the file is the new one; when it fails the file is what it was.
\<close>

definition temp_of :: "string \<Rightarrow> string \<Rightarrow> bool" where
  "temp_of path p \<longleftrightarrow> (\<exists>n. p = temp_name (path_Dir path) ''.tmp-'' n)"

lemma writeFileAtomic_effect:
  assumes "writeFileAtomic path data mode fs = (e, fs')" and "\<not> temp_of path path"
  shows "(\<forall>p. p \<noteq> path \<longrightarrow> \<not> (temp_of path p \<and> fs_lookup fs p = None) \<longrightarrow> fs_lookup fs' p = fs_lookup fs p) \<and>
    (e \<noteq> None \<longrightarrow> fs_lookup fs' path = fs_lookup fs path) \<and>
    (e = None \<longrightarrow> fs_lookup fs' path = Some \<lparr>fi_Data = data, fi_Mode = mode, fi_ModTime = fs_clock fs\<rparr>)"
proof -
  obtain x fs1 where c: "os_CreateTemp (path_Dir path) ''.tmp-'' fs = (x, fs1)" by fastforce
  show ?thesis
  proof (cases x)
    case (Inl err)
    then show ?thesis
      using assms(1) os_CreateTemp_files [OF c] by (auto simp: writeFileAtomic_def c)
  next
    case (Inr tmp)
    let ?i = "\<lparr>fi_Data = [], fi_Mode = 384, fi_ModTime = fs_clock fs\<rparr>"
    have tmp: "fs_lookup fs tmp = None" "temp_of path tmp" "fs_lookup fs1 = (fs_lookup fs)(tmp \<mapsto> ?i)"
      "fs_clock fs1 = fs_clock fs"
      using os_CreateTemp_files [OF c] Inr by (auto simp: temp_of_def)
    have ne: "tmp \<noteq> path" using tmp(2) assms(2) by auto
    obtain e2 fs2 where w: "file_Write tmp data fs1 = (e2, fs2)" by fastforce
    obtain e3 fs3 where m: "file_Chmod tmp mode fs2 = (e3, fs3)" by fastforce
    obtain e4 fs4 where cl: "os_call fs3 = (e4, fs4)" by fastforce
    obtain d where fs2: "fs_lookup fs2 = (fs_lookup fs)(tmp \<mapsto> ?i\<lparr>fi_Data := d\<rparr>)" "e2 = None \<longrightarrow> d = data"
      using file_Write_files [OF w, of ?i] tmp by auto
    obtain md where fs3: "fs_lookup fs3 = (fs_lookup fs)(tmp \<mapsto> ?i\<lparr>fi_Data := d, fi_Mode := md\<rparr>)"
      "e3 = None \<longrightarrow> md = mode"
      using file_Chmod_files [OF m, of "?i\<lparr>fi_Data := d\<rparr>"] fs2 by auto
    have fs4: "fs_lookup fs4 = fs_lookup fs3" using os_call_files [OF cl] by simp
    have clean: "fs_lookup (remove_quietly tmp f) p = fs_lookup f p" if "p \<noteq> tmp" for f p
      using remove_quietly_files [of tmp f] that by auto
    have keep: "fs_lookup fs p = None" if "p = tmp" for p using tmp(1) that by simp
    show ?thesis
    proof (cases "e2 = None \<and> e3 = None \<and> e4 = None")
      case True
      then have r: "os_Rename tmp path fs4 = (e, fs')"
        using assms(1) Inr by (simp add: writeFileAtomic_def c w m cl)
      then show ?thesis
        using os_Rename_files [OF r] True fs3 fs2(2) fs4 ne tmp(1,2) by (auto split: if_splits)
    next
      case False
      have "e \<noteq> None \<and> (\<forall>p. p \<noteq> tmp \<longrightarrow> fs_lookup fs' p = fs_lookup fs p)"
        using assms(1) Inr False
        by (auto simp: writeFileAtomic_def c w m cl clean close_quietly_files fs2 fs3 fs4 split: if_splits)
      then show ?thesis using ne tmp(1,2) by auto (metis option.distinct(1))
    qed
  qed
qed

section \<open>The three files\<close>

lemma state_paths:
  "last_comp (holderPath d) = ''holder''" "last_comp (tokenPath d) = ''token''"
  "last_comp (healthyPath d) = ''healthy''"
  by (simp_all add: holderPath_def tokenPath_def healthyPath_def last_comp_Join plain_name_def)

lemma temp_of_comp: "temp_of path p \<Longrightarrow> \<exists>n. last_comp p = ''.tmp-'' @ format_nat n"
  using last_comp_temp [of "''.tmp-''"] by (auto simp: temp_of_def)

lemma state_paths_not_temp:
  "\<not> temp_of q (holderPath d)" "\<not> temp_of q (tokenPath d)" "\<not> temp_of q (healthyPath d)"
  using temp_of_comp [of q "holderPath d"] temp_of_comp [of q "tokenPath d"] temp_of_comp [of q "healthyPath d"]
  by (auto simp: state_paths)

lemma state_paths_distinct:
  "holderPath d \<noteq> tokenPath d" "holderPath d \<noteq> healthyPath d" "tokenPath d \<noteq> healthyPath d"
  by (rule notI, drule arg_cong [where f = last_comp], simp add: state_paths)+

text \<open>An atomic write of one of the files, seen on all three.\<close>

definition state_file :: "string \<Rightarrow> string \<Rightarrow> bool" where
  "state_file d p \<longleftrightarrow> p \<in> {holderPath d, tokenPath d, healthyPath d}"

lemma atomic_state_write:
  assumes "writeFileAtomic path data mode fs = (e, fs')" and "state_file d path" and "state_file d p"
  shows "fs_lookup fs' p =
    (if p = path \<and> e = None then Some \<lparr>fi_Data = data, fi_Mode = mode, fi_ModTime = fs_clock fs\<rparr>
     else fs_lookup fs p)"
proof -
  have "\<not> temp_of path path" "\<not> temp_of path p"
    using assms(2,3) state_paths_not_temp unfolding state_file_def by blast+
  with writeFileAtomic_effect [OF assms(1)] show ?thesis by auto
qed

lemma state_file_intros [simp]:
  "state_file d (holderPath d)" "state_file d (tokenPath d)" "state_file d (healthyPath d)"
  by (simp_all add: state_file_def)

lemma MarkHealthy_effect:
  assumes "MarkHealthy d fs = (e, fs')" and "state_file d p"
  shows "fs_lookup fs' p =
    (if p = healthyPath d \<and> e = None
     then Some \<lparr>fi_Data = marker_data, fi_Mode = 420, fi_ModTime = fs_clock fs\<rparr>
     else fs_lookup fs p)"
proof -
  obtain e1 fs1 where c: "os_call fs = (e1, fs1)" by fastforce
  obtain e2 fs2 where w: "writeFileAtomic (healthyPath d) marker_data 420 fs1 = (e2, fs2)"
    by fastforce
  show ?thesis
    using assms(1) os_call_files [OF c] atomic_state_write [OF w _ assms(2)]
    by (auto simp: MarkHealthy_def c w wrap_opt_def split: if_splits)
qed

lemma MarkUnhealthy_effect:
  assumes "MarkUnhealthy d fs = (e, fs')"
  shows "(e = None \<longrightarrow> fs_lookup fs' (healthyPath d) = None \<or> fs_lookup fs' = fs_lookup fs) \<and>
    (\<forall>p. p \<noteq> healthyPath d \<longrightarrow> fs_lookup fs' p = fs_lookup fs p)"
proof -
  obtain e1 fs1 where r: "os_Remove (healthyPath d) fs = (e1, fs1)" by fastforce
  show ?thesis
    using assms os_Remove_files [OF r]
    by (auto simp: MarkUnhealthy_def r split: option.splits if_splits)
qed

lemma WriteAcquired_effect:
  assumes "WriteAcquired d h tok fs = (e, fs')"
  shows "\<exists>i j k. i \<ge> j \<and> j \<ge> k \<and> (e = None \<longleftrightarrow> k) \<and>
    fs_lookup fs' (holderPath d) =
      (if i then Some \<lparr>fi_Data = h, fi_Mode = 420, fi_ModTime = fs_clock fs\<rparr>
       else fs_lookup fs (holderPath d)) \<and>
    map_option fi_Data (fs_lookup fs' (tokenPath d)) =
      (if j then Some (FormatInt (sint tok)) else map_option fi_Data (fs_lookup fs (tokenPath d))) \<and>
    map_option fi_Data (fs_lookup fs' (healthyPath d)) =
      (if k then Some marker_data else map_option fi_Data (fs_lookup fs (healthyPath d)))"
proof -
  obtain e1 fs1 where c: "os_call fs = (e1, fs1)" by fastforce
  obtain e2 fs2 where w: "writeFileAtomic (holderPath d) h 420 fs1 = (e2, fs2)" by fastforce
  obtain e3 fs3 where t: "writeFileAtomic (tokenPath d) (FormatInt (sint tok)) 420 fs2 = (e3, fs3)" by fastforce
  obtain e4 fs4 where m: "MarkHealthy d fs3 = (e4, fs4)" by fastforce
  note f1 = os_call_files [OF c]
    and f2 = atomic_state_write [OF w, where d = d] and f3 = atomic_state_write [OF t, where d = d]
    and f4 = MarkHealthy_effect [OF m]
  have fs': "fs' = (if e1 \<noteq> None then fs1 else if e2 \<noteq> None then fs2 else if e3 \<noteq> None then fs3 else fs4)"
    using assms by (simp add: WriteAcquired_def c w t m split: if_splits)
  note ne = state_paths_distinct [of d] state_paths_distinct [of d, symmetric]
  let ?i = "e1 = None \<and> e2 = None" and ?j = "e1 = None \<and> e2 = None \<and> e3 = None"
  let ?k = "?j \<and> e4 = None"
  have e: "e = None \<longleftrightarrow> ?k"
    using assms by (auto simp: WriteAcquired_def c w t m wrap_opt_def split: if_splits)
  have holder: "fs_lookup fs' (holderPath d) =
      (if ?i then Some \<lparr>fi_Data = h, fi_Mode = 420, fi_ModTime = fs_clock fs\<rparr>
       else fs_lookup fs (holderPath d))"
    by (simp add: fs' f1 f2 f3 f4 ne)
  have token: "map_option fi_Data (fs_lookup fs' (tokenPath d)) =
      (if ?j then Some (FormatInt (sint tok)) else map_option fi_Data (fs_lookup fs (tokenPath d)))"
    by (simp add: fs' f1 f2 f3 f4 ne)
  have marker: "map_option fi_Data (fs_lookup fs' (healthyPath d)) =
      (if ?k then Some marker_data else map_option fi_Data (fs_lookup fs (healthyPath d)))"
    by (simp add: fs' f1 f2 f3 f4 ne)
  have "?i \<ge> ?j" "?j \<ge> ?k" by auto
  with e holder token marker show ?thesis by blast
qed

section \<open>Absence of the marker\<close>

text \<open>
  A call that fails does so for a reason other than a missing file: "not found" is what the model
  itself answers.
\<close>

definition fs_ok :: "fsys \<Rightarrow> bool" where
  "fs_ok fs \<longleftrightarrow>
     list_all (\<lambda>f. case f of Pass \<Rightarrow> True | Fail e n \<Rightarrow> \<not> errors_Is e ErrNotExist) (fs_faults fs)"

lemma fs_ok_simps [simp]:
  "fs_ok (fs_set p i fs) = fs_ok fs" "fs_ok (fs_unset p fs) = fs_ok fs"
  "fs_ok (fs\<lparr>fs_random := ns\<rparr>) = fs_ok fs"
  by (simp_all add: fs_ok_def fs_set_def fs_unset_def)

lemma next_fault_ok: "fs_ok fs \<Longrightarrow> next_fault fs = (f, fs') \<Longrightarrow>
    fs_ok fs' \<and> (case f of Pass \<Rightarrow> True | Fail e n \<Rightarrow> \<not> errors_Is e ErrNotExist)"
  by (auto simp: next_fault_def fs_ok_def split: list.splits)

named_theorems fs_ok_dests \<open>every system call keeps the fault script well-formed\<close>

lemma os_call_ok [fs_ok_dests]: "os_call fs = (e, fs') \<Longrightarrow> fs_ok fs \<longrightarrow> fs_ok fs'"
  by (auto simp: os_call_def dest: next_fault_ok split: prod.splits fault.splits)

lemma os_ReadFile_ok [fs_ok_dests]: "os_ReadFile p fs = (x, fs') \<Longrightarrow> fs_ok fs \<longrightarrow> fs_ok fs'"
  by (auto simp: os_ReadFile_def dest: next_fault_ok split: prod.splits fault.splits option.splits)

lemma os_Remove_ok [fs_ok_dests]: "os_Remove p fs = (e, fs') \<Longrightarrow> fs_ok fs \<longrightarrow> fs_ok fs'"
  by (auto simp: os_Remove_def dest: next_fault_ok split: prod.splits fault.splits option.splits)

lemma os_Rename_ok [fs_ok_dests]: "os_Rename p q fs = (e, fs') \<Longrightarrow> fs_ok fs \<longrightarrow> fs_ok fs'"
  by (auto simp: os_Rename_def dest: next_fault_ok split: prod.splits fault.splits option.splits)

lemma file_Write_ok [fs_ok_dests]: "file_Write p d fs = (e, fs') \<Longrightarrow> fs_ok fs \<longrightarrow> fs_ok fs'"
  by (auto simp: file_Write_def Let_def dest: next_fault_ok split: prod.splits fault.splits option.splits)

lemma file_Chmod_ok [fs_ok_dests]: "file_Chmod p m fs = (e, fs') \<Longrightarrow> fs_ok fs \<longrightarrow> fs_ok fs'"
  by (auto simp: file_Chmod_def dest: next_fault_ok split: prod.splits fault.splits option.splits)

lemma os_CreateTemp_ok [fs_ok_dests]: "os_CreateTemp d p fs = (x, fs') \<Longrightarrow> fs_ok fs \<longrightarrow> fs_ok fs'"
  by (auto simp: os_CreateTemp_def dest: next_fault_ok split: prod.splits fault.splits option.splits)

lemma quietly_ok: "fs_ok fs \<Longrightarrow> fs_ok (remove_quietly p fs)" "fs_ok fs \<Longrightarrow> fs_ok (close_quietly fs)"
  using os_Remove_ok [of p fs "fst (os_Remove p fs)" "snd (os_Remove p fs)"]
    os_call_ok [of fs "fst (os_call fs)" "snd (os_call fs)"]
  by (simp_all add: remove_quietly_def close_quietly_def)

lemma writeFileAtomic_ok [fs_ok_dests]:
  "writeFileAtomic p d m fs = (e, fs') \<Longrightarrow> fs_ok fs \<longrightarrow> fs_ok fs'"
  unfolding writeFileAtomic_def
  by (auto split: prod.splits sum.splits if_splits dest!: fs_ok_dests intro: quietly_ok)

lemma MarkHealthy_ok [fs_ok_dests]: "MarkHealthy d fs = (e, fs') \<Longrightarrow> fs_ok fs \<longrightarrow> fs_ok fs'"
  unfolding MarkHealthy_def by (auto split: prod.splits if_splits dest!: fs_ok_dests)

lemma MarkUnhealthy_ok [fs_ok_dests]: "MarkUnhealthy d fs = (e, fs') \<Longrightarrow> fs_ok fs \<longrightarrow> fs_ok fs'"
  unfolding MarkUnhealthy_def by (auto split: prod.splits option.splits if_splits dest!: fs_ok_dests)

lemma WriteAcquired_ok [fs_ok_dests]: "WriteAcquired d h t fs = (e, fs') \<Longrightarrow> fs_ok fs \<longrightarrow> fs_ok fs'"
  unfolding WriteAcquired_def by (auto split: prod.splits if_splits dest!: fs_ok_dests)

lemma MarkUnhealthy_absent:
  assumes "MarkUnhealthy d fs = (None, fs')" and "fs_ok fs"
  shows "fs_lookup fs' (healthyPath d) = None"
proof -
  obtain f fs1 where f: "next_fault fs = (f, fs1)" by fastforce
  show ?thesis
    using assms(1) next_fault_ok [OF assms(2) f] next_fault_files [OF f]
    by (auto simp: MarkUnhealthy_def os_Remove_def f split: fault.splits option.splits if_splits)
qed

lemma MarkUnhealthy_gated:
  "MarkUnhealthy d fs = (e, fs') \<Longrightarrow> fs_lookup fs (healthyPath d) = None \<Longrightarrow> fs_lookup fs' (healthyPath d) = None"
proof -
  assume m: "MarkUnhealthy d fs = (e, fs')" and absent: "fs_lookup fs (healthyPath d) = None"
  obtain e1 fs1 where r: "os_Remove (healthyPath d) fs = (e1, fs1)" by fastforce
  have "fs' = fs1"
    using m by (auto simp: MarkUnhealthy_def r split: option.splits if_splits)
  with os_Remove_files [OF r] absent show ?thesis by auto
qed

section \<open>The probe binary\<close>

text \<open>Installing the probe binary leaves the three files alone, whatever fails.\<close>

lemma frame_simps:
  "file_Write p d fs = (e, fs') \<Longrightarrow> q \<noteq> p \<Longrightarrow> fs_lookup fs' q = fs_lookup fs q"
  "file_Chmod p m fs = (e, fs') \<Longrightarrow> q \<noteq> p \<Longrightarrow> fs_lookup fs' q = fs_lookup fs q"
  "os_Rename p r fs = (e, fs') \<Longrightarrow> q \<noteq> p \<Longrightarrow> q \<noteq> r \<Longrightarrow> fs_lookup fs' q = fs_lookup fs q"
  "os_ReadFile r fs = (x, fs') \<Longrightarrow> fs_lookup fs' q = fs_lookup fs q"
  by (auto simp: file_Write_def file_Chmod_def os_Rename_def os_ReadFile_def Let_def
      split: prod.splits fault.splits option.splits dest!: next_fault_files)

lemma remove_quietly_frame: "q \<noteq> p \<Longrightarrow> fs_lookup (remove_quietly p fs) q = fs_lookup fs q"
  using remove_quietly_files [of p fs] by auto

lemma copyFile_frame:
  assumes "copyFile src dst mode fs = (e, fs')" and "q \<noteq> dst"
    and "\<And>n. q \<noteq> temp_name (path_Dir dst) ''.check-'' n"
  shows "fs_lookup fs' q = fs_lookup fs q"
proof -
  obtain x fs0 where r: "os_ReadFile src fs = (x, fs0)" by fastforce
  obtain y fs1 where c: "os_CreateTemp (path_Dir dst) ''.check-'' fs0 = (y, fs1)" by fastforce
  show ?thesis
  proof (cases "isl x \<or> isl y")
    case True
    then show ?thesis
      using assms(1) os_CreateTemp_files [OF c] frame_simps(4) [OF r]
      by (cases x; cases y; simp add: copyFile_def r c)
  next
    case False
    then obtain data tmp where xy: "x = Inr data" "y = Inr tmp" by (cases x; cases y) auto
    obtain e2 fs2 where w: "file_Write tmp data fs1 = (e2, fs2)" by fastforce
    obtain e3 fs3 where m: "file_Chmod tmp mode fs2 = (e3, fs3)" by fastforce
    obtain e4 fs4 where cl: "os_call fs3 = (e4, fs4)" by fastforce
    obtain e5 fs5 where rn: "os_Rename tmp dst fs4 = (e5, fs5)" by fastforce
    have q: "q \<noteq> tmp" using os_CreateTemp_files [OF c] xy assms(3) by auto
    have "fs_lookup fs1 q = fs_lookup fs q"
      using os_CreateTemp_files [OF c] frame_simps(4) [OF r] xy q by simp
    then have eqs: "fs_lookup fs2 q = fs_lookup fs q" "fs_lookup fs3 q = fs_lookup fs q"
      "fs_lookup fs4 q = fs_lookup fs q" "fs_lookup fs5 q = fs_lookup fs q"
      using frame_simps(1) [OF w q] frame_simps(2) [OF m q] os_call_files [OF cl]
        frame_simps(3) [OF rn q assms(2)] by simp_all
    show ?thesis
      using assms(1) eqs
      by (auto simp: copyFile_def r c xy w m cl rn remove_quietly_frame [OF q] close_quietly_files
          split: if_splits)
  qed
qed

lemma InstallCheckBinary_frame:
  assumes "InstallCheckBinary d self fs = (e, fs')" and "state_file d p"
  shows "fs_lookup fs' p = fs_lookup fs p"
proof -
  have comp: "last_comp (CheckPath d) = ''check''"
    by (simp add: CheckPath_def last_comp_Join plain_name_def)
  have lp: "last_comp p \<in> {''holder'', ''token'', ''healthy''}"
    using assms(2) state_paths by (auto simp: state_file_def)
  have ne: "p \<noteq> CheckPath d" using lp comp by auto
  have nt: "p \<noteq> temp_name (path_Dir (CheckPath d)) ''.check-'' n" for n
    using lp last_comp_temp [of "''.check-''" "path_Dir (CheckPath d)" n] by auto
  obtain e1 fs1 where c: "os_call fs = (e1, fs1)" by fastforce
  show ?thesis
    using assms(1) os_call_files [OF c] copyFile_frame [OF _ ne nt]
    by (auto simp: InstallCheckBinary_def c split: sum.splits if_splits)
qed

lemma copyFile_ok [fs_ok_dests]: "copyFile s d m fs = (e, fs') \<Longrightarrow> fs_ok fs \<longrightarrow> fs_ok fs'"
  unfolding copyFile_def
  by (auto split: prod.splits sum.splits if_splits dest!: fs_ok_dests intro: quietly_ok)

lemma InstallCheckBinary_ok [fs_ok_dests]:
  "InstallCheckBinary d self fs = (e, fs') \<Longrightarrow> fs_ok fs \<longrightarrow> fs_ok fs'"
  unfolding InstallCheckBinary_def by (auto split: prod.splits sum.splits if_splits dest!: fs_ok_dests)

section \<open>Properties\<close>

text \<open>
  C29. The handoff files are atomic and ordered.  Whatever system calls fail, and however much of
  a failing write reached the disk, after \<open>WriteAcquired\<close> each of the three files is exactly the
  old one or exactly the new one; the token file is new only if the holder file is, the health
  marker only if both are; and the call reports success exactly when all three are new.
\<close>

theorem handoff_files_are_atomic:
  assumes "WriteAcquired d h tok fs = (e, fs')"
  shows "\<exists>i j k. i \<ge> j \<and> j \<ge> k \<and> (e = None \<longleftrightarrow> k) \<and>
    map_option fi_Data (fs_lookup fs' (holderPath d)) =
      (if i then Some h else map_option fi_Data (fs_lookup fs (holderPath d))) \<and>
    map_option fi_Data (fs_lookup fs' (tokenPath d)) =
      (if j then Some (FormatInt (sint tok)) else map_option fi_Data (fs_lookup fs (tokenPath d))) \<and>
    map_option fi_Data (fs_lookup fs' (healthyPath d)) =
      (if k then Some marker_data else map_option fi_Data (fs_lookup fs (healthyPath d)))"
proof -
  from WriteAcquired_effect [OF assms] obtain i j k where ijk: "i \<ge> j \<and> j \<ge> k \<and> (e = None \<longleftrightarrow> k)" and
    holder: "fs_lookup fs' (holderPath d) =
      (if i then Some \<lparr>fi_Data = h, fi_Mode = 420, fi_ModTime = fs_clock fs\<rparr>
       else fs_lookup fs (holderPath d))" and
    rest: "map_option fi_Data (fs_lookup fs' (tokenPath d)) =
      (if j then Some (FormatInt (sint tok)) else map_option fi_Data (fs_lookup fs (tokenPath d)))"
      "map_option fi_Data (fs_lookup fs' (healthyPath d)) =
      (if k then Some marker_data else map_option fi_Data (fs_lookup fs (healthyPath d)))"
    by blast
  show ?thesis
    by (intro exI [of _ i] exI [of _ j] exI [of _ k] conjI) (use ijk rest in \<open>simp_all add: holder\<close>)
qed

text \<open>The eighth call, the write of the token, fails after two bytes.\<close>

definition torn_fs :: fsys where
  "torn_fs =
     \<lparr>fs_files = [(''/berth/holder'', \<lparr>fi_Data = ''old'', fi_Mode = 420, fi_ModTime = 1\<rparr>),
                  (''/berth/token'', \<lparr>fi_Data = ''6'', fi_Mode = 420, fi_ModTime = 1\<rparr>)],
      fs_clock = 9, fs_faults = replicate 7 Pass @ [Fail (ErrText ''no space left on device'') 2],
      fs_random = [1, 2, 3]\<rparr>"

theorem handoff_files_are_atomic_witness:
  "map_option fi_Data (fs_lookup (snd (WriteAcquired ''/berth'' ''new'' 700 torn_fs)) ''/berth/token'') = Some ''6''"
proof -
  let ?w = "WriteAcquired ''/berth'' ''new'' 700 torn_fs"
  have f: "fst ?w \<noteq> None" "tokenPath ''/berth'' = ''/berth/token''"
    "map_option fi_Data (fs_lookup torn_fs ''/berth/token'') = Some ''6''"
    "map_option fi_Data (fs_lookup (snd ?w) ''/berth/token'') \<noteq> Some (FormatInt (sint (700 :: int32)))"
    by code_simp+
  have w: "?w = (fst ?w, snd ?w)" by simp
  from handoff_files_are_atomic [OF w] f show ?thesis by (auto split: if_splits)
qed

end
