(* ===== verification/Acquire_Config.thy ===== *)
theory Acquire_Config
  imports Lease_Core Auth_Tenant
begin

text \<open>
  Configuration of the injected helper: \<open>internal/acquire/config.go\<close>, \<open>internal/acquire/env.go\<close>,
  and the layering of command-line flags in \<open>cmd/berth-acquire/main.go\<close>.

  Modes and enforcement kinds are strings, as in the source, so that a configuration may hold an
  invalid one.  A pointer to a bool is an option.  The environment is a function from names to
  values (empty when unset).  A command line is a record of the flags that were set explicitly;
  parsing it is the work of the \<open>cobra\<close> library.  Seconds become durations by a multiplication
  that wraps at 64 bits.
\<close>

section \<open>The configuration (config.go)\<close>

definition ModeStartupGate :: string where
  "ModeStartupGate = ''startup-gate''"

definition ModeRuntimeSingleton :: string where
  "ModeRuntimeSingleton = ''runtime-singleton''"

definition EnforceProbe :: string where
  "EnforceProbe = ''probe''"

definition EnforceSignal :: string where
  "EnforceSignal = ''signal''"

definition DefaultStateDir :: string where
  "DefaultStateDir = ''/berth''"

record Config =
  cf_LeaseName :: string
  cf_LeaseNamespace :: string
  cf_Mode :: string
  cf_Enforce :: string
  cf_TTL :: duration
  cf_HeartbeatInterval :: duration
  cf_EnforceGrace :: duration
  cf_SignalTarget :: string
  cf_ReleaseOnShutdown :: "bool option"
  cf_HolderIdentity :: string
  cf_ClusterID :: string
  cf_PodNamespace :: string
  cf_PodName :: string
  cf_PodUID :: string
  cf_WorkloadKind :: string
  cf_WorkloadName :: string
  cf_StateDir :: string
  cf_APIServer :: string
  cf_APIKey :: string
  cf_APIKeyFile :: string
  cf_CABundleFile :: string
  cf_ServerName :: string
  cf_InsecureSkipVerify :: bool

text \<open>The assignments run in the order of the source; the later ones read the earlier ones.\<close>

definition ApplyDefaults :: "Config \<Rightarrow> Config" where
  "ApplyDefaults c0 =
     (let c1 = c0\<lparr>cf_StateDir := (if cf_StateDir c0 = [] then DefaultStateDir else cf_StateDir c0)\<rparr>;
          c2 = c1\<lparr>cf_Mode := (if cf_Mode c1 = [] then ModeRuntimeSingleton else cf_Mode c1)\<rparr>;
          c3 = c2\<lparr>cf_Enforce := (if cf_Enforce c2 = [] then EnforceProbe else cf_Enforce c2)\<rparr>;
          c4 = c3\<lparr>cf_LeaseNamespace :=
                 (if cf_LeaseNamespace c3 = [] then cf_PodNamespace c3 else cf_LeaseNamespace c3)\<rparr>;
          c5 = c4\<lparr>cf_HeartbeatInterval :=
                 (if cf_HeartbeatInterval c4 \<le> 0 \<and> cf_TTL c4 > 0 then cf_TTL c4 sdiv 3
                  else cf_HeartbeatInterval c4)\<rparr>
      in c5\<lparr>cf_ReleaseOnShutdown :=
              (case cf_ReleaseOnShutdown c5 of
                 None \<Rightarrow> Some (cf_Mode c5 = ModeRuntimeSingleton)
               | Some r \<Rightarrow> Some r)\<rparr>)"

definition add_part :: "string \<Rightarrow> string list" where
  "add_part s = (if s \<noteq> [] then [s] else [])"

definition holder_parts :: "Config \<Rightarrow> string list" where
  "holder_parts c =
     add_part (cf_ClusterID c) @ add_part (cf_PodNamespace c) @ add_part (cf_WorkloadKind c) @
     add_part (cf_WorkloadName c) @
     (if cf_Mode c = ModeStartupGate then
        (if cf_WorkloadKind c = [] \<and> cf_WorkloadName c = [] then add_part (cf_PodName c) else [])
      else (if cf_PodName c \<noteq> [] then [''pod'', cf_PodName c] else []) @ [''uid'', cf_PodUID c])"

definition Config_Holder :: "Config \<Rightarrow> string" where
  "Config_Holder c =
     (if cf_HolderIdentity c \<noteq> [] then cf_HolderIdentity c
      else
        (case holder_parts c of
           p # q # ps \<Rightarrow> p @ ''/'' @ go_Join (q # ps) '':''
         | ps \<Rightarrow> go_Join ps '':''))"

text \<open>\<open>strings.ContainsAny(s, cs)\<close> for ASCII characters \<open>cs\<close>.\<close>

definition ContainsAny :: "string \<Rightarrow> string \<Rightarrow> bool" where
  "ContainsAny s cs \<longleftrightarrow> list_ex (\<lambda>c. c \<in> set cs) s"

definition uid_separators :: string where
  "uid_separators = '':/ '' @ [CHR 0x09, CHR 0x0D, CHR 0x0A]"

definition check_config :: "Config \<Rightarrow> goerr option" where
  "check_config c =
     (if cf_LeaseName c = [] then Some (ErrText ''lease name is required'')
      else if cf_LeaseNamespace c = [] then
        Some (ErrText ''lease namespace is required (set --lease-namespace or POD_NAMESPACE)'')
      else if cf_Mode c \<noteq> ModeStartupGate \<and> cf_Mode c \<noteq> ModeRuntimeSingleton then
        Some (ErrText ''invalid mode'')
      else if cf_Enforce c \<noteq> EnforceProbe \<and> cf_Enforce c \<noteq> EnforceSignal then
        Some (ErrText ''invalid enforce'')
      else if cf_Mode c = ModeRuntimeSingleton \<and> cf_Enforce c = EnforceSignal \<and> cf_SignalTarget c = [] then
        Some (ErrText ''signal target is required'')
      else if cf_Mode c = ModeRuntimeSingleton \<and> cf_HolderIdentity c = [] \<and> cf_PodUID c = [] then
        Some (ErrText ''pod UID is required for the runtime-singleton holder'')
      else if cf_Mode c = ModeRuntimeSingleton \<and> cf_HolderIdentity c = [] \<and>
        (ContainsAny (cf_PodUID c) uid_separators \<or> TrimSpace (cf_PodUID c) \<noteq> cf_PodUID c) then
        Some (ErrText ''pod UID must be a non-whitespace identity component'')
      else if cf_Mode c = ModeRuntimeSingleton \<and> cf_HolderIdentity c = [] \<and> length (Config_Holder c) > 253 then
        Some (ErrText ''runtime holder exceeds the API limit of 253 bytes'')
      else if cf_TTL c \<le> 0 \<or> cf_TTL c > 2147483647 * second then
        Some (ErrText ''ttl must be positive and at most 2147483647 seconds (the API limit)'')
      else if cf_HeartbeatInterval c \<le> 0 then Some (ErrText ''heartbeat interval must be positive'')
      else if cf_HeartbeatInterval c \<ge> cf_TTL c then
        Some (ErrText ''heartbeat interval must be less than ttl'')
      else if cf_EnforceGrace c < 0 then Some (ErrText ''enforce grace must not be negative'')
      else if cf_APIServer c = [] then Some (ErrText ''api server URL is required'')
      else if cf_APIKey c \<noteq> [] \<and> cf_APIKeyFile c \<noteq> [] then
        Some (ErrText ''api key and api key file are mutually exclusive'')
      else None)"

text \<open>\<open>Validate\<close> changes its receiver: the defaults stay even when it reports an error.\<close>

definition Config_Validate :: "Config \<Rightarrow> goerr option \<times> Config" where
  "Config_Validate c = (let c' = ApplyDefaults c in (check_config c', c'))"

text \<open>The interval of the retries of the init container (\<open>acquire.go\<close>).\<close>

definition retryInterval :: "Config \<Rightarrow> duration" where
  "retryInterval c = (if cf_HeartbeatInterval c > 0 then cf_HeartbeatInterval c else cf_TTL c sdiv 3)"

section \<open>The environment (env.go)\<close>

definition EnvLeaseName :: string where "EnvLeaseName = ''BERTH_LEASE_NAME''"
definition EnvLeaseNamespace :: string where "EnvLeaseNamespace = ''BERTH_LEASE_NAMESPACE''"
definition EnvMode :: string where "EnvMode = ''BERTH_MODE''"
definition EnvEnforce :: string where "EnvEnforce = ''BERTH_ENFORCE''"
definition EnvSignalTarget :: string where "EnvSignalTarget = ''BERTH_SIGNAL_TARGET''"
definition EnvTTLSeconds :: string where "EnvTTLSeconds = ''BERTH_TTL_SECONDS''"
definition EnvHeartbeatSecs :: string where "EnvHeartbeatSecs = ''BERTH_HEARTBEAT_SECONDS''"
definition EnvEnforceGrace :: string where "EnvEnforceGrace = ''BERTH_ENFORCE_GRACE_SECONDS''"
definition EnvReleaseOnDown :: string where "EnvReleaseOnDown = ''BERTH_RELEASE_ON_SHUTDOWN''"
definition EnvHolderIdentity :: string where "EnvHolderIdentity = ''BERTH_HOLDER_IDENTITY''"
definition EnvClusterID :: string where "EnvClusterID = ''BERTH_CLUSTER_ID''"
definition EnvWorkloadKind :: string where "EnvWorkloadKind = ''BERTH_WORKLOAD_KIND''"
definition EnvWorkloadName :: string where "EnvWorkloadName = ''BERTH_WORKLOAD_NAME''"
definition EnvStateDir :: string where "EnvStateDir = ''BERTH_STATE_DIR''"
definition EnvAPIServer :: string where "EnvAPIServer = ''BERTH_API_SERVER''"
definition EnvAPIKey :: string where "EnvAPIKey = ''BERTH_API_KEY''"
definition EnvAPIKeyFile :: string where "EnvAPIKeyFile = ''BERTH_API_KEY_FILE''"
definition EnvCABundleFile :: string where "EnvCABundleFile = ''BERTH_CA_BUNDLE_FILE''"
definition EnvServerName :: string where "EnvServerName = ''BERTH_SERVER_NAME''"
definition EnvInsecure :: string where "EnvInsecure = ''BERTH_INSECURE_SKIP_TLS_VERIFY''"
definition EnvPodNamespace :: string where "EnvPodNamespace = ''POD_NAMESPACE''"
definition EnvPodName :: string where "EnvPodName = ''POD_NAME''"
definition EnvPodUID :: string where "EnvPodUID = ''POD_UID''"

lemmas env_names =
  EnvLeaseName_def EnvLeaseNamespace_def EnvMode_def EnvEnforce_def EnvSignalTarget_def
  EnvTTLSeconds_def EnvHeartbeatSecs_def EnvEnforceGrace_def EnvReleaseOnDown_def
  EnvHolderIdentity_def EnvClusterID_def EnvWorkloadKind_def EnvWorkloadName_def EnvStateDir_def
  EnvAPIServer_def EnvAPIKey_def EnvAPIKeyFile_def EnvCABundleFile_def EnvServerName_def
  EnvInsecure_def EnvPodNamespace_def EnvPodName_def EnvPodUID_def

definition secondsEnv :: "(string \<Rightarrow> string) \<Rightarrow> string \<Rightarrow> duration outcome" where
  "secondsEnv get key =
     (let v = get key in
      if v = [] then Inr 0
      else
        (case Atoi v of
           None \<Rightarrow> Inl (ErrText (key @ '': must be an integer number of seconds''))
         | Some n \<Rightarrow> Inr (seconds n)))"

definition boolEnv :: "(string \<Rightarrow> string) \<Rightarrow> string \<Rightarrow> bool option outcome" where
  "boolEnv get key =
     (let v = get key in
      if v = [] then Inr None
      else (case ParseBool v of None \<Rightarrow> Inl (ErrText key) | Some b \<Rightarrow> Inr (Some b)))"

definition ConfigFromEnv :: "(string \<Rightarrow> string) \<Rightarrow> Config outcome" where
  "ConfigFromEnv get =
     (case secondsEnv get EnvTTLSeconds of
        Inl err \<Rightarrow> Inl err
      | Inr ttl \<Rightarrow>
          (case secondsEnv get EnvHeartbeatSecs of
             Inl err \<Rightarrow> Inl err
           | Inr hb \<Rightarrow>
               (case secondsEnv get EnvEnforceGrace of
                  Inl err \<Rightarrow> Inl err
                | Inr grace \<Rightarrow>
                    (case boolEnv get EnvReleaseOnDown of
                       Inl err \<Rightarrow> Inl err
                     | Inr rel \<Rightarrow>
                         (case boolEnv get EnvInsecure of
                            Inl err \<Rightarrow> Inl err
                          | Inr ins \<Rightarrow>
                              Inr \<lparr>cf_LeaseName = get EnvLeaseName,
                                   cf_LeaseNamespace = get EnvLeaseNamespace,
                                   cf_Mode = get EnvMode, cf_Enforce = get EnvEnforce,
                                   cf_TTL = ttl, cf_HeartbeatInterval = hb, cf_EnforceGrace = grace,
                                   cf_SignalTarget = get EnvSignalTarget, cf_ReleaseOnShutdown = rel,
                                   cf_HolderIdentity = get EnvHolderIdentity,
                                   cf_ClusterID = get EnvClusterID, cf_PodNamespace = get EnvPodNamespace,
                                   cf_PodName = get EnvPodName, cf_PodUID = get EnvPodUID,
                                   cf_WorkloadKind = get EnvWorkloadKind,
                                   cf_WorkloadName = get EnvWorkloadName,
                                   cf_StateDir = get EnvStateDir, cf_APIServer = get EnvAPIServer,
                                   cf_APIKey = get EnvAPIKey, cf_APIKeyFile = get EnvAPIKeyFile,
                                   cf_CABundleFile = get EnvCABundleFile,
                                   cf_ServerName = get EnvServerName,
                                   cf_InsecureSkipVerify = (ins = Some True)\<rparr>)))))"

section \<open>Flags (cmd/berth-acquire/main.go)\<close>

record cliFlags =
  fl_leaseName :: "string option"
  fl_leaseNamespace :: "string option"
  fl_mode :: "string option"
  fl_enforce :: "string option"
  fl_ttlSeconds :: "int option"
  fl_heartbeatSecs :: "int option"
  fl_enforceGrace :: "int option"
  fl_releaseOnDown :: "bool option"
  fl_holderIdentity :: "string option"
  fl_clusterID :: "string option"
  fl_podNamespace :: "string option"
  fl_podName :: "string option"
  fl_podUID :: "string option"
  fl_workloadKind :: "string option"
  fl_workloadName :: "string option"
  fl_stateDir :: "string option"
  fl_apiServer :: "string option"
  fl_apiKey :: "string option"
  fl_apiKeyFile :: "string option"
  fl_caBundleFile :: "string option"
  fl_serverName :: "string option"
  fl_insecure :: "bool option"

definition changed :: "'a option \<Rightarrow> 'a \<Rightarrow> 'a" where
  "changed flag val = (case flag of None \<Rightarrow> val | Some v \<Rightarrow> v)"

definition override_config :: "cliFlags \<Rightarrow> Config \<Rightarrow> Config" where
  "override_config f c =
     \<lparr>cf_LeaseName = changed (fl_leaseName f) (cf_LeaseName c),
      cf_LeaseNamespace = changed (fl_leaseNamespace f) (cf_LeaseNamespace c),
      cf_Mode = changed (fl_mode f) (cf_Mode c),
      cf_Enforce = changed (fl_enforce f) (cf_Enforce c),
      cf_TTL = changed (map_option seconds (fl_ttlSeconds f)) (cf_TTL c),
      cf_HeartbeatInterval = changed (map_option seconds (fl_heartbeatSecs f)) (cf_HeartbeatInterval c),
      cf_EnforceGrace = changed (map_option seconds (fl_enforceGrace f)) (cf_EnforceGrace c),
      cf_SignalTarget = cf_SignalTarget c,
      cf_ReleaseOnShutdown =
        (case fl_releaseOnDown f of None \<Rightarrow> cf_ReleaseOnShutdown c | Some v \<Rightarrow> Some v),
      cf_HolderIdentity = changed (fl_holderIdentity f) (cf_HolderIdentity c),
      cf_ClusterID = changed (fl_clusterID f) (cf_ClusterID c),
      cf_PodNamespace = changed (fl_podNamespace f) (cf_PodNamespace c),
      cf_PodName = changed (fl_podName f) (cf_PodName c),
      cf_PodUID = changed (fl_podUID f) (cf_PodUID c),
      cf_WorkloadKind = changed (fl_workloadKind f) (cf_WorkloadKind c),
      cf_WorkloadName = changed (fl_workloadName f) (cf_WorkloadName c),
      cf_StateDir = changed (fl_stateDir f) (cf_StateDir c),
      cf_APIServer = changed (fl_apiServer f) (cf_APIServer c),
      cf_APIKey = changed (fl_apiKey f) (cf_APIKey c),
      cf_APIKeyFile = changed (fl_apiKeyFile f) (cf_APIKeyFile c),
      cf_CABundleFile = changed (fl_caBundleFile f) (cf_CABundleFile c),
      cf_ServerName = changed (fl_serverName f) (cf_ServerName c),
      cf_InsecureSkipVerify = changed (fl_insecure f) (cf_InsecureSkipVerify c)\<rparr>"

definition flags_config :: "cliFlags \<Rightarrow> (string \<Rightarrow> string) \<Rightarrow> Config outcome" where
  "flags_config f get =
     (case ConfigFromEnv get of
        Inl err \<Rightarrow> Inl err
      | Inr c \<Rightarrow>
          (let (e, c') = Config_Validate (override_config f c)
           in case e of Some err \<Rightarrow> Inl err | None \<Rightarrow> Inr c'))"

definition markerPath :: "string list \<Rightarrow> (string \<Rightarrow> string) \<Rightarrow> string \<Rightarrow> string" where
  "markerPath args get stateDir =
     (if args \<noteq> [] \<and> hd args \<noteq> [] then hd args
      else
        (let d = (if stateDir = [] then get EnvStateDir else stateDir);
             d' = (if d = [] then DefaultStateDir else d)
         in d' @ ''/healthy''))"

section \<open>What a validated configuration satisfies\<close>

text \<open>Each field of the defaulted configuration in terms of the original one.\<close>

lemma ApplyDefaults_sel:
  "cf_StateDir (ApplyDefaults c) = (if cf_StateDir c = [] then DefaultStateDir else cf_StateDir c)"
  "cf_Mode (ApplyDefaults c) = (if cf_Mode c = [] then ModeRuntimeSingleton else cf_Mode c)"
  "cf_Enforce (ApplyDefaults c) = (if cf_Enforce c = [] then EnforceProbe else cf_Enforce c)"
  "cf_LeaseNamespace (ApplyDefaults c) =
     (if cf_LeaseNamespace c = [] then cf_PodNamespace c else cf_LeaseNamespace c)"
  "cf_HeartbeatInterval (ApplyDefaults c) =
     (if cf_HeartbeatInterval c \<le> 0 \<and> cf_TTL c > 0 then cf_TTL c sdiv 3 else cf_HeartbeatInterval c)"
  "cf_TTL (ApplyDefaults c) = cf_TTL c"
  "cf_PodNamespace (ApplyDefaults c) = cf_PodNamespace c"
  "cf_HolderIdentity (ApplyDefaults c) = cf_HolderIdentity c"
  "cf_PodUID (ApplyDefaults c) = cf_PodUID c"
  "cf_ReleaseOnShutdown (ApplyDefaults c) =
     (case cf_ReleaseOnShutdown c of
        None \<Rightarrow> Some ((if cf_Mode c = [] then ModeRuntimeSingleton else cf_Mode c) = ModeRuntimeSingleton)
      | Some r \<Rightarrow> Some r)"
  "cf_LeaseName (ApplyDefaults c) = cf_LeaseName c"
  "cf_EnforceGrace (ApplyDefaults c) = cf_EnforceGrace c"
  "cf_SignalTarget (ApplyDefaults c) = cf_SignalTarget c"
  "cf_ClusterID (ApplyDefaults c) = cf_ClusterID c"
  "cf_PodName (ApplyDefaults c) = cf_PodName c"
  "cf_WorkloadKind (ApplyDefaults c) = cf_WorkloadKind c"
  "cf_WorkloadName (ApplyDefaults c) = cf_WorkloadName c"
  "cf_APIServer (ApplyDefaults c) = cf_APIServer c"
  "cf_APIKey (ApplyDefaults c) = cf_APIKey c"
  "cf_APIKeyFile (ApplyDefaults c) = cf_APIKeyFile c"
  "cf_CABundleFile (ApplyDefaults c) = cf_CABundleFile c"
  "cf_ServerName (ApplyDefaults c) = cf_ServerName c"
  "cf_InsecureSkipVerify (ApplyDefaults c) = cf_InsecureSkipVerify c"
  "Config.more (ApplyDefaults c) = Config.more c"
  unfolding ApplyDefaults_def Let_def by (simp_all cong: option.case_cong)

text \<open>The defaults are idempotent, as their documentation says.\<close>

lemma ApplyDefaults_idem: "ApplyDefaults (ApplyDefaults c) = ApplyDefaults c"
  by (rule Config.equality)
    (simp_all add: ApplyDefaults_sel ModeRuntimeSingleton_def EnforceProbe_def DefaultStateDir_def
      split: option.split)

lemma check_config_timing:
  "check_config c = None \<Longrightarrow>
     0 < cf_HeartbeatInterval c \<and> cf_HeartbeatInterval c < cf_TTL c \<and>
     cf_TTL c \<le> 2147483647 * second \<and> 0 \<le> cf_EnforceGrace c"
  by (simp add: check_config_def guard_None)

lemma check_config_runtime:
  assumes "check_config c = None" and "cf_Mode c = ModeRuntimeSingleton" and "cf_HolderIdentity c = []"
  shows "cf_PodUID c \<noteq> []" "CHR '':'' \<notin> set (cf_PodUID c)" "CHR ''/'' \<notin> set (cf_PodUID c)"
    "length (Config_Holder c) \<le> 253"
  using assms
  by (auto simp: check_config_def guard_None ContainsAny_def uid_separators_def list_ex_iff)

text \<open>What follows the last separator of a derived holder.\<close>

definition last_segment :: "string \<Rightarrow> string" where
  "last_segment h = rev (takeWhile (\<lambda>c. c \<noteq> CHR '':'' \<and> c \<noteq> CHR ''/'') (rev h))"

lemma last_segment_append:
  assumes "CHR '':'' \<notin> set u" and "CHR ''/'' \<notin> set u" and "c = CHR '':'' \<or> c = CHR ''/''"
  shows "last_segment (x @ c # u) = u"
proof -
  have "takeWhile (\<lambda>c. c \<noteq> CHR '':'' \<and> c \<noteq> CHR ''/'') (rev u @ c # rev x) = rev u"
    using assms by (subst takeWhile_append2) auto
  then show ?thesis by (simp add: last_segment_def)
qed

lemma runtime_holder_shape:
  assumes "cf_HolderIdentity c = []" and "cf_Mode c = ModeRuntimeSingleton"
  shows "\<exists>x sep. Config_Holder c = x @ sep # cf_PodUID c \<and> (sep = CHR '':'' \<or> sep = CHR ''/'')"
proof -
  obtain ps where ps: "holder_parts c = ps @ [''uid'', cf_PodUID c]"
    using assms(2) by (simp add: holder_parts_def ModeRuntimeSingleton_def ModeStartupGate_def)
  show ?thesis
  proof (cases ps)
    case Nil
    then show ?thesis using assms(1) ps by (auto simp: Config_Holder_def)
  next
    case (Cons p qs)
    have "go_Join (qs @ [''uid'', cf_PodUID c]) '':'' =
        go_Join (qs @ [''uid'']) '':'' @ '':'' @ cf_PodUID c"
      using go_Join_snoc [of "qs @ [''uid'']"] by simp
    then have "Config_Holder c = (p @ ''/'' @ go_Join (qs @ [''uid'']) '':'') @ CHR '':'' # cf_PodUID c"
      using Cons assms(1) ps by (cases qs) (simp_all add: Config_Holder_def)
    then show ?thesis by blast
  qed
qed

text \<open>The root of a derived holder: the cluster, or else the namespace of the pod.\<close>

definition holder_root :: "Config \<Rightarrow> string" where
  "holder_root c = (if cf_ClusterID c \<noteq> [] then cf_ClusterID c else cf_PodNamespace c)"

lemma holder_of_root:
  assumes "cf_HolderIdentity c = []" and "holder_root c \<noteq> []"
  shows "Config_Holder c = holder_root c \<or> HasPrefix (Config_Holder c) (holder_root c @ ''/'')"
proof -
  obtain ps where ps: "holder_parts c = holder_root c # ps"
    using assms(2) by (cases "cf_ClusterID c = []") (auto simp: holder_parts_def holder_root_def add_part_def)
  show ?thesis
    using assms(1) ps by (cases ps) (auto simp: Config_Holder_def HasPrefix_def)
qed

lemma Atoi_nonempty: "Atoi v = Some n \<Longrightarrow> v \<noteq> []"
  by (auto simp: ParseInt_def parse_digits_def)

text \<open>The time to live of the environment, when no flag overrides it.\<close>

lemma flags_config_ttl:
  assumes "flags_config f get = Inr c" and "Atoi (get EnvTTLSeconds) = Some n" and "fl_ttlSeconds f = None"
  shows "cf_TTL c = seconds n \<and> check_config c = None"
proof -
  obtain d where d: "ConfigFromEnv get = Inr d" "c = ApplyDefaults (override_config f d)" "check_config c = None"
    using assms(1) by (auto simp: flags_config_def Config_Validate_def Let_def split: sum.splits option.splits)
  have "secondsEnv get EnvTTLSeconds = Inr (seconds n)"
    using assms(2) Atoi_nonempty [of "get EnvTTLSeconds"] by (simp add: secondsEnv_def)
  with d(1) have "cf_TTL d = seconds n"
    unfolding ConfigFromEnv_def by (auto split: sum.splits)
  with d(2,3) assms(3) show ?thesis
    by (simp add: ApplyDefaults_sel override_config_def changed_def)
qed

lemma not_ttl:
  "EnvLeaseName \<noteq> EnvTTLSeconds" "EnvLeaseNamespace \<noteq> EnvTTLSeconds"
  "EnvMode \<noteq> EnvTTLSeconds" "EnvEnforce \<noteq> EnvTTLSeconds"
  "EnvSignalTarget \<noteq> EnvTTLSeconds" "EnvHeartbeatSecs \<noteq> EnvTTLSeconds"
  "EnvEnforceGrace \<noteq> EnvTTLSeconds" "EnvReleaseOnDown \<noteq> EnvTTLSeconds"
  "EnvHolderIdentity \<noteq> EnvTTLSeconds" "EnvClusterID \<noteq> EnvTTLSeconds"
  "EnvWorkloadKind \<noteq> EnvTTLSeconds" "EnvWorkloadName \<noteq> EnvTTLSeconds"
  "EnvStateDir \<noteq> EnvTTLSeconds" "EnvAPIServer \<noteq> EnvTTLSeconds"
  "EnvAPIKey \<noteq> EnvTTLSeconds" "EnvAPIKeyFile \<noteq> EnvTTLSeconds"
  "EnvCABundleFile \<noteq> EnvTTLSeconds" "EnvServerName \<noteq> EnvTTLSeconds"
  "EnvInsecure \<noteq> EnvTTLSeconds" "EnvPodNamespace \<noteq> EnvTTLSeconds"
  "EnvPodName \<noteq> EnvTTLSeconds" "EnvPodUID \<noteq> EnvTTLSeconds"
  by (simp_all add: env_names)

lemma ConfigFromEnv_other:
  "secondsEnv (get(EnvTTLSeconds := v)) EnvTTLSeconds = secondsEnv get EnvTTLSeconds \<Longrightarrow>
     ConfigFromEnv (get(EnvTTLSeconds := v)) = ConfigFromEnv get"
proof -
  assume ttl: "secondsEnv (get(EnvTTLSeconds := v)) EnvTTLSeconds = secondsEnv get EnvTTLSeconds"
  have sec: "secondsEnv (get(EnvTTLSeconds := v)) x = secondsEnv get x"
    and bool: "boolEnv (get(EnvTTLSeconds := v)) x = boolEnv get x" if "x \<noteq> EnvTTLSeconds" for x
    using that by (simp_all add: secondsEnv_def boolEnv_def)
  show ?thesis
    unfolding ConfigFromEnv_def ttl by (simp add: sec bool not_ttl cong: sum.case_cong)
qed

text \<open>A second is 2 to the power 9 times an odd number of nanoseconds.\<close>

lemma seconds_periodic: "seconds (n + k * 2 ^ 55) = seconds n"
proof -
  have "(n + k * 2 ^ 55) * second = n * second + k * 1953125 * 2 ^ 64"
    by (simp add: algebra_simps)
  then have "take_bit 64 ((n + k * 2 ^ 55) * second) = take_bit 64 (n * second)"
    by (simp only: take_bit_eq_mod mod_mult_self1)
  then show ?thesis
    by (simp add: seconds_def wrap64_def signed_take_bit_eq_iff_take_bit_eq)
qed

section \<open>Properties\<close>

text \<open>
  C26. Derived holders identify pods.  When two configurations pass validation in the mode
  runtime-singleton without an explicit holder, their holders are accepted by the lease manager,
  and they are equal only if the pods have the same UID, whatever the names of cluster,
  namespace, workload and pod.
\<close>

theorem runtime_holders_identify_pods:
  assumes "Config_Validate c1 = (None, d1)" and "Config_Validate c2 = (None, d2)"
    and "cf_Mode d1 = ModeRuntimeSingleton" and "cf_Mode d2 = ModeRuntimeSingleton"
    and "cf_HolderIdentity d1 = []" and "cf_HolderIdentity d2 = []"
  shows "ValidateHolder (Config_Holder d1) = None \<and>
    (Config_Holder d1 = Config_Holder d2 \<longrightarrow> cf_PodUID d1 = cf_PodUID d2)"
proof -
  have ok: "check_config d1 = None" "check_config d2 = None"
    using assms(1,2) by (auto simp: Config_Validate_def Let_def)
  note r1 = check_config_runtime [OF ok(1) assms(3,5)] and r2 = check_config_runtime [OF ok(2) assms(4,6)]
  obtain x1 s1 x2 s2 where
    h1: "Config_Holder d1 = x1 @ s1 # cf_PodUID d1" "s1 = CHR '':'' \<or> s1 = CHR ''/''" and
    h2: "Config_Holder d2 = x2 @ s2 # cf_PodUID d2" "s2 = CHR '':'' \<or> s2 = CHR ''/''"
    using runtime_holder_shape [OF assms(5,3)] runtime_holder_shape [OF assms(6,4)] by blast
  have "last_segment (Config_Holder d1) = cf_PodUID d1" "last_segment (Config_Holder d2) = cf_PodUID d2"
    unfolding h1(1) h2(1)
    using last_segment_append [OF r1(2,3) h1(2)] last_segment_append [OF r2(2,3) h2(2)] by simp_all
  moreover have "ValidateHolder (Config_Holder d1) = None"
    using r1(4) h1(1) by (simp add: ValidateHolder_None)
  ultimately show ?thesis by auto
qed

definition sample_config :: "string \<Rightarrow> Config" where
  "sample_config uid =
     \<lparr>cf_LeaseName = ''job'', cf_LeaseNamespace = [], cf_Mode = [], cf_Enforce = [],
      cf_TTL = 30 * second, cf_HeartbeatInterval = 0, cf_EnforceGrace = 0, cf_SignalTarget = [],
      cf_ReleaseOnShutdown = None, cf_HolderIdentity = [], cf_ClusterID = ''east'',
      cf_PodNamespace = ''ns'', cf_PodName = ''web-0'', cf_PodUID = uid, cf_WorkloadKind = [],
      cf_WorkloadName = [], cf_StateDir = [], cf_APIServer = ''https://berth'', cf_APIKey = [],
      cf_APIKeyFile = [], cf_CABundleFile = [], cf_ServerName = [], cf_InsecureSkipVerify = False\<rparr>"

theorem runtime_holders_identify_pods_witness:
  "Config_Holder (snd (Config_Validate (sample_config ''u1''))) \<noteq>
   Config_Holder (snd (Config_Validate (sample_config ''u2'')))"
proof -
  have "check_config (ApplyDefaults (sample_config ''u1'')) = None"
    "check_config (ApplyDefaults (sample_config ''u2'')) = None"
    by code_simp+
  then have v: "Config_Validate (sample_config ''u1'') = (None, ApplyDefaults (sample_config ''u1''))"
    "Config_Validate (sample_config ''u2'') = (None, ApplyDefaults (sample_config ''u2''))"
    by (simp_all add: Config_Validate_def)
  have m: "cf_Mode (ApplyDefaults (sample_config ''u1'')) = ModeRuntimeSingleton"
    "cf_Mode (ApplyDefaults (sample_config ''u2'')) = ModeRuntimeSingleton"
    "cf_HolderIdentity (ApplyDefaults (sample_config ''u1'')) = []"
    "cf_HolderIdentity (ApplyDefaults (sample_config ''u2'')) = []"
    "cf_PodUID (ApplyDefaults (sample_config ''u1'')) \<noteq> cf_PodUID (ApplyDefaults (sample_config ''u2''))"
    by (simp_all add: ApplyDefaults_sel sample_config_def)
  show ?thesis
    using runtime_holders_identify_pods [OF v m(1-4)] m(5) by (auto simp: v)
qed

text \<open>
  C27. A derived holder belongs to the tenant of its root, in both modes.  When the cluster id
  (or, without one, the pod namespace) is a legal tenant, the default policy lets an identity of
  that tenant act as the holder which the helper derives.
\<close>

theorem derived_holder_is_owned:
  assumes "cf_HolderIdentity c = []" and "holder_root c \<noteq> []" and "ValidateTenant (holder_root c) = None"
    and "id_Tenant i = holder_root c"
  shows "AuthorizeHolder ResolveTenant (Some i) (Config_Holder c) = None"
  using holder_of_root [OF assms(1,2)] assms(2-4)
  by (auto simp: AuthorizeHolder_def resolveTenant_def ResolveTenant_def)

theorem derived_holder_is_owned_witness:
  "AuthorizeHolder ResolveTenant (Some \<lparr>id_Holder = ''x'', id_Tenant = ''east'', id_Raw = []\<rparr>)
     (Config_Holder (sample_config ''u1'')) = None"
  by (rule derived_holder_is_owned)
    (simp_all add: sample_config_def holder_root_def ValidateTenant_def ContainsChar_def)

definition no_flags :: cliFlags where
  "no_flags =
     \<lparr>fl_leaseName = None, fl_leaseNamespace = None, fl_mode = None, fl_enforce = None,
      fl_ttlSeconds = None, fl_heartbeatSecs = None, fl_enforceGrace = None, fl_releaseOnDown = None,
      fl_holderIdentity = None, fl_clusterID = None, fl_podNamespace = None, fl_podName = None,
      fl_podUID = None, fl_workloadKind = None, fl_workloadName = None, fl_stateDir = None,
      fl_apiServer = None, fl_apiKey = None, fl_apiKeyFile = None, fl_caBundleFile = None,
      fl_serverName = None, fl_insecure = None\<rparr>"

definition sample_env :: "string \<Rightarrow> string \<Rightarrow> string" where
  "sample_env ttl k =
     (if k = EnvTTLSeconds then ttl else if k = EnvLeaseName then ''job''
      else if k = EnvPodNamespace then ''ns'' else if k = EnvPodUID then ''u1''
      else if k = EnvAPIServer then ''https://berth'' else [])"

text \<open>
  C28. What a number of seconds in the environment is worth.  Let \<open>BERTH_TTL_SECONDS\<close> read as the
  number \<open>n\<close>, with no flag that overrides it.  As long as \<open>n\<close> seconds fit into a duration of 64 bits
  (at most 9223372036 in either direction), a configuration that passes validation has a time to
  live of exactly \<open>n\<close> seconds, positive and within the limit of 2147483647.  Beyond that the product
  with the unit wraps before the limit is tested: with any text that reads as \<open>n\<close> plus a multiple of
  2 to the power 55 in its place, the outcome is the same, so that numbers far above the limit are
  accepted and mean another lifetime.
\<close>

theorem ttl_seconds_wrap:
  assumes "Atoi (get EnvTTLSeconds) = Some n" and "fl_ttlSeconds f = None"
  shows "(flags_config f get = Inr c \<and> \<bar>n\<bar> \<le> 9223372036 \<longrightarrow>
      cf_TTL c = n * second \<and> 0 < n \<and> n \<le> 2147483647) \<and>
    (Atoi v = Some (n + k * 2 ^ 55) \<longrightarrow> flags_config f (get(EnvTTLSeconds := v)) = flags_config f get)"
proof (intro conjI impI)
  assume c: "flags_config f get = Inr c \<and> \<bar>n\<bar> \<le> 9223372036"
  then have ttl: "cf_TTL c = seconds n" and "check_config c = None"
    using flags_config_ttl [of f get c n] assms by blast+
  moreover have "seconds n = n * second"
    using c by (intro seconds_id) simp
  ultimately show "cf_TTL c = n * second" "0 < n" "n \<le> 2147483647"
    using check_config_timing [of c] by (auto simp: zero_less_mult_iff)
next
  assume "Atoi v = Some (n + k * 2 ^ 55)"
  with assms(1) have "secondsEnv (get(EnvTTLSeconds := v)) EnvTTLSeconds = secondsEnv get EnvTTLSeconds"
    using Atoi_nonempty [of v] Atoi_nonempty [of "get EnvTTLSeconds"] seconds_periodic [of n k]
    by (simp add: secondsEnv_def)
  then show "flags_config f (get(EnvTTLSeconds := v)) = flags_config f get"
    by (simp add: flags_config_def ConfigFromEnv_other)
qed

theorem ttl_seconds_wrap_witness:
  "\<exists>c. flags_config no_flags (sample_env ''36028797018963998'') = Inr c \<and> cf_TTL c = 30 * second"
proof -
  obtain c where c: "flags_config no_flags (sample_env ''30'') = Inr c"
  proof -
    have "case flags_config no_flags (sample_env ''30'') of Inl e \<Rightarrow> False | Inr c \<Rightarrow> True" by code_simp
    then show ?thesis using that by (auto split: sum.splits)
  qed
  have env: "(sample_env ''30'')(EnvTTLSeconds := ''36028797018963998'') = sample_env ''36028797018963998''"
    by (rule ext) (simp add: sample_env_def)
  have atoi: "Atoi (sample_env ''30'' EnvTTLSeconds) = Some 30" "Atoi ''36028797018963998'' = Some (30 + 1 * 2 ^ 55)"
    "fl_ttlSeconds no_flags = None"
    by code_simp+
  show ?thesis
    using ttl_seconds_wrap [of "sample_env ''30''" 30 no_flags c "''36028797018963998''" 1] c atoi
    unfolding env by auto
qed

end
