(* ===== verification/Acquire_Enforce.thy ===== *)
theory Acquire_Enforce
  imports Acquire_State Acquire_Config
begin

text \<open>
  How the sidecar stops the main container (\<open>internal/acquire/enforce.go\<close>).

  \<open>pod_world\<close> is what the two enforcers act on: the shared volume, the process table of the pod
  as \<open>/proc\<close> shows it, the times at which processes were asked to terminate, the log of signals
  sent, and the clock.  What \<open>kill\<close> answers is a function in the world.  The locale \<open>enforcer\<close> is
  the interface \<open>Enforcer\<close> with what the sidecar relies on: a successful \<open>Hold\<close> closes the gate,
  a \<open>Release\<close> that fails leaves it as it was.  Both enforcers satisfy it.
\<close>

section \<open>The process table\<close>

datatype signal = SIGTERM | SIGKILL

definition ESRCH :: goerr where
  "ESRCH = ErrText ''no such process''"

record proc_fs =
  pf_entries :: "(string \<times> bool) list outcome"
  pf_comm :: "int \<Rightarrow> string outcome"
  pf_exe :: "int \<Rightarrow> string outcome"

record procScanner =
  ps_self :: int
  ps_parent :: int
  ps_selfExe :: string
  ps_list :: "int list outcome"
  ps_comm :: "int \<Rightarrow> string"
  ps_exe :: "int \<Rightarrow> string"

fun numeric_dirs :: "(string \<times> bool) list \<Rightarrow> int list" where
  "numeric_dirs [] = []"
| "numeric_dirs ((name, dir) # es) =
     (if \<not> dir then numeric_dirs es
      else (case Atoi name of None \<Rightarrow> numeric_dirs es | Some pid \<Rightarrow> pid # numeric_dirs es))"

definition listProcPIDs :: "proc_fs \<Rightarrow> int list outcome" where
  "listProcPIDs P =
     (case pf_entries P of Inl err \<Rightarrow> Inl err | Inr es \<Rightarrow> Inr (numeric_dirs es))"

definition readProcComm :: "proc_fs \<Rightarrow> int \<Rightarrow> string" where
  "readProcComm P pid = (case pf_comm P pid of Inl err \<Rightarrow> [] | Inr b \<Rightarrow> TrimSpace b)"

definition readProcExe :: "proc_fs \<Rightarrow> int \<Rightarrow> string" where
  "readProcExe P pid = (case pf_exe P pid of Inl err \<Rightarrow> [] | Inr exe \<Rightarrow> exe)"

definition osProcScanner :: "int \<Rightarrow> int \<Rightarrow> string \<Rightarrow> proc_fs \<Rightarrow> procScanner" where
  "osProcScanner self parent selfExe P =
     \<lparr>ps_self = self, ps_parent = parent, ps_selfExe = selfExe, ps_list = listProcPIDs P,
      ps_comm = readProcComm P, ps_exe = readProcExe P\<rparr>"

definition matchesTarget :: "string \<Rightarrow> string \<Rightarrow> string \<Rightarrow> bool" where
  "matchesTarget target comm exe \<longleftrightarrow>
     (comm \<noteq> [] \<and> comm = target) \<or>
     (exe \<noteq> [] \<and> path_Base exe = target) \<or>
     (comm \<noteq> [] \<and> length target > 15 \<and> comm = take 15 target)"

definition is_workload :: "procScanner \<Rightarrow> string \<Rightarrow> int \<Rightarrow> bool" where
  "is_workload sc target pid \<longleftrightarrow>
     \<not> (pid \<le> 1 \<or> pid = ps_self sc \<or> pid = ps_parent sc) \<and>
     \<not> (ps_exe sc pid \<noteq> [] \<and> ps_exe sc pid = ps_selfExe sc) \<and>
     \<not> (target \<noteq> [] \<and> \<not> matchesTarget target (ps_comm sc pid) (ps_exe sc pid))"

definition workloadPIDs :: "procScanner \<Rightarrow> string \<Rightarrow> int list outcome" where
  "workloadPIDs sc target =
     (case ps_list sc of Inl err \<Rightarrow> Inl err | Inr pids \<Rightarrow> Inr (filter (is_workload sc target) pids))"

section \<open>The enforcers\<close>

record pod_world =
  pw_fs :: fsys
  pw_now :: time
  pw_proc :: proc_fs
  pw_self :: "int \<times> int \<times> string"
  pw_kill :: "int \<Rightarrow> signal \<Rightarrow> goerr option"
  pw_termedAt :: "(int \<times> time) list"
  pw_log :: "(int \<times> signal) list"

definition probe_Hold :: "string \<Rightarrow> pod_world \<Rightarrow> goerr option \<times> pod_world" where
  "probe_Hold dir w = (let (e, fs) = MarkUnhealthy dir (pw_fs w) in (e, w\<lparr>pw_fs := fs\<rparr>))"

definition probe_Release :: "string \<Rightarrow> pod_world \<Rightarrow> goerr option \<times> pod_world" where
  "probe_Release dir w = (let (e, fs) = MarkHealthy dir (pw_fs w) in (e, w\<lparr>pw_fs := fs\<rparr>))"

record signalEnforcer =
  se_state :: "string option"
  se_grace :: duration
  se_target :: string

text \<open>One process: the first \<open>Hold\<close> asks it to terminate, one after the grace period kills it.\<close>

definition send :: "int \<Rightarrow> signal \<Rightarrow> string \<Rightarrow> goerr option \<Rightarrow> pod_world \<Rightarrow> goerr option \<times> pod_world" where
  "send pid sig msg failures w =
     (case pw_kill w pid sig of
        None \<Rightarrow> (failures, w\<lparr>pw_log := (pid, sig) # pw_log w\<rparr>)
      | Some err \<Rightarrow>
          (if errors_Is err ESRCH then failures else errors_Join failures (Some (ErrWrap msg err)), w))"

definition hold_pid :: "duration \<Rightarrow> time \<Rightarrow> int \<Rightarrow> goerr option \<times> pod_world \<Rightarrow> goerr option \<times> pod_world" where
  "hold_pid grace now pid s =
     (let (failures, w) = s in
      case map_of (pw_termedAt w) pid of
        None \<Rightarrow> send pid SIGTERM ''SIGTERM: '' failures (w\<lparr>pw_termedAt := AList.update pid now (pw_termedAt w)\<rparr>)
      | Some termedAt \<Rightarrow>
          if time_Sub now termedAt \<ge> grace then send pid SIGKILL ''SIGKILL: '' failures w
          else (failures, w))"

definition signal_Hold :: "signalEnforcer \<Rightarrow> pod_world \<Rightarrow> goerr option \<times> pod_world" where
  "signal_Hold s w =
     (let (failures, w1) =
            (case se_state s of
               None \<Rightarrow> (None, w)
             | Some dir \<Rightarrow> (let (e, fs) = MarkUnhealthy dir (pw_fs w) in (e, w\<lparr>pw_fs := fs\<rparr>)));
          (self, parent, selfExe) = pw_self w1
      in case workloadPIDs (osProcScanner self parent selfExe (pw_proc w1)) (se_target s) of
           Inl err \<Rightarrow> (errors_Join failures (Some (ErrWrap ''find main process: '' err)), w1)
         | Inr pids \<Rightarrow> fold (hold_pid (se_grace s) (pw_now w1)) pids (failures, w1))"

definition signal_Release :: "signalEnforcer \<Rightarrow> pod_world \<Rightarrow> goerr option \<times> pod_world" where
  "signal_Release s w =
     (let w1 = w\<lparr>pw_termedAt := []\<rparr>
      in case se_state s of
           None \<Rightarrow> (None, w1)
         | Some dir \<Rightarrow> (let (e, fs) = MarkHealthy dir (pw_fs w1) in (e, w1\<lparr>pw_fs := fs\<rparr>)))"

record enforcer_ops =
  en_Hold :: "pod_world \<Rightarrow> goerr option \<times> pod_world"
  en_Release :: "pod_world \<Rightarrow> goerr option \<times> pod_world"

definition newEnforcer :: "Config \<Rightarrow> string \<Rightarrow> enforcer_ops" where
  "newEnforcer cfg dir =
     (if cf_Enforce cfg = EnforceSignal then
        (let s = \<lparr>se_state = Some dir, se_grace = cf_EnforceGrace cfg, se_target = cf_SignalTarget cfg\<rparr>
         in \<lparr>en_Hold = signal_Hold s, en_Release = signal_Release s\<rparr>)
      else \<lparr>en_Hold = probe_Hold dir, en_Release = probe_Release dir\<rparr>)"

section \<open>The contract\<close>

definition gated :: "string \<Rightarrow> pod_world \<Rightarrow> bool" where
  "gated dir w \<longleftrightarrow> fs_lookup (pw_fs w) (healthyPath dir) = None"

definition world_ok :: "pod_world \<Rightarrow> bool" where
  "world_ok w \<longleftrightarrow> fs_ok (pw_fs w)"

locale enforcer =
  fixes hold release :: "'w \<Rightarrow> goerr option \<times> 'w"
    and closed :: "'w \<Rightarrow> bool" and ok :: "'w \<Rightarrow> bool"
  assumes hold_ok: "ok w \<Longrightarrow> ok (snd (hold w))"
    and release_ok: "ok w \<Longrightarrow> ok (snd (release w))"
    and hold_closes: "ok w \<Longrightarrow> fst (hold w) = None \<Longrightarrow> closed (snd (hold w))"
    and hold_keeps: "ok w \<Longrightarrow> closed w \<Longrightarrow> closed (snd (hold w))"
    and release_opens: "ok w \<Longrightarrow> fst (release w) = None \<Longrightarrow> \<not> closed (snd (release w))"
    and release_fails: "ok w \<Longrightarrow> fst (release w) \<noteq> None \<Longrightarrow> closed (snd (release w)) = closed w"
begin

text \<open>Repeated holds, the sidecar's loop while it waits: once closed, the gate stays closed.\<close>

fun holds :: "nat \<Rightarrow> 'w \<Rightarrow> 'w" where
  "holds 0 w = w"
| "holds (Suc n) w = holds n (snd (hold w))"

lemma holds_closed: "ok w \<Longrightarrow> closed w \<Longrightarrow> ok (holds n w) \<and> closed (holds n w)"
  by (induction n arbitrary: w) (simp_all add: hold_ok hold_keeps)

end

lemma probe_enforcer: "enforcer (probe_Hold dir) (probe_Release dir) (gated dir) world_ok"
proof
  fix w :: pod_world
  obtain e fs where u: "MarkUnhealthy dir (pw_fs w) = (e, fs)" by fastforce
  obtain e' fs' where h: "MarkHealthy dir (pw_fs w) = (e', fs')" by fastforce
  assume ok: "world_ok w"
  show "world_ok (snd (probe_Hold dir w))" "world_ok (snd (probe_Release dir w))"
    using ok MarkUnhealthy_ok [OF u] MarkHealthy_ok [OF h]
    by (simp_all add: probe_Hold_def probe_Release_def u h world_ok_def)
  show "gated dir (snd (probe_Hold dir w))" if "fst (probe_Hold dir w) = None"
    using that ok MarkUnhealthy_absent [of dir "pw_fs w" fs] u
    by (simp add: probe_Hold_def gated_def world_ok_def)
  show "gated dir (snd (probe_Hold dir w))" if "gated dir w"
    using that MarkUnhealthy_gated [OF u] by (simp add: probe_Hold_def u gated_def)
  show "\<not> gated dir (snd (probe_Release dir w))" if "fst (probe_Release dir w) = None"
    using that MarkHealthy_effect [OF h, of "healthyPath dir"]
    by (simp add: probe_Release_def h gated_def)
  show "gated dir (snd (probe_Release dir w)) = gated dir w" if "fst (probe_Release dir w) \<noteq> None"
    using that MarkHealthy_effect [OF h, of "healthyPath dir"]
    by (auto simp: probe_Release_def h gated_def)
qed

section \<open>Signals\<close>

text \<open>The signal that a process is due for, given when it was asked to terminate.\<close>

definition due :: "duration \<Rightarrow> time \<Rightarrow> (int \<times> time) list \<Rightarrow> int \<Rightarrow> signal option" where
  "due grace now termed pid =
     (case map_of termed pid of
        None \<Rightarrow> Some SIGTERM
      | Some t \<Rightarrow> if time_Sub now t \<ge> grace then Some SIGKILL else None)"

definition sent :: "pod_world \<Rightarrow> duration \<Rightarrow> time \<Rightarrow> int \<Rightarrow> (int \<times> signal) list" where
  "sent w grace now pid =
     (case due grace now (pw_termedAt w) pid of
        None \<Rightarrow> []
      | Some sig \<Rightarrow> if pw_kill w pid sig = None then [(pid, sig)] else [])"

lemma send_effect:
  assumes "send pid sig msg f w = (f', w')"
  shows "pw_fs w' = pw_fs w \<and> pw_kill w' = pw_kill w \<and> pw_now w' = pw_now w \<and>
    pw_termedAt w' = pw_termedAt w \<and> (f' = None \<longrightarrow> f = None) \<and>
    pw_log w' = (if pw_kill w pid sig = None then [(pid, sig)] else []) @ pw_log w"
  using assms by (auto simp: send_def errors_Join_eq_None split: option.splits if_splits)

lemma hold_pid_effect:
  assumes "hold_pid grace now pid (f, w) = (f', w')"
  shows "pw_fs w' = pw_fs w \<and> pw_kill w' = pw_kill w \<and> pw_now w' = pw_now w \<and>
    (f' = None \<longrightarrow> f = None) \<and> pw_log w' = sent w grace now pid @ pw_log w \<and>
    (\<forall>q. map_of (pw_termedAt w') q =
       (if q = pid \<and> map_of (pw_termedAt w) pid = None then Some now else map_of (pw_termedAt w) q))"
proof (cases "map_of (pw_termedAt w) pid")
  case None
  then have "send pid SIGTERM ''SIGTERM: '' f (w\<lparr>pw_termedAt := AList.update pid now (pw_termedAt w)\<rparr>) = (f', w')"
    using assms by (simp add: hold_pid_def)
  from send_effect [OF this] None show ?thesis
    by (simp add: sent_def due_def update_conv')
next
  case (Some t)
  show ?thesis
  proof (cases "time_Sub now t \<ge> grace")
    case True
    then have "send pid SIGKILL ''SIGKILL: '' f w = (f', w')"
      using assms Some by (simp add: hold_pid_def)
    from send_effect [OF this] Some True show ?thesis
      by (simp add: sent_def due_def)
  next
    case False
    then show ?thesis using assms Some by (simp add: hold_pid_def sent_def due_def)
  qed
qed

lemma hold_pids_effect:
  assumes "fold (hold_pid grace now) pids (f, w) = (f', w')" and "distinct pids"
  shows "pw_fs w' = pw_fs w \<and> pw_now w' = pw_now w \<and> (f' = None \<longrightarrow> f = None) \<and>
    pw_log w' = concat (map (sent w grace now) (rev pids)) @ pw_log w \<and>
    (\<forall>q. map_of (pw_termedAt w') q =
       (if q \<in> set pids \<and> map_of (pw_termedAt w) q = None then Some now else map_of (pw_termedAt w) q))"
  using assms
proof (induction pids arbitrary: f w)
  case (Cons pid pids)
  obtain f1 w1 where h: "hold_pid grace now pid (f, w) = (f1, w1)" by fastforce
  note one = hold_pid_effect [OF h]
  have "sent w1 grace now q = sent w grace now q" if "q \<noteq> pid" for q
  proof -
    have "map_of (pw_termedAt w1) q = map_of (pw_termedAt w) q" "pw_kill w1 = pw_kill w"
      using one that by auto
    then show ?thesis by (simp add: sent_def due_def split: option.split)
  qed
  then have "map (sent w1 grace now) (rev pids) = map (sent w grace now) (rev pids)"
    using Cons.prems(2) by (intro map_cong refl) (metis distinct.simps(2) set_rev)
  with Cons.IH [of f1 w1] Cons.prems one show ?case
    by (auto simp: h)
qed simp

lemma fold_hold_pid_fs:
  "fold (hold_pid grace now) pids (f, w) = (f', w') \<Longrightarrow>
     pw_fs w' = pw_fs w \<and> (f' = None \<longrightarrow> f = None)"
proof (induction pids arbitrary: f w)
  case (Cons pid pids)
  obtain f1 w1 where h: "hold_pid grace now pid (f, w) = (f1, w1)" by fastforce
  with hold_pid_effect [OF h] Cons show ?case by fastforce
qed simp

lemma signal_Hold_marker:
  assumes "se_state s = Some dir" and "MarkUnhealthy dir (pw_fs w) = (e1, fs1)"
  shows "pw_fs (snd (signal_Hold s w)) = fs1 \<and> (fst (signal_Hold s w) = None \<longrightarrow> e1 = None)"
proof -
  obtain self parent exe where pw: "pw_self w = (self, parent, exe)" by (cases "pw_self w") auto
  show ?thesis
  proof (cases "workloadPIDs (osProcScanner self parent exe (pw_proc w)) (se_target s)")
    case (Inl err)
    then show ?thesis using assms pw by (simp add: signal_Hold_def errors_Join_eq_None)
  next
    case (Inr pids)
    obtain f' w' where f: "fold (hold_pid (se_grace s) (pw_now w)) pids (e1, w\<lparr>pw_fs := fs1\<rparr>) = (f', w')"
      by fastforce
    with fold_hold_pid_fs [OF f] Inr assms pw show ?thesis by (simp add: signal_Hold_def)
  qed
qed

lemma signal_enforcer:
  assumes "se_state s = Some dir"
  shows "enforcer (signal_Hold s) (signal_Release s) (gated dir) world_ok"
proof
  fix w :: pod_world
  obtain e fs where u: "MarkUnhealthy dir (pw_fs w) = (e, fs)" by fastforce
  obtain e' fs' where h: "MarkHealthy dir (pw_fs w) = (e', fs')" by fastforce
  note hold = signal_Hold_marker [OF assms u]
  assume ok: "world_ok w"
  show "world_ok (snd (signal_Hold s w))" "world_ok (snd (signal_Release s w))"
    using ok hold MarkUnhealthy_ok [OF u] MarkHealthy_ok [OF h]
    by (simp_all add: signal_Release_def assms h world_ok_def)
  show "gated dir (snd (signal_Hold s w))" if "fst (signal_Hold s w) = None"
    using that ok hold MarkUnhealthy_absent [of dir "pw_fs w" fs] u
    by (simp add: gated_def world_ok_def)
  show "gated dir (snd (signal_Hold s w))" if "gated dir w"
    using that hold MarkUnhealthy_gated [OF u] by (simp add: gated_def)
  show "\<not> gated dir (snd (signal_Release s w))" if "fst (signal_Release s w) = None"
    using that MarkHealthy_effect [OF h, of "healthyPath dir"]
    by (simp add: signal_Release_def assms h gated_def)
  show "gated dir (snd (signal_Release s w)) = gated dir w" if "fst (signal_Release s w) \<noteq> None"
    using that MarkHealthy_effect [OF h, of "healthyPath dir"]
    by (auto simp: signal_Release_def assms h gated_def)
qed

text \<open>The enforcer a configuration selects satisfies the contract, whichever it is.\<close>

lemma newEnforcer_enforcer:
  "enforcer (en_Hold (newEnforcer cfg dir)) (en_Release (newEnforcer cfg dir)) (gated dir) world_ok"
  using probe_enforcer signal_enforcer by (simp add: newEnforcer_def Let_def)

interpretation en: enforcer "en_Hold (newEnforcer cfg dir)" "en_Release (newEnforcer cfg dir)" "gated dir" world_ok
  for cfg dir
  by (rule newEnforcer_enforcer)

section \<open>Properties\<close>

text \<open>
  C30. Signals escalate, and reach the workload only.  In one \<open>Hold\<close> of the signal enforcer every
  process that receives a signal is a workload process (never the init process, the sidecar, its
  parent or another copy of the helper, and only the configured target when there is one); a
  process gets \<open>SIGKILL\<close> only when it was asked to terminate at least the grace period before, and
  \<open>SIGTERM\<close> only when it was not asked yet; conversely every workload process that can be signalled
  gets the signal it is due for, and is on record as asked to terminate.
\<close>

theorem signal_hold_escalates:
  assumes "signal_Hold s w = (e, w')" and "pw_self w = (self, parent, exe)"
    and "workloadPIDs (osProcScanner self parent exe (pw_proc w)) (se_target s) = Inr pids" and "distinct pids"
  shows "\<exists>new. pw_log w' = new @ pw_log w \<and>
    (\<forall>(pid, sig) \<in> set new.
       is_workload (osProcScanner self parent exe (pw_proc w)) (se_target s) pid \<and>
       due (se_grace s) (pw_now w) (pw_termedAt w) pid = Some sig) \<and>
    (\<forall>pid \<in> set pids.
       map_of (pw_termedAt w') pid \<noteq> None \<and>
       (\<forall>sig. due (se_grace s) (pw_now w) (pw_termedAt w) pid = Some sig \<longrightarrow> pw_kill w pid sig = None \<longrightarrow>
          (pid, sig) \<in> set new))"
proof -
  obtain f1 w1 where w1: "signal_Hold s w = fold (hold_pid (se_grace s) (pw_now w)) pids (f1, w1)"
    "pw_log w1 = pw_log w" "pw_termedAt w1 = pw_termedAt w" "pw_kill w1 = pw_kill w"
  proof (cases "se_state s")
    case None
    then show ?thesis using assms(2,3) by (intro that [of None w]) (simp_all add: signal_Hold_def)
  next
    case (Some dir)
    obtain e1 fs1 where "MarkUnhealthy dir (pw_fs w) = (e1, fs1)" by fastforce
    with Some assms(2,3) show ?thesis
      by (intro that [of e1 "w\<lparr>pw_fs := fs1\<rparr>"]) (simp_all add: signal_Hold_def)
  qed
  let ?new = "concat (map (sent w1 (se_grace s) (pw_now w)) (rev pids))"
  have fx: "pw_log w' = ?new @ pw_log w1"
    "\<forall>q. map_of (pw_termedAt w') q =
       (if q \<in> set pids \<and> map_of (pw_termedAt w1) q = None then Some (pw_now w) else map_of (pw_termedAt w1) q)"
    using hold_pids_effect [OF _ assms(4), of "se_grace s" "pw_now w" f1 w1 e w'] assms(1) w1(1) by simp_all
  have pids: "is_workload (osProcScanner self parent exe (pw_proc w)) (se_target s) pid" if "pid \<in> set pids" for pid
    using assms(3) that by (auto simp: workloadPIDs_def split: sum.splits)
  have new: "(pid, sig) \<in> set ?new \<longleftrightarrow>
      pid \<in> set pids \<and> due (se_grace s) (pw_now w) (pw_termedAt w) pid = Some sig \<and> pw_kill w pid sig = None"
    for pid sig
    by (auto simp: sent_def w1 split: option.splits if_splits)
  have "map_of (pw_termedAt w') pid \<noteq> None" if "pid \<in> set pids" for pid
    using fx(2) that by (cases "map_of (pw_termedAt w1) pid") auto
  then show ?thesis
    using fx(1) new pids w1(2) by (intro exI [of _ ?new]) auto
qed

text \<open>A pod with the helper, an init process and two workload processes; one was asked to stop.\<close>

definition sample_world :: pod_world where
  "sample_world =
     \<lparr>pw_fs = \<lparr>fs_files = [], fs_clock = 0, fs_faults = [], fs_random = []\<rparr>,
      pw_now = 100,
      pw_proc = \<lparr>pf_entries = Inr [(''1'', True), (''7'', True), (''20'', True), (''21'', True), (''cpuinfo'', False)],
                 pf_comm = (\<lambda>p. if p \<ge> 20 then Inr ''nginx'' else Inr ''other''), pf_exe = (\<lambda>p. Inl ESRCH)\<rparr>,
      pw_self = (7, 1, ''/berth-acquire''), pw_kill = (\<lambda>p s. None),
      pw_termedAt = [(20, 50)], pw_log = []\<rparr>"

theorem signal_hold_escalates_witness:
  "(20, SIGKILL) \<in> set (pw_log (snd (signal_Hold \<lparr>se_state = None, se_grace = 30, se_target = ''nginx''\<rparr> sample_world)))"
proof -
  let ?s = "\<lparr>se_state = None, se_grace = 30, se_target = ''nginx''\<rparr>"
  let ?h = "signal_Hold ?s sample_world"
  have p: "pw_self sample_world = (7, 1, ''/berth-acquire'')"
    by (simp add: sample_world_def)
  have f: "workloadPIDs (osProcScanner 7 1 ''/berth-acquire'' (pw_proc sample_world)) (se_target ?s) = Inr [20, 21]"
    "due 30 (pw_now sample_world) (pw_termedAt sample_world) 20 = Some SIGKILL"
    by code_simp+
  have h: "?h = (fst ?h, snd ?h)" by simp
  from signal_hold_escalates [OF h p f(1)] obtain new where
    "pw_log (snd ?h) = new @ pw_log sample_world"
    "\<forall>pid \<in> set [20, 21]. \<forall>sig. due (se_grace ?s) (pw_now sample_world) (pw_termedAt sample_world) pid = Some sig \<longrightarrow>
       pw_kill sample_world pid sig = None \<longrightarrow> (pid, sig) \<in> set new"
    by auto
  with f(2) show ?thesis by (simp add: sample_world_def)
qed

end
