(* ===== verification/Go_Json.thy ===== *)
theory Go_Json
  imports Go_Text
begin

text \<open>
  The part of \<open>encoding/json\<close> that the client and the API server exchange requests with: flat
  objects of strings and integers, in the compact form that \<open>json.Marshal\<close> writes, with its escapes
  (quotes, backslashes, control characters and the three characters escaped for HTML).  Strings are
  covered for ASCII; the encoder of the library also rewrites bytes that are not UTF-8.

  The main fact is that decoding undoes encoding, and that an encoded string is at most six times
  as long, plus its quotes.
\<close>

section \<open>Encoding\<close>

datatype json_value = JStr string | JInt int

text \<open>A Go map, encoded in the order of its names.\<close>

type_synonym json_body = "(string \<times> json_value) list"

definition lowerhex :: "nat \<Rightarrow> char" where
  "lowerhex d = (if d < 10 then char_of (48 + d) else char_of (87 + d))"

definition json_escape :: "char \<Rightarrow> string" where
  "json_escape c =
     (let n = (of_char c :: nat) in
      if c = CHR 0x22 \<or> c = CHR 0x5C then [CHR 0x5C, c]
      else if n = 8 then [CHR 0x5C, CHR ''b'']
      else if n = 9 then [CHR 0x5C, CHR ''t'']
      else if n = 10 then [CHR 0x5C, CHR ''n'']
      else if n = 12 then [CHR 0x5C, CHR ''f'']
      else if n = 13 then [CHR 0x5C, CHR ''r'']
      else if n < 32 \<or> c = CHR ''<'' \<or> c = CHR ''>'' \<or> c = CHR ''&''
      then [CHR 0x5C, CHR ''u'', CHR ''0'', CHR ''0'', lowerhex (n div 16), lowerhex (n mod 16)]
      else [c])"

definition json_quote :: "string \<Rightarrow> string" where
  "json_quote s = CHR 0x22 # concat (map json_escape s) @ [CHR 0x22]"

fun json_text :: "json_value \<Rightarrow> string" where
  "json_text (JStr s) = json_quote s"
| "json_text (JInt n) = FormatInt n"

fun json_member :: "string \<times> json_value \<Rightarrow> string" where
  "json_member (k, v) = json_quote k @ '':'' @ json_text v"

definition json_Marshal :: "json_body \<Rightarrow> string" where
  "json_Marshal b = ''{'' @ go_Join (map json_member b) '','' @ ''}''"

section \<open>Decoding\<close>

definition unhex :: "char \<Rightarrow> nat option" where
  "unhex c =
     (let n = (of_char c :: nat) in
      if 48 \<le> n \<and> n \<le> 57 then Some (n - 48)
      else if 97 \<le> n \<and> n \<le> 102 then Some (n - 87)
      else if 65 \<le> n \<and> n \<le> 70 then Some (n - 55)
      else None)"

definition json_unescape :: "char \<Rightarrow> char option" where
  "json_unescape e =
     (if e \<in> {CHR 0x22, CHR 0x5C, CHR ''/''} then Some e
      else if e = CHR ''b'' then Some (char_of (8 :: nat))
      else if e = CHR ''t'' then Some (char_of (9 :: nat))
      else if e = CHR ''n'' then Some (char_of (10 :: nat))
      else if e = CHR ''f'' then Some (char_of (12 :: nat))
      else if e = CHR ''r'' then Some (char_of (13 :: nat))
      else None)"

text \<open>The characters up to the closing quote, and what follows it.\<close>

fun json_chars :: "string \<Rightarrow> (string \<times> string) option" where
  "json_chars [] = None"
| "json_chars (c # s) =
     (if c = CHR 0x22 then Some ([], s)
      else if c = CHR 0x5C then
        (case s of
           [] \<Rightarrow> None
         | e # s' \<Rightarrow>
             if e = CHR ''u'' then
               (case s' of
                  z # z' # a # b # s'' \<Rightarrow>
                    (case (unhex a, unhex b) of
                       (Some x, Some y) \<Rightarrow>
                         if z = CHR ''0'' \<and> z' = CHR ''0'' \<and> x < 8
                         then map_option (apfst ((#) (char_of (16 * x + y)))) (json_chars s'')
                         else None
                     | _ \<Rightarrow> None)
                | _ \<Rightarrow> None)
             else
               (case json_unescape e of
                  None \<Rightarrow> None
                | Some d \<Rightarrow> map_option (apfst ((#) d)) (json_chars s')))
      else if (of_char c :: nat) < 32 then None
      else map_option (apfst ((#) c)) (json_chars s))"

definition number_char :: "char \<Rightarrow> bool" where
  "number_char c \<longleftrightarrow> is_digit c \<or> c = CHR ''-''"

fun json_val :: "string \<Rightarrow> (json_value \<times> string) option" where
  "json_val [] = None"
| "json_val (c # s) =
     (if c = CHR 0x22 then map_option (apfst JStr) (json_chars s)
      else
        (let d = takeWhile number_char (c # s) in
         case ParseInt 64 d of
           None \<Rightarrow> None
         | Some n \<Rightarrow> if FormatInt n = d then Some (JInt n, dropWhile number_char (c # s)) else None))"

text \<open>\<open>fuel\<close> bounds the number of members; the length of the text is enough.\<close>

primrec json_members :: "nat \<Rightarrow> string \<Rightarrow> (json_body \<times> string) option" where
  "json_members 0 s = None"
| "json_members (Suc fuel) s =
     (case s of
        [] \<Rightarrow> None
      | q # s1 \<Rightarrow>
          if q \<noteq> CHR 0x22 then None
          else
            (case json_chars s1 of
               Some (k, col # s2) \<Rightarrow>
                 if col \<noteq> CHR '':'' then None
                 else
                   (case json_val s2 of
                      Some (v, sep # s3) \<Rightarrow>
                        if sep = CHR '','' then map_option (apfst ((#) (k, v))) (json_members fuel s3)
                        else if sep = CHR ''}'' then Some ([(k, v)], s3)
                        else None
                    | _ \<Rightarrow> None)
             | _ \<Rightarrow> None))"

definition json_Unmarshal :: "string \<Rightarrow> (json_body \<times> string) option" where
  "json_Unmarshal s =
     (case s of
        c # s' \<Rightarrow> if c = CHR ''{'' then json_members (length s') s' else None
      | [] \<Rightarrow> None)"

section \<open>Decoding undoes encoding\<close>

definition ascii :: "string \<Rightarrow> bool" where
  "ascii s \<longleftrightarrow> list_all (\<lambda>c. (of_char c :: nat) < 128) s"

lemma unhex_lowerhex: "d < 16 \<Longrightarrow> unhex (lowerhex d) = Some d"
  by (cases "d < 10") (simp_all add: unhex_def lowerhex_def)

lemma char_hex: "16 * (of_char c div 16) + of_char c mod 16 = (of_char (c :: char) :: nat)"
  by simp

lemma json_chars_escape:
  assumes "(of_char c :: nat) < 128"
  shows "json_chars (json_escape c @ s) = map_option (apfst ((#) c)) (json_chars s)"
proof -
  have d: "(of_char c :: nat) div 16 < 8" "(of_char c :: nat) mod 16 < 16"
    using assms by (simp_all add: div_less_iff_less_mult)
  have undo: "char_of (16 * (of_char c div 16) + of_char c mod 16 :: nat) = c"
    unfolding char_hex by simp
  have short: "c = char_of n" if "of_char c = (n :: nat)" for n
    using that by (metis char_of_char)
  show ?thesis
    using d undo unhex_lowerhex [of "of_char c div 16"] unhex_lowerhex [of "of_char c mod 16"]
    by (auto simp: json_escape_def json_unescape_def Let_def dest: short)
qed

lemma json_chars_quoted:
  "ascii s \<Longrightarrow> json_chars (concat (map json_escape s) @ CHR 0x22 # rest) = Some (s, rest)"
  by (induction s) (simp_all add: ascii_def json_chars_escape)

lemma FormatInt_number: "list_all number_char (FormatInt n)" "FormatInt n \<noteq> []" "hd (FormatInt n) \<noteq> CHR 0x22"
proof -
  have digits: "list_all number_char (format_nat m)" for m
    using format_nat_digits [of m] by (auto simp: list_all_iff number_char_def)
  then show all: "list_all number_char (FormatInt n)"
    by (simp add: FormatInt_def number_char_def)
  show ne: "FormatInt n \<noteq> []"
    by (simp add: FormatInt_def format_nat_nonempty)
  have "number_char (hd (FormatInt n))"
    using all ne by (cases "FormatInt n") auto
  then show "hd (FormatInt n) \<noteq> CHR 0x22"
    by (auto simp: number_char_def is_digit_def)
qed

definition json_ok :: "json_value \<Rightarrow> bool" where
  "json_ok v \<longleftrightarrow> (case v of JStr s \<Rightarrow> ascii s | JInt n \<Rightarrow> - (2 ^ 63) \<le> n \<and> n < 2 ^ 63)"

lemma json_val_text:
  assumes "json_ok v" and "\<not> number_char c"
  shows "json_val (json_text v @ c # rest) = Some (v, c # rest)"
proof (cases v)
  case (JStr s)
  with assms(1) show ?thesis
    by (simp add: json_quote_def json_ok_def json_chars_quoted)
next
  case (JInt n)
  obtain d ds where d: "FormatInt n = d # ds" "d \<noteq> CHR 0x22"
    using FormatInt_number(2,3) [of n] by (cases "FormatInt n") auto
  have "takeWhile number_char (FormatInt n @ c # rest) = FormatInt n"
    "dropWhile number_char (FormatInt n @ c # rest) = c # rest"
    using FormatInt_number(1) [of n] assms(2)
    by (simp_all add: takeWhile_append2 dropWhile_append2 list_all_iff)
  moreover have "ParseInt 64 (FormatInt n) = Some n"
    using assms(1) JInt by (intro ParseInt_FormatInt) (simp_all add: json_ok_def)
  ultimately show ?thesis
    using d JInt by (simp add: Let_def)
qed

lemma separators [simp]: "\<not> number_char CHR '',''" "\<not> number_char CHR ''}''"
  by (simp_all add: number_char_def is_digit_def)

lemma json_members_marshal:
  "b \<noteq> [] \<Longrightarrow> length b \<le> fuel \<Longrightarrow> list_all (\<lambda>(k, v). ascii k \<and> json_ok v) b \<Longrightarrow>
     json_members fuel (go_Join (map json_member b) '','' @ CHR ''}'' # rest) = Some (b, rest)"
proof (induction b arbitrary: fuel)
  case Nil
  then show ?case by simp
next
  case (Cons m b)
  obtain k v where m: "m = (k, v)" by (cases m)
  obtain fuel' where fuel: "fuel = Suc fuel'" using Cons.prems(2) by (cases fuel) auto
  have ok: "ascii k" "json_ok v" using Cons.prems(3) m by auto
  show ?case
  proof (cases b)
    case Nil
    with m fuel ok show ?thesis
      by (simp add: json_quote_def json_chars_quoted json_val_text)
  next
    case (Cons m' b')
    then have "json_members fuel' (go_Join (map json_member b) '','' @ CHR ''}'' # rest) = Some (b, rest)"
      using Cons.IH [of fuel'] Cons.prems(2,3) fuel by simp
    with m fuel ok Cons show ?thesis
      by (simp add: json_quote_def json_chars_quoted json_val_text)
  qed
qed

lemma length_members: "length b \<le> length (go_Join (map json_member b) '','')"
proof (induction b)
  case (Cons m b)
  have "Suc 0 \<le> length (json_member m)" by (cases m) (simp add: json_quote_def)
  with Cons show ?case by (cases b) auto
qed simp

text \<open>What is written is read back, with nothing left over.\<close>

lemma json_round_trip:
  assumes "b \<noteq> []" and "list_all (\<lambda>(k, v). ascii k \<and> json_ok v) b"
  shows "json_Unmarshal (json_Marshal b) = Some (b, [])"
  using json_members_marshal [OF assms(1) _ assms(2), of _ "[]"] length_members [of b]
  by (simp add: json_Unmarshal_def json_Marshal_def le_SucI del: json_members.simps)

lemma length_json_quote: "length (json_quote s) \<le> 6 * length s + 2"
proof -
  have "length (concat (map json_escape s)) \<le> 6 * length s"
  proof (induction s)
    case (Cons c s)
    have "length (json_escape c) \<le> 6" by (simp add: json_escape_def Let_def)
    with Cons show ?case by simp
  qed simp
  then show ?thesis by (simp add: json_quote_def)
qed

text \<open>The fields of a Go structure: an absent one is zero, one of another type is an error.\<close>

definition json_string_field :: "json_body \<Rightarrow> string \<Rightarrow> string option" where
  "json_string_field b k =
     (case map_of b k of None \<Rightarrow> Some [] | Some (JStr s) \<Rightarrow> Some s | Some (JInt n) \<Rightarrow> None)"

definition json_int32_field :: "json_body \<Rightarrow> string \<Rightarrow> int32 option" where
  "json_int32_field b k =
     (case map_of b k of
        None \<Rightarrow> Some 0
      | Some (JStr s) \<Rightarrow> None
      | Some (JInt n) \<Rightarrow> if - (2 ^ 31) \<le> n \<and> n < 2 ^ 31 then Some (word_of_int n) else None)"

text \<open>
  \<open>Decode\<close> into a structure with the given fields, where unknown ones are refused, and whether the
  text then ends.
\<close>

definition json_Decode :: "string list \<Rightarrow> (json_body \<Rightarrow> 'r option) \<Rightarrow> string \<Rightarrow> 'r outcome \<times> bool" where
  "json_Decode fields mk s =
     (case json_Unmarshal s of
        None \<Rightarrow> (Inl (ErrText ''invalid character''), False)
      | Some (b, rest) \<Rightarrow>
          if \<not> list_all (\<lambda>(k, v). k \<in> set fields) b then (Inl (ErrText ''json: unknown field''), False)
          else
            (case mk b of
               None \<Rightarrow> (Inl (ErrText ''json: cannot unmarshal''), False)
             | Some r \<Rightarrow> (Inr r, rest = [])))"

lemma json_int32_sint: "- (2 ^ 31) \<le> sint (n :: int32) \<and> sint n < 2 ^ 31"
  using sint_int32_bounds [of n] by simp

end
