(* ===== verification/Berth_Client.thy ===== *)
theory Berth_Client
  imports API_Server Go_Json
begin

text \<open>
  The HTTP client of the API (\<open>pkg/client\<close>) and the refreshing token file it reads its bearer
  token from (\<open>internal/clientauth/tokensource.go\<close>).

  \<^item> \<open>url.PathEscape\<close> and the unescaping of the server's router are written out, so that the
    route a client asks for is the route the server takes, for every namespace and name.
  \<^item> The transport (\<open>http.Client.Do\<close>) is an argument \<open>net\<close>: it takes the request and the state of
    the world to an error or a response.  The JSON codec is an argument as on the server side:
    \<open>wi_Marshal\<close> encodes the body of a request, \<open>wi_Decode\<close> decodes that of an answer.  The codec of
    \<open>Go_Json\<close> has the laws that are assumed of it.
  \<^item> \<open>served\<close> is the transport that hands the request to the routes of the API server; over it a
    call of the client is the call of the manager.
\<close>

section \<open>Path escaping\<close>

definition alnum_char :: "char \<Rightarrow> bool" where
  "alnum_char c \<longleftrightarrow>
     (let n = (of_char c :: nat) in
      97 \<le> n \<and> n \<le> 122 \<or> 65 \<le> n \<and> n \<le> 90 \<or> 48 \<le> n \<and> n \<le> 57)"

text \<open>\<open>shouldEscape\<close> of \<open>net/url\<close> in the mode of a path segment.\<close>

definition shouldEscape :: "char \<Rightarrow> bool" where
  "shouldEscape c \<longleftrightarrow>
     \<not> (alnum_char c \<or> c \<in> {CHR ''-'', CHR ''_'', CHR ''.'', CHR ''~''}
        \<or> c \<in> {CHR ''$'', CHR ''&'', CHR ''+'', CHR '':'', CHR ''='', CHR ''@''})"

definition upperhex :: "nat \<Rightarrow> char" where
  "upperhex d = (if d < 10 then char_of (48 + d) else char_of (55 + d))"

definition PathEscape :: "string \<Rightarrow> string" where
  "PathEscape s =
     concat (map (\<lambda>c. if shouldEscape c
                      then [CHR ''%'', upperhex (of_char c div 16), upperhex (of_char c mod 16)]
                      else [c]) s)"

fun PathUnescape :: "string \<Rightarrow> string option" where
  "PathUnescape [] = Some []"
| "PathUnescape (c # s) =
     (if c = CHR ''%'' then
        (case s of
           a # b # s' \<Rightarrow>
             (case (unhex a, unhex b) of
                (Some x, Some y) \<Rightarrow> map_option ((#) (char_of (16 * x + y))) (PathUnescape s')
              | _ \<Rightarrow> None)
         | _ \<Rightarrow> None)
      else map_option ((#) c) (PathUnescape s))"

text \<open>
  The router of \<open>net/http\<close>: the escaped path is split at its slashes and every segment is
  unescaped.  An empty segment or a dot segment makes it redirect to the cleaned path instead.
\<close>

definition mux_segments :: "string \<Rightarrow> string list option" where
  "mux_segments p =
     (case go_Split p CHR ''/'' of
        [] # segs \<Rightarrow>
          if list_all (\<lambda>s. s \<notin> {'''', ''.'', ''..''}) segs \<and> list_all (\<lambda>s. PathUnescape s \<noteq> None) segs
          then Some (map (the \<circ> PathUnescape) segs) else None
      | _ \<Rightarrow> None)"

definition leasePath :: "string \<Rightarrow> string \<Rightarrow> string \<Rightarrow> string" where
  "leasePath namespace name op =
     ''/v1alpha1/namespaces/'' @ PathEscape namespace @ ''/leases/'' @ PathEscape name @ ''/'' @ op"

lemma of_char_div_16: "of_char (c :: char) div 16 < (16 :: nat)"
  using nat_of_char_less_256 [of c] by (simp add: less_mult_imp_div_less)

lemma unhex_upperhex: "d < 16 \<Longrightarrow> unhex (upperhex d) = Some d"
  by (cases "d < 10") (simp_all add: unhex_def upperhex_def)

lemma upperhex_plain: "d < 16 \<Longrightarrow> upperhex d \<noteq> CHR ''/''"
proof
  assume "d < 16" and "upperhex d = CHR ''/''"
  then have "(of_char (upperhex d) :: nat) = 47" by simp
  with \<open>d < 16\<close> show False by (auto simp: upperhex_def split: if_splits)
qed

lemma PathUnescape_PathEscape: "PathUnescape (PathEscape s) = Some s"
proof (induction s)
  case (Cons c s)
  have "16 * (of_char c div 16) + of_char c mod 16 = (of_char c :: nat)" by simp
  then have "char_of (16 * (of_char c div 16) + of_char c mod 16 :: nat) = c"
    by (metis char_of_char)
  with Cons show ?case
    by (auto simp: PathEscape_def unhex_upperhex of_char_div_16 shouldEscape_def alnum_char_def)
qed (simp add: PathEscape_def)

lemma PathEscape_no_slash: "CHR ''/'' \<notin> set (PathEscape s)"
proof (induction s)
  case (Cons c s)
  have "CHR ''/'' \<noteq> upperhex (of_char c div 16)" "CHR ''/'' \<noteq> upperhex (of_char c mod 16)"
    by (rule not_sym, simp add: upperhex_plain of_char_div_16)+
  moreover have "shouldEscape CHR ''/''"
    by (simp add: shouldEscape_def alnum_char_def)
  ultimately show ?case
    using Cons by (auto simp: PathEscape_def)
qed (simp add: PathEscape_def)

lemma PathEscape_inject: "PathEscape s = PathEscape t \<longleftrightarrow> s = t"
  by (metis PathUnescape_PathEscape option.inject)

lemma PathEscape_dots: "PathEscape '''' = ''''" "PathEscape ''.'' = ''.''" "PathEscape ''..'' = ''..''"
  by (simp_all add: PathEscape_def shouldEscape_def)

lemma PathEscape_plain_segment:
  "s \<notin> {'''', ''.'', ''..''} \<Longrightarrow> PathEscape s \<notin> {'''', ''.'', ''..''}"
  using PathEscape_inject [of s "''''"] PathEscape_inject [of s "''.''"] PathEscape_inject [of s "''..''"]
  by (simp add: PathEscape_dots)

section \<open>The client (client.go, options.go)\<close>

definition DefaultTimeout :: duration where
  "DefaultTimeout = 10 * second"

text \<open>The part of \<open>http.Client\<close> that the options change; a TLS configuration is a name.\<close>

record http_client =
  hc_Timeout :: duration
  hc_TLS :: "string option"

text \<open>
  A getter of the bearer token may read a file and cache it, so it acts on the state \<open>'w\<close> of the
  world.
\<close>

record 'w Client =
  cl_baseURL :: string
  cl_httpClient :: http_client
  cl_timeout :: "duration option"
  cl_apiKeyFunc :: "('w \<Rightarrow> string \<times> 'w) option"

datatype 'w client_option =
    WithAPIKey string
  | WithAPIKeyFunc "('w \<Rightarrow> string \<times> 'w) option"
  | WithHTTPClient "http_client option"
  | WithTimeout duration
  | WithTLSConfig "string option"

fun apply_option :: "'w client_option \<Rightarrow> 'w Client \<Rightarrow> 'w Client" where
  "apply_option (WithAPIKey key) c = c\<lparr>cl_apiKeyFunc := Some (\<lambda>w. (key, w))\<rparr>"
| "apply_option (WithAPIKeyFunc getter) c = c\<lparr>cl_apiKeyFunc := getter\<rparr>"
| "apply_option (WithHTTPClient hc) c =
     (case hc of None \<Rightarrow> c | Some h \<Rightarrow> c\<lparr>cl_httpClient := h\<rparr>)"
| "apply_option (WithTimeout d) c = c\<lparr>cl_timeout := Some (if d < 0 then 0 else d)\<rparr>"
| "apply_option (WithTLSConfig cfg) c =
     (case cfg of
        None \<Rightarrow> c
      | Some t \<Rightarrow> c\<lparr>cl_httpClient := (cl_httpClient c)\<lparr>hc_TLS := Some t\<rparr>\<rparr>)"

definition client_New :: "string \<Rightarrow> 'w client_option list \<Rightarrow> 'w Client" where
  "client_New baseURL opts =
     (let c = foldl (\<lambda>c opt. apply_option opt c)
                \<lparr>cl_baseURL = TrimSuffix baseURL ''/'',
                 cl_httpClient = \<lparr>hc_Timeout = DefaultTimeout, hc_TLS = None\<rparr>,
                 cl_timeout = None, cl_apiKeyFunc = None\<rparr> opts
      in case cl_timeout c of
           None \<Rightarrow> c
         | Some d \<Rightarrow> c\<lparr>cl_httpClient := (cl_httpClient c)\<lparr>hc_Timeout := d\<rparr>\<rparr>)"

section \<open>Requests (leases.go)\<close>

record client_result =
  cr_Acquired :: bool
  cr_Holder :: string
  cr_FencingToken :: int32
  cr_ExpiresAt :: time
  cr_AcquiredAt :: time

definition zero_result :: client_result where
  "zero_result =
     \<lparr>cr_Acquired = False, cr_Holder = [], cr_FencingToken = 0, cr_ExpiresAt = zero_time,
      cr_AcquiredAt = zero_time\<rparr>"

record client_request =
  cq_Method :: string
  cq_URL :: string
  cq_Authorization :: string
  cq_Body :: string

record wire =
  wi_Marshal :: "json_body \<Rightarrow> string outcome"
  wi_ParseURL :: "string \<Rightarrow> goerr option"
  wi_Decode :: "resp_body \<Rightarrow> client_result outcome"

type_synonym 'w transport = "client_request \<Rightarrow> 'w \<Rightarrow> http_response outcome \<times> 'w"

definition bearer :: "'w Client \<Rightarrow> 'w \<Rightarrow> string \<times> 'w" where
  "bearer c w =
     (case cl_apiKeyFunc c of
        None \<Rightarrow> ([], w)
      | Some f \<Rightarrow> (let (key, w') = f w in (if key \<noteq> [] then ''Bearer '' @ key else [], w')))"

text \<open>\<open>out\<close> tells whether the caller passed a destination for the answer.\<close>

definition answer_of :: "wire \<Rightarrow> bool \<Rightarrow> http_response \<Rightarrow> client_result outcome" where
  "answer_of W out resp =
     (if rs_Status resp = 409 then Inl ClientErrConflict
      else if rs_Status resp = 204 then Inr zero_result
      else if rs_Status resp \<ge> 400 then Inl (ErrText ''server status'')
      else if \<not> out then Inr zero_result
      else
        (case wi_Decode W (rs_Body resp) of
           Inl err \<Rightarrow> Inl (ErrWrap ''decode response: '' err)
         | Inr res \<Rightarrow> Inr res))"

definition postJSON ::
  "wire \<Rightarrow> 'w transport \<Rightarrow> 'w Client \<Rightarrow> string \<Rightarrow> json_body \<Rightarrow> bool \<Rightarrow> 'w \<Rightarrow> client_result outcome \<times> 'w"
where
  "postJSON W net c path body out w =
     (if cl_baseURL c = [] then (Inl (ErrText ''client: base URL is required''), w)
      else
        (case wi_Marshal W body of
           Inl err \<Rightarrow> (Inl (ErrWrap ''marshal body: '' err), w)
         | Inr buf \<Rightarrow>
             (case wi_ParseURL W (cl_baseURL c @ path) of
                Some err \<Rightarrow> (Inl (ErrWrap ''build request: '' err), w)
              | None \<Rightarrow>
                  (let (auth, w1) = bearer c w;
                       (x, w2) = net \<lparr>cq_Method = ''POST'', cq_URL = cl_baseURL c @ path,
                                      cq_Authorization = auth, cq_Body = buf\<rparr> w1
                   in case x of
                        Inl err \<Rightarrow> (Inl (ErrWrap ''do request: '' err), w2)
                      | Inr resp \<Rightarrow> (answer_of W out resp, w2)))))"

text \<open>\<open>int32(ttl / time.Second)\<close>: the quotient truncates, the conversion keeps 32 bits.\<close>

definition ttl_seconds :: "duration \<Rightarrow> int32" where
  "ttl_seconds ttl = word_of_int (ttl sdiv second)"

definition client_Acquire ::
  "wire \<Rightarrow> 'w transport \<Rightarrow> 'w Client \<Rightarrow> string \<Rightarrow> string \<Rightarrow> string \<Rightarrow> duration \<Rightarrow> 'w \<Rightarrow>
   client_result outcome \<times> 'w"
where
  "client_Acquire W net c namespace name holder ttl w =
     postJSON W net c (leasePath namespace name ''acquire'')
       [(''holder'', JStr holder), (''ttlSeconds'', JInt (sint (ttl_seconds ttl)))] True w"

definition client_Renew ::
  "wire \<Rightarrow> 'w transport \<Rightarrow> 'w Client \<Rightarrow> string \<Rightarrow> string \<Rightarrow> string \<Rightarrow> int32 \<Rightarrow> duration \<Rightarrow> 'w \<Rightarrow>
   client_result outcome \<times> 'w"
where
  "client_Renew W net c namespace name holder fencingToken ttl w =
     postJSON W net c (leasePath namespace name ''renew'')
       [(''fencingToken'', JInt (sint fencingToken)), (''holder'', JStr holder),
        (''ttlSeconds'', JInt (sint (ttl_seconds ttl)))] True w"

definition client_Release ::
  "wire \<Rightarrow> 'w transport \<Rightarrow> 'w Client \<Rightarrow> string \<Rightarrow> string \<Rightarrow> string \<Rightarrow> int32 \<Rightarrow> 'w \<Rightarrow> goerr option \<times> 'w"
where
  "client_Release W net c namespace name holder fencingToken w =
     (let (x, w') = postJSON W net c (leasePath namespace name ''release'')
                      [(''fencingToken'', JInt (sint fencingToken)), (''holder'', JStr holder)] False w
      in (case x of Inl err \<Rightarrow> Some err | Inr res \<Rightarrow> None, w'))"

definition client_Ping :: "wire \<Rightarrow> 'w transport \<Rightarrow> 'w Client \<Rightarrow> 'w \<Rightarrow> goerr option \<times> 'w" where
  "client_Ping W net c w =
     (if cl_baseURL c = [] then (Some (ErrText ''client: base URL is required''), w)
      else
        (case wi_ParseURL W (cl_baseURL c @ ''/healthz'') of
           Some err \<Rightarrow> (Some (ErrWrap ''build request: '' err), w)
         | None \<Rightarrow>
             (let (x, w') = net \<lparr>cq_Method = ''GET'', cq_URL = cl_baseURL c @ ''/healthz'',
                                 cq_Authorization = [], cq_Body = []\<rparr> w
              in (case x of
                    Inl err \<Rightarrow> Some (ErrWrap ''do request: '' err)
                  | Inr resp \<Rightarrow>
                      if rs_Status resp < 200 \<or> rs_Status resp \<ge> 300
                      then Some (ErrText ''berth api healthz: status'') else None,
                  w'))))"

section \<open>The token file (clientauth/tokensource.go)\<close>

record FileTokenSource =
  fts_cacheTTL :: duration
  fts_cached :: string
  fts_cachedAt :: time

text \<open>\<open>file\<close> is the result of \<open>os.ReadFile\<close>, \<open>now\<close> and \<open>after\<close> are the clock before and after it.\<close>

definition fts_readLocked :: "string outcome \<Rightarrow> string outcome" where
  "fts_readLocked file =
     (case file of
        Inl err \<Rightarrow> Inl err
      | Inr data \<Rightarrow>
          (let tok = TrimSpace data in
           if tok = [] then Inl (ErrText ''token source: file is empty'') else Inr tok))"

definition fts_read :: "string outcome \<Rightarrow> time \<Rightarrow> FileTokenSource \<Rightarrow> string outcome \<times> FileTokenSource" where
  "fts_read file after s =
     (case fts_readLocked file of
        Inl err \<Rightarrow> (Inl err, s)
      | Inr tok \<Rightarrow> (Inr tok, s\<lparr>fts_cached := tok, fts_cachedAt := after\<rparr>))"

definition NewFileTokenSource ::
  "string \<Rightarrow> duration \<Rightarrow> string outcome \<Rightarrow> time \<Rightarrow> FileTokenSource outcome"
where
  "NewFileTokenSource path cacheTTL file after =
     (if path = [] then Inl (ErrText ''token source: file path is required'')
      else
        (let ttl = (if cacheTTL \<le> 0 then second else cacheTTL);
             (x, s) = fts_read file after \<lparr>fts_cacheTTL = ttl, fts_cached = [], fts_cachedAt = zero_time\<rparr>
         in case x of Inl err \<Rightarrow> Inl err | Inr tok \<Rightarrow> Inr s))"

definition fts_Get ::
  "time \<Rightarrow> string outcome \<Rightarrow> time \<Rightarrow> FileTokenSource \<Rightarrow> string \<times> FileTokenSource"
where
  "fts_Get now file after s =
     (if time_Sub now (fts_cachedAt s) < fts_cacheTTL s then (fts_cached s, s)
      else
        (case fts_readLocked file of
           Inr tok \<Rightarrow> (tok, s\<lparr>fts_cached := tok, fts_cachedAt := after\<rparr>)
         | Inl err \<Rightarrow> (fts_cached s, s)))"

section \<open>A client and a server\<close>

definition client_resultFrom :: "AcquireResult \<Rightarrow> client_result" where
  "client_resultFrom r =
     \<lparr>cr_Acquired = ar_Acquired r, cr_Holder = ar_Holder r, cr_FencingToken = ar_FencingToken r,
      cr_ExpiresAt = ar_ExpiresAt r, cr_AcquiredAt = ar_AcquiredAt r\<rparr>"

text \<open>The transport that delivers a request for \<open>base\<close> to the routes of one API server.\<close>

definition delivered :: "string \<Rightarrow> client_request \<Rightarrow> http_request option" where
  "delivered base q =
     (if prefix base (cq_URL q) then
        (case mux_segments (drop (length base) (cq_URL q)) of
           None \<Rightarrow> None
         | Some segs \<Rightarrow>
             Some \<lparr>rq_Method = cq_Method q, rq_Segments = segs, rq_Authorization = cq_Authorization q,
                   rq_XRequestId = [], rq_Traceparent = [], rq_Body = (cq_Body q, None), rq_Random = None\<rparr>)
      else None)"

definition served ::
  "dns1123 \<Rightarrow> 's Store \<Rightarrow> (nat \<Rightarrow> time) \<Rightarrow> decoders \<Rightarrow> authenticator option \<Rightarrow> string \<Rightarrow> 's transport"
where
  "served V S clk D authn base q s =
     (case delivered base q of
        None \<Rightarrow> (Inl (ErrText ''not delivered''), s)
      | Some r \<Rightarrow> (let (resp, l, s') = NewMux V S clk D [] authn None None r s in (Inr resp, s')))"

text \<open>
  What the sources rely on of \<open>encoding/json\<close>: a body with an ASCII holder of legal size is encoded
  within the limit of the server and decodes to its fields; an answer with an ASCII holder and with
  times that \<open>time.Time.MarshalJSON\<close> writes in every time zone decodes to its fields.  Nothing is
  assumed of other texts, which the encoder may rewrite, nor of other times, which it refuses.
\<close>

definition json_time :: "time \<Rightarrow> bool" where
  "json_time t \<longleftrightarrow> - 62135596800 * second \<le> t \<and> t < 253370764800 * second"

definition sendable :: "AcquireResult \<Rightarrow> bool" where
  "sendable r \<longleftrightarrow> ascii (ar_Holder r) \<and> json_time (ar_ExpiresAt r) \<and> json_time (ar_AcquiredAt r)"

definition wire_ok :: "wire \<Rightarrow> decoders \<Rightarrow> bool" where
  "wire_ok W D \<longleftrightarrow>
     (\<forall>h n. ascii h \<longrightarrow> length h \<le> MaxHolderBytes \<longrightarrow>
        (\<exists>buf. wi_Marshal W [(''holder'', JStr h), (''ttlSeconds'', JInt (sint n))] = Inr buf \<and>
           length buf \<le> maxLeaseBodyBytes \<and>
           dec_Acquire D buf = (Inr \<lparr>aq_Holder = h, aq_TTLSeconds = n\<rparr>, True))) \<and>
     (\<forall>h t n. ascii h \<longrightarrow> length h \<le> MaxHolderBytes \<longrightarrow>
        (\<exists>buf. wi_Marshal W [(''fencingToken'', JInt (sint t)), (''holder'', JStr h),
                             (''ttlSeconds'', JInt (sint n))] = Inr buf \<and>
           length buf \<le> maxLeaseBodyBytes \<and>
           dec_Renew D buf = (Inr \<lparr>rn_Holder = h, rn_FencingToken = t, rn_TTLSeconds = n\<rparr>, True))) \<and>
     (\<forall>h t. ascii h \<longrightarrow> length h \<le> MaxHolderBytes \<longrightarrow>
        (\<exists>buf. wi_Marshal W [(''fencingToken'', JInt (sint t)), (''holder'', JStr h)] = Inr buf \<and>
           length buf \<le> maxLeaseBodyBytes \<and>
           dec_Release D buf = (Inr \<lparr>rl_Holder = h, rl_FencingToken = t\<rparr>, True))) \<and>
     (\<forall>r. sendable r \<longrightarrow> wi_Decode W (BodyLease (leaseResponseFrom r)) = Inr (client_resultFrom r))"

text \<open>A request with nothing but an \<open>Authorization\<close> header, to state what the header is worth.\<close>

definition bare_request :: "string \<Rightarrow> http_request" where
  "bare_request auth =
     \<lparr>rq_Method = [], rq_Segments = [], rq_Authorization = auth, rq_XRequestId = [],
      rq_Traceparent = [], rq_Body = ([], None), rq_Random = None\<rparr>"

text \<open>The credentials of a client pass the server's checks for a holder.\<close>

definition admitted :: "authenticator option \<Rightarrow> string \<Rightarrow> string \<Rightarrow> string \<Rightarrow> bool" where
  "admitted authn auth namespace holder \<longleftrightarrow>
     (case authn of
        None \<Rightarrow> True
      | Some a \<Rightarrow>
          (case bearerToken (bare_request auth) of
             None \<Rightarrow> False
           | Some token \<Rightarrow>
               (case a token of
                  Inr (Some i) \<Rightarrow> authorize (Some NewDefaultAuthorizer) (Some i) namespace holder = None
                | _ \<Rightarrow> False)))"

text \<open>The base URL is set, the three URLs of the key are well formed, and the token is fixed.\<close>

definition client_ready :: "wire \<Rightarrow> 's Client \<Rightarrow> string \<Rightarrow> Key \<Rightarrow> bool" where
  "client_ready W c auth key \<longleftrightarrow>
     cl_baseURL c \<noteq> [] \<and>
     list_all (\<lambda>op. wi_ParseURL W (cl_baseURL c @ leasePath (key_Namespace key) (key_Name key) op) = None)
       [''acquire'', ''renew'', ''release''] \<and>
     (\<forall>s. bearer c s = (auth, s))"

lemma ops_plain:
  "act \<in> {''acquire'', ''renew'', ''release''} \<Longrightarrow>
     CHR ''/'' \<notin> set act \<and> PathUnescape act = Some act \<and> act \<notin> {'''', ''.'', ''..''}"
  by auto

lemma mux_segments_leasePath:
  assumes "ns \<notin> {'''', ''.'', ''..''}" and "name \<notin> {'''', ''.'', ''..''}"
    and "act \<in> {''acquire'', ''renew'', ''release''}"
  shows "mux_segments (leasePath ns name act) =
    Some [''v1alpha1'', ''namespaces'', ns, ''leases'', name, act]"
proof -
  have path: "leasePath ns name act =
      [] @ CHR ''/'' # ''v1alpha1'' @ CHR ''/'' # ''namespaces'' @ CHR ''/'' # PathEscape ns
        @ CHR ''/'' # ''leases'' @ CHR ''/'' # PathEscape name @ CHR ''/'' # act"
    by (simp add: leasePath_def)
  have plain: "CHR ''/'' \<notin> set ''v1alpha1''" "CHR ''/'' \<notin> set ''namespaces''"
    "CHR ''/'' \<notin> set ''leases''" "CHR ''/'' \<notin> set []"
    by simp_all
  have "go_Split (leasePath ns name act) CHR ''/'' =
      [[], ''v1alpha1'', ''namespaces'', PathEscape ns, ''leases'', PathEscape name, act]"
    unfolding path using ops_plain [OF assms(3)]
    by (simp only: go_Split_append go_Split_plain PathEscape_no_slash plain not_False_eq_True)
  then show ?thesis
    using PathEscape_plain_segment [OF assms(1)] PathEscape_plain_segment [OF assms(2)]
      ops_plain [OF assms(3)]
    by (simp add: mux_segments_def PathUnescape_PathEscape)
qed

lemma valid_key_segments:
  assumes "dns1123_ok V" and "ValidateKey V key = None" and "key_Name key \<notin> {''.'', ''..''}"
  shows "key_Namespace key \<notin> {'''', ''.'', ''..'', ''/''}" "key_Name key \<notin> {'''', ''.'', ''..'', ''/''}"
proof -
  have "IsDNS1123Label V (key_Namespace key) = []" "IsDNS1123Subdomain V (key_Name key) = []"
    using assms(2) by (auto simp: ValidateKey_def split: if_splits)
  with assms(1) have ns: "key_Namespace key \<noteq> []" "list_all dns_char (key_Namespace key)"
    and name: "key_Name key \<noteq> []" "list_all (\<lambda>c. dns_char c \<or> c = CHR ''.'') (key_Name key)"
    unfolding dns1123_ok_def by blast+
  show "key_Name key \<notin> {'''', ''.'', ''..'', ''/''}"
    using assms(3) name by (auto simp: dns_char_def)
  show "key_Namespace key \<notin> {'''', ''.'', ''..'', ''/''}"
    using ns by (auto simp: dns_char_def)
qed

text \<open>What a handler of the server makes of a request that the client posts.\<close>

definition server_call ::
  "dns1123 \<Rightarrow> 's Store \<Rightarrow> (nat \<Rightarrow> time) \<Rightarrow> decoders \<Rightarrow> authenticator option \<Rightarrow> lease_action \<Rightarrow> Key \<Rightarrow> http_request \<Rightarrow>
   's \<Rightarrow> http_response \<times> 's"
where
  "server_call V S clk D authn act key r s =
     (let (resp, l, s') =
        (case authn of
           None \<Rightarrow> act_handler V S clk D [] None (act, key) None r s
         | Some a \<Rightarrow> AuthMiddleware a (act_handler V S clk D [] (Some NewDefaultAuthorizer) (act, key)) r s)
      in (resp, s'))"

lemma served_post:
  assumes "key_Namespace key \<notin> {'''', ''.'', ''..'', ''/''}" and "key_Name key \<notin> {'''', ''.'', ''..'', ''/''}"
    and "(op, act) \<in> {(''acquire'', DoAcquire), (''renew'', DoRenew), (''release'', DoRelease)}"
  shows "\<exists>r. rq_Authorization r = auth \<and> rq_Body r = (buf, None) \<and>
    served V S clk D authn base
      \<lparr>cq_Method = ''POST'', cq_URL = base @ leasePath (key_Namespace key) (key_Name key) op,
       cq_Authorization = auth, cq_Body = buf\<rparr> s =
    (let (resp, s') = server_call V S clk D authn act key r s in (Inr resp, s'))"
proof -
  let ?r = "\<lparr>rq_Method = ''POST'',
      rq_Segments = [''v1alpha1'', ''namespaces'', key_Namespace key, ''leases'', key_Name key, op],
      rq_Authorization = auth, rq_XRequestId = [], rq_Traceparent = [], rq_Body = (buf, None),
      rq_Random = None\<rparr>"
  have "op \<in> {''acquire'', ''renew'', ''release''}"
    using assms(3) by auto
  with assms(1,2) have segs: "mux_segments (leasePath (key_Namespace key) (key_Name key) op) =
      Some (rq_Segments ?r)"
    by (simp add: mux_segments_leasePath)
  have "lease_route (rq_Segments ?r) = Some (act, key)"
    using assms by auto
  then have "NewMux V S clk D [] authn None None ?r s =
      (case authn of
         None \<Rightarrow> act_handler V S clk D [] None (act, key) None ?r s
       | Some a \<Rightarrow> AuthMiddleware a (act_handler V S clk D [] (Some NewDefaultAuthorizer) (act, key)) ?r s)"
    by (cases authn) (simp_all add: NewMux_def Let_def registerLeaseRoutes_alt)
  then have "served V S clk D authn base
      \<lparr>cq_Method = ''POST'', cq_URL = base @ leasePath (key_Namespace key) (key_Name key) op,
       cq_Authorization = auth, cq_Body = buf\<rparr> s =
    (let (resp, s') = server_call V S clk D authn act key ?r s in (Inr resp, s'))"
    by (simp add: served_def delivered_def segs
        server_call_def split: prod.splits)
  then show ?thesis by (intro exI [of _ ?r]) simp
qed

lemma server_call_admitted:
  assumes "admitted authn (rq_Authorization r) (key_Namespace key) h"
  shows "\<exists>authz ident. authorize authz ident (key_Namespace key) h = None \<and>
    server_call V S clk D authn act key r s =
      (let (resp, l, s') = act_handler V S clk D [] authz (act, key) ident r s in (resp, s'))"
proof (cases authn)
  case None
  then show ?thesis
    by (intro exI [of _ None]) (simp add: server_call_def authorize_def)
next
  case (Some a)
  have "bearerToken r = bearerToken (bare_request (rq_Authorization r))"
    by (simp add: bearerToken_def bare_request_def)
  then show ?thesis
    using Some assms
    by (fastforce simp: server_call_def admitted_def AuthMiddleware_def
        split: option.splits sum.splits)
qed

lemma decodeJSON_wire:
  "rq_Body r = (buf, None) \<Longrightarrow> length buf \<le> maxLeaseBodyBytes \<Longrightarrow> dec buf = (Inr v, True) \<Longrightarrow>
     decodeJSON dec r = Inr v"
  by (simp add: decodeJSON_def)

lemma ttl_seconds_range:
  assumes "second \<le> ttl" and "ttl < 2147483648 * second"
  shows "0 < sint (ttl_seconds ttl)" "seconds (sint (ttl_seconds ttl)) = ttl - ttl mod second"
proof -
  have q: "ttl sdiv second = ttl div second"
    using assms by (simp add: signed_divide_int_def)
  have "1 \<le> ttl div second" "ttl div second < 2147483648"
    using assms by (auto simp: div_less_iff_less_mult zdiv_mono1 [of second ttl second, simplified])
  moreover from this have "sint (ttl_seconds ttl) = ttl div second"
    by (simp add: ttl_seconds_def q sint_sbintrunc' signed_take_bit_int_eq_self)
  ultimately show "0 < sint (ttl_seconds ttl)" "seconds (sint (ttl_seconds ttl)) = ttl - ttl mod second"
    by (simp_all add: seconds_id minus_mod_eq_div_mult)
qed

lemma client_post:
  assumes "client_ready W c auth key" and "admitted authn auth (key_Namespace key) h"
    and "key_Namespace key \<notin> {'''', ''.'', ''..'', ''/''}" and "key_Name key \<notin> {'''', ''.'', ''..'', ''/''}"
    and "(op, act) \<in> {(''acquire'', DoAcquire), (''renew'', DoRenew), (''release'', DoRelease)}"
    and "wi_Marshal W body = Inr buf"
  shows "\<exists>r authz ident. rq_Body r = (buf, None) \<and> authorize authz ident (key_Namespace key) h = None \<and>
    postJSON W (served V S clk D authn (cl_baseURL c)) c
      (leasePath (key_Namespace key) (key_Name key) op) body out s =
    (let (resp, l, s') = act_handler V S clk D [] authz (act, key) ident r s
     in (answer_of W out resp, s'))"
proof -
  from served_post [OF assms(3-5), of auth buf V S clk D authn "cl_baseURL c" s] obtain r where
    r: "rq_Authorization r = auth" "rq_Body r = (buf, None)" and
    net: "served V S clk D authn (cl_baseURL c)
      \<lparr>cq_Method = ''POST'', cq_URL = cl_baseURL c @ leasePath (key_Namespace key) (key_Name key) op,
       cq_Authorization = auth, cq_Body = buf\<rparr> s =
      (let (resp, s') = server_call V S clk D authn act key r s in (Inr resp, s'))"
    by blast
  from server_call_admitted [of authn r key h V S clk D act s] assms(2) r(1) obtain authz ident where
    az: "authorize authz ident (key_Namespace key) h = None" and
    call: "server_call V S clk D authn act key r s =
      (let (resp, l, s') = act_handler V S clk D [] authz (act, key) ident r s in (resp, s'))"
    by blast
  have "wi_ParseURL W (cl_baseURL c @ leasePath (key_Namespace key) (key_Name key) op) = None"
    using assms(1,5) by (auto simp: client_ready_def)
  then have "postJSON W (served V S clk D authn (cl_baseURL c)) c
      (leasePath (key_Namespace key) (key_Name key) op) body out s =
    (let (resp, l, s') = act_handler V S clk D [] authz (act, key) ident r s
     in (answer_of W out resp, s'))"
    using assms(1,6) by (simp add: postJSON_def client_ready_def net call split: prod.splits)
  with r az show ?thesis by blast
qed

lemma wireD:
  assumes "wire_ok W D" and "ascii h" and "ValidateHolder h = None"
  shows "\<exists>buf. wi_Marshal W [(''holder'', JStr h), (''ttlSeconds'', JInt (sint n))] = Inr buf \<and>
      length buf \<le> maxLeaseBodyBytes \<and>
      dec_Acquire D buf = (Inr \<lparr>aq_Holder = h, aq_TTLSeconds = n\<rparr>, True)"
    and "\<exists>buf. wi_Marshal W [(''fencingToken'', JInt (sint t)), (''holder'', JStr h),
                             (''ttlSeconds'', JInt (sint n))] = Inr buf \<and>
      length buf \<le> maxLeaseBodyBytes \<and>
      dec_Renew D buf = (Inr \<lparr>rn_Holder = h, rn_FencingToken = t, rn_TTLSeconds = n\<rparr>, True)"
    and "\<exists>buf. wi_Marshal W [(''fencingToken'', JInt (sint t)), (''holder'', JStr h)] = Inr buf \<and>
      length buf \<le> maxLeaseBodyBytes \<and>
      dec_Release D buf = (Inr \<lparr>rl_Holder = h, rl_FencingToken = t\<rparr>, True)"
    and "sendable r \<Longrightarrow> wi_Decode W (BodyLease (leaseResponseFrom r)) = Inr (client_resultFrom r)"
  using assms by (simp_all add: wire_ok_def ValidateHolder_None MaxHolderBytes_def)

lemma client_acquire_served:
  assumes "wire_ok W D" and "client_ready W c auth key" and "admitted authn auth (key_Namespace key) h"
    and "dns1123_ok V" and "ValidateKey V key = None" and "key_Name key \<notin> {''.'', ''..''}"
    and "ValidateHolder h = None" and "ascii h" and "second \<le> ttl" and "ttl < 2147483648 * second"
    and "\<forall>r. fst (Manager_Acquire V S clk key h (ttl - ttl mod second) s) = Inr r \<longrightarrow> sendable r"
  shows "client_Acquire W (served V S clk D authn (cl_baseURL c)) c (key_Namespace key) (key_Name key) h ttl s =
      (let (x, s') = Manager_Acquire V S clk key h (ttl - ttl mod second) s
       in (map_sum (\<lambda>e. ErrText ''server status'') client_resultFrom x, s'))"
proof -
  obtain buf where buf:
    "wi_Marshal W [(''holder'', JStr h), (''ttlSeconds'', JInt (sint (ttl_seconds ttl)))] = Inr buf"
    "length buf \<le> maxLeaseBodyBytes"
    "dec_Acquire D buf = (Inr \<lparr>aq_Holder = h, aq_TTLSeconds = ttl_seconds ttl\<rparr>, True)"
    using wireD(1) [OF assms(1,8,7), of "ttl_seconds ttl"] by blast
  from client_post [OF assms(2,3) valid_key_segments [OF assms(4-6)], of "''acquire''" DoAcquire, OF _ buf(1)]
  obtain r authz ident where r: "rq_Body r = (buf, None)"
    "authorize authz ident (key_Namespace key) h = None"
    "client_Acquire W (served V S clk D authn (cl_baseURL c)) c (key_Namespace key) (key_Name key) h ttl s =
     (let (resp, l, s') = act_handler V S clk D [] authz (DoAcquire, key) ident r s
      in (answer_of W True resp, s'))"
    unfolding client_Acquire_def by blast
  show ?thesis
    using wireD(4) [OF assms(1,8,7)] decodeJSON_wire [of r buf, OF r(1) buf(2), of "dec_Acquire D", OF buf(3)] r(2) assms(5,7,11)
      ttl_seconds_range [OF assms(9,10)]
    by (simp add: r(3) act_handler_def handleAcquire_def answer_of_def writeJSON_def
        writeInternalError_def Let_def split: sum.splits prod.splits)
qed

lemma client_renew_served:
  assumes "wire_ok W D" and "client_ready W c auth key" and "admitted authn auth (key_Namespace key) h"
    and "dns1123_ok V" and "ValidateKey V key = None" and "key_Name key \<notin> {''.'', ''..''}"
    and "ValidateHolder h = None" and "ascii h" and "second \<le> ttl" and "ttl < 2147483648 * second"
    and "tok \<noteq> 0"
    and "\<forall>r. fst (Manager_Renew V S (clk 0) key h tok (ttl - ttl mod second) s) = Inr r \<longrightarrow> sendable r"
  shows "client_Renew W (served V S clk D authn (cl_baseURL c)) c (key_Namespace key) (key_Name key) h tok ttl s =
      (let (x, s') = Manager_Renew V S (clk 0) key h tok (ttl - ttl mod second) s
       in (map_sum (\<lambda>e. ErrText ''server status'') client_resultFrom x, s'))"
proof -
  obtain buf where buf:
    "wi_Marshal W [(''fencingToken'', JInt (sint tok)), (''holder'', JStr h),
       (''ttlSeconds'', JInt (sint (ttl_seconds ttl)))] = Inr buf"
    "length buf \<le> maxLeaseBodyBytes"
    "dec_Renew D buf =
       (Inr \<lparr>rn_Holder = h, rn_FencingToken = tok, rn_TTLSeconds = ttl_seconds ttl\<rparr>, True)"
    using wireD(2) [OF assms(1,8,7), of tok "ttl_seconds ttl"] by blast
  from client_post [OF assms(2,3) valid_key_segments [OF assms(4-6)], of "''renew''" DoRenew, OF _ buf(1)]
  obtain r authz ident where r: "rq_Body r = (buf, None)"
    "authorize authz ident (key_Namespace key) h = None"
    "client_Renew W (served V S clk D authn (cl_baseURL c)) c (key_Namespace key) (key_Name key) h tok ttl s =
     (let (resp, l, s') = act_handler V S clk D [] authz (DoRenew, key) ident r s
      in (answer_of W True resp, s'))"
    unfolding client_Renew_def by blast
  show ?thesis
    using wireD(4) [OF assms(1,8,7)]
      decodeJSON_wire [of r buf, OF r(1) buf(2), of "dec_Renew D", OF buf(3)] r(2) assms(5,7,11,12)
      ttl_seconds_range [OF assms(9,10)]
    by (simp add: r(3) act_handler_def handleRenew_def answer_of_def writeJSON_def
        writeInternalError_def Let_def split: sum.splits prod.splits)
qed

lemma client_release_served:
  assumes "wire_ok W D" and "client_ready W c auth key" and "admitted authn auth (key_Namespace key) h"
    and "dns1123_ok V" and "ValidateKey V key = None" and "key_Name key \<notin> {''.'', ''..''}"
    and "ValidateHolder h = None" and "ascii h"
  shows "client_Release W (served V S clk D authn (cl_baseURL c)) c (key_Namespace key) (key_Name key) h tok s =
      (let (e, s') = Manager_Release V S (clk 0) key h tok s
       in (map_option (\<lambda>e. if errors_Is e ErrConflict then ClientErrConflict
                           else ErrText ''server status'') e, s'))"
proof -
  obtain buf where buf:
    "wi_Marshal W [(''fencingToken'', JInt (sint tok)), (''holder'', JStr h)] = Inr buf"
    "length buf \<le> maxLeaseBodyBytes"
    "dec_Release D buf = (Inr \<lparr>rl_Holder = h, rl_FencingToken = tok\<rparr>, True)"
    using wireD(3) [OF assms(1,8,7), of tok] by blast
  from client_post [OF assms(2,3) valid_key_segments [OF assms(4-6)], of "''release''" DoRelease, OF _ buf(1)]
  obtain r authz ident where r: "rq_Body r = (buf, None)"
    "authorize authz ident (key_Namespace key) h = None"
    "postJSON W (served V S clk D authn (cl_baseURL c)) c
       (leasePath (key_Namespace key) (key_Name key) ''release'')
       [(''fencingToken'', JInt (sint tok)), (''holder'', JStr h)] False s =
     (let (resp, l, s') = act_handler V S clk D [] authz (DoRelease, key) ident r s
      in (answer_of W False resp, s'))"
    by blast
  show ?thesis
    using decodeJSON_wire [of r buf, OF r(1) buf(2), of "dec_Release D", OF buf(3)] r(2) assms(5,7)
    by (simp add: client_Release_def r(3) act_handler_def handleRelease_def answer_of_def
        writeJSON_def writeError_def writeInternalError_def Let_def ValidateHolder_None
        split: option.splits prod.splits)
qed

section \<open>The token file\<close>

text \<open>One use of the source: the clock, what the file reads, the clock afterwards.\<close>

fun fts_step :: "time \<times> string outcome \<times> time \<Rightarrow> FileTokenSource \<Rightarrow> FileTokenSource" where
  "fts_step (now, file, after) s = snd (fts_Get now file after s)"

text \<open>
  The account of a token file, independent of the implementation: the token, and the time of the
  read that gave it.
\<close>

fun token_account :: "duration \<Rightarrow> time \<times> string outcome \<times> time \<Rightarrow> string \<times> time \<Rightarrow> string \<times> time" where
  "token_account window (now, Inl err, after) (tok, at) = (tok, at)"
| "token_account window (now, Inr raw, after) (tok, at) =
     (if window \<le> time_Sub now at \<and> TrimSpace raw \<noteq> [] then (TrimSpace raw, after) else (tok, at))"

definition account_of :: "FileTokenSource \<Rightarrow> string \<times> time" where
  "account_of s = (fts_cached s, fts_cachedAt s)"

lemma fts_step_account:
  "account_of (fts_step e s) = token_account (fts_cacheTTL s) e (account_of s)"
  "fts_cacheTTL (fts_step e s) = fts_cacheTTL s"
proof -
  obtain now f after where e: "e = (now, f, after)" by (cases e)
  show "account_of (fts_step e s) = token_account (fts_cacheTTL s) e (account_of s)"
    "fts_cacheTTL (fts_step e s) = fts_cacheTTL s"
    by (cases f; simp add: e fts_Get_def fts_readLocked_def account_of_def Let_def)+
qed

lemma fts_steps_account:
  "account_of (fold fts_step evs s) = fold (token_account (fts_cacheTTL s)) evs (account_of s)"
  by (induction evs arbitrary: s) (simp_all add: fts_step_account)

lemma fts_Get_answer: "fts_Get now file after s = (tok, s') \<Longrightarrow> fts_cached s' = tok"
  by (auto simp: fts_Get_def split: if_splits sum.splits)

lemma NewFileTokenSource_reads:
  "NewFileTokenSource path ttl file after = Inr s \<Longrightarrow>
     \<exists>raw. file = Inr raw \<and> TrimSpace raw \<noteq> [] \<and>
       s = \<lparr>fts_cacheTTL = (if ttl \<le> 0 then second else ttl), fts_cached = TrimSpace raw, fts_cachedAt = after\<rparr>"
  by (auto simp: NewFileTokenSource_def fts_read_def fts_readLocked_def Let_def split: if_splits sum.splits)

lemma token_account_source:
  assumes "TrimSpace raw0 \<noteq> []"
  shows "fst (fold (token_account window) evs (TrimSpace raw0, at)) \<noteq> [] \<and>
    (\<exists>raw. Inr raw \<in> insert (Inr raw0) ((fst \<circ> snd) ` set evs) \<and>
       fst (fold (token_account window) evs (TrimSpace raw0, at)) = TrimSpace raw)"
proof (induction evs rule: rev_induct)
  case Nil
  with assms show ?case by auto
next
  case (snoc e evs)
  obtain now f after where e: "e = (now, f, after)" by (cases e)
  obtain tok at' where a: "fold (token_account window) evs (TrimSpace raw0, at) = (tok, at')" by fastforce
  show ?case
    using snoc.IH a by (cases f) (auto simp: e)
qed

section \<open>JSON has the assumed laws\<close>

text \<open>
  The codec of \<open>Go_Json\<close>: the requests travel as JSON text; an answer is decoded when its holder and
  its times can be encoded, and is an error of the decoder otherwise.
\<close>

definition json_decoders :: decoders where
  "json_decoders =
     \<lparr>dec_Acquire = json_Decode [''holder'', ''ttlSeconds''] (\<lambda>b.
        (case (json_string_field b ''holder'', json_int32_field b ''ttlSeconds'') of
           (Some h, Some n) \<Rightarrow> Some \<lparr>aq_Holder = h, aq_TTLSeconds = n\<rparr> | _ \<Rightarrow> None)),
      dec_Renew = json_Decode [''holder'', ''fencingToken'', ''ttlSeconds''] (\<lambda>b.
        (case (json_string_field b ''holder'', json_int32_field b ''fencingToken'',
               json_int32_field b ''ttlSeconds'') of
           (Some h, Some t, Some n) \<Rightarrow> Some \<lparr>rn_Holder = h, rn_FencingToken = t, rn_TTLSeconds = n\<rparr>
         | _ \<Rightarrow> None)),
      dec_Release = json_Decode [''holder'', ''fencingToken''] (\<lambda>b.
        (case (json_string_field b ''holder'', json_int32_field b ''fencingToken'') of
           (Some h, Some t) \<Rightarrow> Some \<lparr>rl_Holder = h, rl_FencingToken = t\<rparr> | _ \<Rightarrow> None))\<rparr>"

definition json_wire :: wire where
  "json_wire =
     \<lparr>wi_Marshal = (\<lambda>b. Inr (json_Marshal b)),
      wi_ParseURL = (\<lambda>u. if HasPrefix u ''https://'' then None else Some (ErrText ''unsupported protocol scheme'')),
      wi_Decode = (\<lambda>b. case b of
          BodyLease lr \<Rightarrow>
            if ascii (lr_Holder lr) \<and> json_time (lr_ExpiresAt lr) \<and> json_time (lr_AcquiredAt lr) then
              Inr \<lparr>cr_Acquired = lr_Acquired lr, cr_Holder = lr_Holder lr,
                cr_FencingToken = lr_FencingToken lr, cr_ExpiresAt = lr_ExpiresAt lr,
                cr_AcquiredAt = lr_AcquiredAt lr\<rparr>
            else Inl (ErrText ''unexpected end of JSON input'')
        | _ \<Rightarrow> Inl (ErrText ''invalid character''))\<rparr>"

lemma length_format_nat: "n < 10 ^ Suc k \<Longrightarrow> length (format_nat n) \<le> Suc k"
proof (induction k arbitrary: n)
  case 0
  then show ?case by (subst format_nat.simps) simp
next
  case (Suc k)
  then have "n div 10 < 10 ^ Suc k" by (simp add: div_less_iff_less_mult)
  with Suc.IH [of "n div 10"] show ?case by (subst format_nat.simps) simp
qed

lemma length_FormatInt32: "length (FormatInt (sint (t :: int32))) \<le> 11"
proof -
  have "nat \<bar>sint t\<bar> < 10 ^ Suc 9"
    using sint_int32_bounds [of t] by simp
  from length_format_nat [OF this] show ?thesis
    by (auto simp: FormatInt_def abs_if split: if_splits)
qed

lemma json_request_lengths:
  assumes "length h \<le> 253"
  shows "length (json_Marshal [(''holder'', JStr h), (''ttlSeconds'', JInt (sint (n :: int32)))]) \<le> 4096"
    "length (json_Marshal [(''fencingToken'', JInt (sint (t :: int32))), (''holder'', JStr h),
       (''ttlSeconds'', JInt (sint n))]) \<le> 4096"
    "length (json_Marshal [(''fencingToken'', JInt (sint t)), (''holder'', JStr h)]) \<le> 4096"
proof -
  have names: "length (json_quote ''holder'') = 8" "length (json_quote ''ttlSeconds'') = 12"
    "length (json_quote ''fencingToken'') = 14"
    by code_simp+
  have h: "length (json_quote h) \<le> 1520"
    using length_json_quote [of h] assms by simp
  show "length (json_Marshal [(''holder'', JStr h), (''ttlSeconds'', JInt (sint n))]) \<le> 4096"
    "length (json_Marshal [(''fencingToken'', JInt (sint t)), (''holder'', JStr h),
       (''ttlSeconds'', JInt (sint n))]) \<le> 4096"
    "length (json_Marshal [(''fencingToken'', JInt (sint t)), (''holder'', JStr h)]) \<le> 4096"
    using length_FormatInt32 [of n] length_FormatInt32 [of t] h by (simp_all add: json_Marshal_def names)
qed

lemma json_request_decoded:
  assumes "ascii h"
  shows "json_Unmarshal (json_Marshal [(''holder'', JStr h), (''ttlSeconds'', JInt (sint (n :: int32)))]) =
      Some ([(''holder'', JStr h), (''ttlSeconds'', JInt (sint n))], [])"
    "json_Unmarshal (json_Marshal [(''fencingToken'', JInt (sint (t :: int32))), (''holder'', JStr h),
       (''ttlSeconds'', JInt (sint n))]) =
      Some ([(''fencingToken'', JInt (sint t)), (''holder'', JStr h), (''ttlSeconds'', JInt (sint n))], [])"
    "json_Unmarshal (json_Marshal [(''fencingToken'', JInt (sint t)), (''holder'', JStr h)]) =
      Some ([(''fencingToken'', JInt (sint t)), (''holder'', JStr h)], [])"
  using assms sint_int32_bounds [of n] sint_int32_bounds [of t]
  by (intro json_round_trip; simp add: json_ok_def ascii_def)+

lemma json_wire_ok: "wire_ok json_wire json_decoders"
proof -
  have bounds: "- 2147483648 \<le> sint n \<and> sint n < 2147483648" for n :: int32
    using sint_int32_bounds [of n] by simp
  show ?thesis
    unfolding wire_ok_def MaxHolderBytes_def maxLeaseBodyBytes_def
    by (auto simp: json_wire_def json_decoders_def json_Decode_def json_request_lengths
        json_request_decoded json_string_field_def json_int32_field_def bounds
        leaseResponseFrom_def client_resultFrom_def sendable_def)
qed

section \<open>Properties\<close>

text \<open>
  C23. Paths round trip.  For every namespace and name that is not empty, not a dot segment and not
  a single slash, whatever other bytes it holds, the path the client builds is routed by the server
  to the operation the client asked for, on exactly that key; and a namespace or name that is a
  single slash, which the router's wildcards refuse, reaches no operation at all.
\<close>

theorem lease_path_round_trip:
  assumes "ns \<notin> {'''', ''.'', ''..''}" and "name \<notin> {'''', ''.'', ''..''}"
    and "(op, act) \<in> {(''acquire'', DoAcquire), (''renew'', DoRenew), (''release'', DoRelease)}"
  shows "\<exists>segs. mux_segments (leasePath ns name op) = Some segs \<and>
    lease_route segs =
      (if ns = ''/'' \<or> name = ''/'' then None else Some (act, \<lparr>key_Namespace = ns, key_Name = name\<rparr>))"
proof -
  have "op \<in> {''acquire'', ''renew'', ''release''}"
    using assms(3) by auto
  from mux_segments_leasePath [OF assms(1,2) this] assms(3) show ?thesis by auto
qed

theorem lease_path_round_trip_witness:
  "\<exists>segs. mux_segments (leasePath ''a/b'' ''50% off?'' ''renew'') = Some segs \<and>
     lease_route segs = Some (DoRenew, \<lparr>key_Namespace = ''a/b'', key_Name = ''50% off?''\<rparr>)"
  using lease_path_round_trip [of "''a/b''" "''50% off?''" "''renew''" DoRenew] by simp

text \<open>
  C24. A call of the client is a call of the manager.  Over a transport that delivers, with well
  formed URLs and credentials that the server admits for the holder, each of the three client calls
  has exactly the result and the effect of the manager's operation, with the TTL cut down to whole
  seconds, provided the answer of the manager, if it is one, can be sent as JSON: its holder is ASCII
  and its times lie in years that have four digits.  A failure of the manager shows as an error
  status, a conflict on release as the client's own conflict error.
\<close>

theorem client_calls_are_manager_calls:
  fixes S :: "'s Store"
  assumes "wire_ok W D" and "client_ready W c auth key" and "admitted authn auth (key_Namespace key) h"
    and "dns1123_ok V" and "ValidateKey V key = None" and "key_Name key \<notin> {''.'', ''..''}"
    and "ValidateHolder h = None" and "ascii h"
    and "second \<le> ttl" and "ttl < 2147483648 * second" and "tok \<noteq> 0"
  shows "((\<forall>r. fst (Manager_Acquire V S clk key h (ttl - ttl mod second) s) = Inr r \<longrightarrow> sendable r) \<longrightarrow>
      client_Acquire W (served V S clk D authn (cl_baseURL c)) c (key_Namespace key) (key_Name key) h ttl s =
      (let (x, s') = Manager_Acquire V S clk key h (ttl - ttl mod second) s
       in (map_sum (\<lambda>e. ErrText ''server status'') client_resultFrom x, s'))) \<and>
    ((\<forall>r. fst (Manager_Renew V S (clk 0) key h tok (ttl - ttl mod second) s) = Inr r \<longrightarrow> sendable r) \<longrightarrow>
      client_Renew W (served V S clk D authn (cl_baseURL c)) c (key_Namespace key) (key_Name key) h tok ttl s =
      (let (x, s') = Manager_Renew V S (clk 0) key h tok (ttl - ttl mod second) s
       in (map_sum (\<lambda>e. ErrText ''server status'') client_resultFrom x, s'))) \<and>
    client_Release W (served V S clk D authn (cl_baseURL c)) c (key_Namespace key) (key_Name key) h tok s =
      (let (e, s') = Manager_Release V S (clk 0) key h tok s
       in (map_option (\<lambda>e. if errors_Is e ErrConflict then ClientErrConflict
                           else ErrText ''server status'') e, s'))"
  using client_acquire_served [OF assms(1-10)] client_renew_served [OF assms]
    client_release_served [OF assms(1-8)]
  by blast

text \<open>A client with a static key, and the server that knows the key.\<close>

definition sample_client :: "'w Client" where
  "sample_client = client_New ''https://berth.example'' [WithAPIKey ''secret'', WithTimeout (5 * second)]"

theorem client_calls_are_manager_calls_witness:
  "client_Acquire json_wire
     (served rfc1123 (MemStore_ops rev None) (\<lambda>n. 5) json_decoders (Some sample_authn) ''https://berth.example'')
     sample_client ''ns'' ''job'' ''team/a'' (1500 * millisecond) NewMemStore =
   (let (x, s') = Manager_Acquire rfc1123 (MemStore_ops rev None) (\<lambda>n. 5) key1 ''team/a'' second NewMemStore
    in (map_sum (\<lambda>e. ErrText ''server status'') client_resultFrom x, s'))"
proof -
  have base: "cl_baseURL (sample_client :: MemStore Client) = ''https://berth.example''"
    by (simp add: sample_client_def client_New_def TrimSuffix_def Let_def suffix_def)
  have ready: "client_ready json_wire (sample_client :: MemStore Client) ''Bearer secret'' key1"
    unfolding client_ready_def base
    by (simp add: json_wire_def HasPrefix_def bearer_def sample_client_def client_New_def Let_def)
  have adm: "admitted (Some sample_authn) ''Bearer secret'' (key_Namespace key1) ''team/a''"
    by code_simp
  have key: "ValidateKey rfc1123 key1 = None" "key_Name key1 \<notin> {''.'', ''..''}"
    "ValidateHolder ''team/a'' = None" "ascii ''team/a''"
    by code_simp+
  have "case fst (Manager_Acquire rfc1123 (MemStore_ops rev None) (\<lambda>n. 5) key1 ''team/a'' second NewMemStore) of
      Inl e \<Rightarrow> True | Inr r \<Rightarrow> sendable r"
    by code_simp
  then have "\<forall>r. fst (Manager_Acquire rfc1123 (MemStore_ops rev None) (\<lambda>n. 5) key1 ''team/a'' second NewMemStore) =
      Inr r \<longrightarrow> sendable r"
    by (auto split: sum.splits)
  then show ?thesis
    using client_calls_are_manager_calls [OF json_wire_ok ready adm rfc1123_ok key, of "1500 * millisecond" 1
        "MemStore_ops rev None" "\<lambda>n. 5" NewMemStore]
    by (simp add: base key1_def)
qed

text \<open>
  C25. The token source keeps the last good token.  Replay the uses of a source against the plain
  account \<open>token_account\<close>: the token changes only when the cache window has passed since the last
  successful read and the file then reads as something that is not blank; the new token is that
  content without surrounding white space; an unreadable or blank file leaves the token and the time
  of the last successful read as they were.  After every history of uses the answer of the source
  is the token of that account, it is never empty, and it is the trimmed content of the file at
  the construction or at one of the uses.
\<close>

theorem token_source_keeps_last_good:
  assumes "NewFileTokenSource path ttl file0 after0 = Inr s0"
    and "fts_Get now file after (fold fts_step evs s0) = (tok, s')"
  shows "\<exists>raw0. file0 = Inr raw0 \<and>
    tok = fst (token_account (if ttl \<le> 0 then second else ttl) (now, file, after)
      (fold (token_account (if ttl \<le> 0 then second else ttl)) evs (TrimSpace raw0, after0))) \<and>
    tok \<noteq> [] \<and>
    (\<exists>raw. Inr raw \<in> {file0, file} \<union> (fst \<circ> snd) ` set evs \<and> tok = TrimSpace raw)"
proof -
  let ?d = "if ttl \<le> 0 then second else ttl"
  obtain raw0 where raw0: "file0 = Inr raw0" "TrimSpace raw0 \<noteq> []"
    "s0 = \<lparr>fts_cacheTTL = ?d, fts_cached = TrimSpace raw0, fts_cachedAt = after0\<rparr>"
    using NewFileTokenSource_reads [OF assms(1)] by blast
  have "account_of s0 = (TrimSpace raw0, after0)" "fts_cacheTTL s0 = ?d"
    using raw0(3) by (simp_all add: account_of_def)
  then have "account_of (fold fts_step (evs @ [(now, file, after)]) s0) =
      fold (token_account ?d) (evs @ [(now, file, after)]) (TrimSpace raw0, after0)"
    using fts_steps_account [of "evs @ [(now, file, after)]" s0] by simp
  moreover have "fst (account_of (fold fts_step (evs @ [(now, file, after)]) s0)) = tok"
    using fts_Get_answer assms(2) by (simp add: account_of_def)
  ultimately have tok: "tok = fst (token_account ?d (now, file, after)
      (fold (token_account ?d) evs (TrimSpace raw0, after0)))"
    by simp
  with token_account_source [of raw0 ?d "evs @ [(now, file, after)]" after0] raw0 show ?thesis
    by (intro exI [of _ raw0]) auto
qed

theorem token_source_keeps_last_good_witness:
  "fst (fts_Get (5 * second) (Inr '' new-token '') (5 * second)
     (fold fts_step [(2 * second, Inl ErrNotFound, 2 * second), (3 * second, Inr '' '', 3 * second)]
       \<lparr>fts_cacheTTL = second, fts_cached = ''tok'', fts_cachedAt = 0\<rparr>)) = ''new-token''"
proof -
  let ?evs = "[(2 * second, Inl ErrNotFound, 2 * second), (3 * second, Inr '' '', 3 * second)]"
  let ?s0 = "\<lparr>fts_cacheTTL = second, fts_cached = ''tok'', fts_cachedAt = 0\<rparr>"
  have new: "NewFileTokenSource ''/token'' 0 (Inr ''tok '') 0 = Inr ?s0"
    by code_simp
  have account: "token_account second (5 * second, Inr '' new-token '', 5 * second)
      (fold (token_account second) ?evs (TrimSpace ''tok '', 0)) = (''new-token'', 5 * second)"
    by code_simp
  obtain tok s' where get: "fts_Get (5 * second) (Inr '' new-token '') (5 * second) (fold fts_step ?evs ?s0) = (tok, s')"
    by fastforce
  from token_source_keeps_last_good [OF new get] account get show ?thesis by auto
qed

end
