(* ===== verification/Acquire_Renewer.thy ===== *)
theory Acquire_Renewer
  imports Acquire_Enforce Berth_Client
begin

text \<open>
  The init container and the sidecar of the injected helper (\<open>internal/acquire/acquire.go\<close>,
  \<open>internal/acquire/renew.go\<close>).

  What the code reaches outside of itself is the record \<open>sidecar\<close>: the clock, the lease calls with
  the deadline of their context, \<open>ctx.Err()\<close> of such a context, the enforcer, the state files and
  the sleep between attempts, all acting on a state \<open>'w\<close> of the world.  The runtime state of the
  sidecar is the record \<open>Renewer\<close>; its log holds the fixed texts of the messages, newest first.
  The loop takes the events that its \<open>select\<close> receives from a list.
\<close>

section \<open>The environment of the helper\<close>

record 'w sidecar =
  sc_now :: "'w \<Rightarrow> time \<times> 'w"
  sc_ctxErr :: "time \<Rightarrow> 'w \<Rightarrow> bool \<times> 'w"
  sc_done :: "'w \<Rightarrow> bool \<times> 'w"
  sc_sleep :: "duration \<Rightarrow> 'w \<Rightarrow> bool \<times> 'w"
  sc_Acquire :: "time \<Rightarrow> string \<Rightarrow> string \<Rightarrow> string \<Rightarrow> duration \<Rightarrow> 'w \<Rightarrow> client_result outcome \<times> 'w"
  sc_Renew :: "time \<Rightarrow> string \<Rightarrow> string \<Rightarrow> string \<Rightarrow> int32 \<Rightarrow> duration \<Rightarrow> 'w \<Rightarrow> client_result outcome \<times> 'w"
  sc_Release :: "string \<Rightarrow> string \<Rightarrow> string \<Rightarrow> int32 \<Rightarrow> 'w \<Rightarrow> goerr option \<times> 'w"
  sc_Hold :: "'w \<Rightarrow> goerr option \<times> 'w"
  sc_Free :: "'w \<Rightarrow> goerr option \<times> 'w"
  sc_WriteAcquired :: "string \<Rightarrow> int32 \<Rightarrow> 'w \<Rightarrow> goerr option \<times> 'w"
  sc_ReadHolder :: "'w \<Rightarrow> string outcome \<times> 'w"
  sc_ReadToken :: "'w \<Rightarrow> int32 outcome \<times> 'w"
  sc_Install :: "'w \<Rightarrow> goerr option \<times> 'w"

section \<open>The init container (acquire.go)\<close>

text \<open>
  One round of the loop: a result to return, or the world in which to try again.  The context of
  the calls has no deadline of its own; \<open>deadline\<close> is whatever the caller gave it.
\<close>

definition hold_round ::
  "'w sidecar \<Rightarrow> Config \<Rightarrow> time \<Rightarrow> 'w \<Rightarrow> (client_result outcome \<times> 'w) + 'w"
where
  "hold_round E cfg deadline w =
     (let (x, w1) = sc_Acquire E deadline (cf_LeaseNamespace cfg) (cf_LeaseName cfg) (Config_Holder cfg) (cf_TTL cfg) w;
          again = (let (ok, w2) = sc_sleep E (retryInterval cfg) w1
                   in if \<not> ok then Inl (Inl ErrCtxDone, w2) else Inr w2)
      in case x of
           Inl err \<Rightarrow> again
         | Inr res \<Rightarrow>
             if cr_Acquired res then
               (let (e, w2) = sc_WriteAcquired E (Config_Holder cfg) (cr_FencingToken res) w1
                in case e of
                     Some err \<Rightarrow> Inl (Inl (ErrWrap ''persist lease state: '' err), w2)
                   | None \<Rightarrow>
                       (let (e', w3) = sc_Install E w2
                        in case e' of
                             Some err \<Rightarrow> Inl (Inl (ErrWrap ''install check binary: '' err), w3)
                           | None \<Rightarrow> Inl (Inr res, w3)))
             else again)"

text \<open>The loop may run for ever; then the value is \<open>None\<close>.\<close>

partial_function (option) acquire_Hold ::
  "'w sidecar \<Rightarrow> Config \<Rightarrow> time \<Rightarrow> 'w \<Rightarrow> (client_result outcome \<times> 'w) option"
where
  "acquire_Hold E cfg deadline w =
     (case hold_round E cfg deadline w of
        Inl r \<Rightarrow> Some r
      | Inr w' \<Rightarrow> acquire_Hold E cfg deadline w')"

section \<open>The sidecar (renew.go)\<close>

record Renewer =
  rw_holder :: string
  rw_token :: int32
  rw_held :: bool
  rw_expiresAt :: time
  rw_log :: "string list"

definition NewRenewer :: Renewer where
  "NewRenewer =
     \<lparr>rw_holder = [], rw_token = 0, rw_held = False, rw_expiresAt = zero_time, rw_log = []\<rparr>"

definition lognote :: "string \<Rightarrow> Renewer \<Rightarrow> Renewer" where
  "lognote msg r = r\<lparr>rw_log := msg # rw_log r\<rparr>"

definition lognote_err :: "string \<Rightarrow> goerr option \<Rightarrow> Renewer \<Rightarrow> Renewer" where
  "lognote_err msg e r = (if e \<noteq> None then lognote msg r else r)"

definition loadHandoff :: "'w sidecar \<Rightarrow> Config \<Rightarrow> Renewer \<Rightarrow> 'w \<Rightarrow> Renewer \<times> 'w" where
  "loadHandoff E cfg r w =
     (let r0 = r\<lparr>rw_holder := Config_Holder cfg, rw_token := 0, rw_held := False, rw_expiresAt := zero_time\<rparr>;
          (h, w1) = sc_ReadHolder E w;
          (t, w2) = sc_ReadToken E w1
      in case (h, t) of
           (Inr holder, Inr token) \<Rightarrow>
             if holder = rw_holder r0 \<and> sint token > 0
             then (r0\<lparr>rw_holder := holder, rw_token := token, rw_held := True\<rparr>, w2)
             else (lognote ''no matching lease handoff'' r0, w2)
         | _ \<Rightarrow> (lognote ''no matching lease handoff'' r0, w2))"

definition lose :: "'w sidecar \<Rightarrow> Renewer \<Rightarrow> 'w \<Rightarrow> Renewer \<times> 'w" where
  "lose E r w =
     (let (e, w') = sc_Hold E w
      in (lognote_err ''enforce on lease loss failed'' e (r\<lparr>rw_held := False\<rparr>), w'))"

text \<open>The deadline of a call: one heartbeat from now, or the confirmed lifetime if that ends first.\<close>

definition tickCtx :: "'w sidecar \<Rightarrow> Config \<Rightarrow> Renewer \<Rightarrow> 'w \<Rightarrow> time \<times> 'w" where
  "tickCtx E cfg r w =
     (let (now, w') = sc_now E w;
          deadline = time_Add now (cf_HeartbeatInterval cfg)
      in (if rw_held r \<and> \<not> time_IsZero (rw_expiresAt r) \<and> time_Before (rw_expiresAt r) deadline
          then rw_expiresAt r else deadline, w'))"

text \<open>
  The third case of the switch after a renewal, with the clock read in the order of the source:
  the context has ended, the new deadline has passed, or the old one has.
\<close>

definition renew_too_late ::
  "'w sidecar \<Rightarrow> Config \<Rightarrow> time \<Rightarrow> time \<Rightarrow> Renewer \<Rightarrow> 'w \<Rightarrow> bool \<times> 'w"
where
  "renew_too_late E cfg started deadline r w =
     (let (done, w1) = sc_ctxErr E deadline w
      in if done then (True, w1)
         else
           (let (t, w2) = sc_now E w1
            in if \<not> time_Before t (time_Add started (cf_TTL cfg)) then (True, w2)
               else if time_IsZero (rw_expiresAt r) then (False, w2)
               else (let (t', w3) = sc_now E w2 in (\<not> time_Before t' (rw_expiresAt r), w3))))"

definition renew_answer ::
  "'w sidecar \<Rightarrow> Config \<Rightarrow> time \<Rightarrow> time \<Rightarrow> client_result outcome \<Rightarrow> Renewer \<Rightarrow> 'w \<Rightarrow> Renewer \<times> 'w"
where
  "renew_answer E cfg started deadline x r w =
     (case x of
        Inl err \<Rightarrow>
          if errors_Is err ClientErrConflict then lose E (lognote ''renew conflict: lease lost'' r) w
          else
            (let (t, w1) = sc_now E w
             in if \<not> time_Before t (rw_expiresAt r)
                then lose E (lognote ''renew failing past lease expiry; enforcing'' r) w1
                else (lognote ''renew failed; still within lease TTL, will retry'' r, w1))
      | Inr res \<Rightarrow>
          if \<not> cr_Acquired res then lose E (lognote ''renew reports lease held by another: lease lost'' r) w
          else
            (let (late, w1) = renew_too_late E cfg started deadline r w
             in if late then lose E (lognote ''renew response arrived after its local deadline; enforcing'' r) w1
                else
                  (let (e, w2) = sc_Free E w1
                   in (lognote_err ''enforcer release failed'' e
                         (r\<lparr>rw_token := cr_FencingToken res,
                            rw_expiresAt := time_Add started (cf_TTL cfg)\<rparr>), w2))))"

definition tickHeld :: "'w sidecar \<Rightarrow> Config \<Rightarrow> Renewer \<Rightarrow> 'w \<Rightarrow> Renewer \<times> 'w" where
  "tickHeld E cfg r w =
     (let (started, w1) = sc_now E w
      in if \<not> time_IsZero (rw_expiresAt r) \<and> \<not> time_Before started (rw_expiresAt r) then lose E r w1
         else
           (let (deadline, w2) = tickCtx E cfg r w1;
                (x, w3) = sc_Renew E deadline (cf_LeaseNamespace cfg) (cf_LeaseName cfg)
                            (rw_holder r) (rw_token r) (cf_TTL cfg) w2
            in renew_answer E cfg started deadline x r w3))"

definition acquire_too_late :: "'w sidecar \<Rightarrow> Config \<Rightarrow> time \<Rightarrow> time \<Rightarrow> 'w \<Rightarrow> bool \<times> 'w" where
  "acquire_too_late E cfg started deadline w =
     (let (done, w1) = sc_ctxErr E deadline w
      in if done then (True, w1)
         else (let (t, w2) = sc_now E w1 in (\<not> time_Before t (time_Add started (cf_TTL cfg)), w2)))"

definition acquire_answer ::
  "'w sidecar \<Rightarrow> Config \<Rightarrow> time \<Rightarrow> time \<Rightarrow> client_result outcome \<Rightarrow> Renewer \<Rightarrow> 'w \<Rightarrow> Renewer \<times> 'w"
where
  "acquire_answer E cfg started deadline x r w =
     (case x of
        Inl err \<Rightarrow> (lognote ''reacquire failed'' r, w)
      | Inr res \<Rightarrow>
          if \<not> cr_Acquired res then (lognote ''waiting to reacquire'' r, w)
          else
            (let (late, w1) = acquire_too_late E cfg started deadline w
             in if late then (lognote ''acquire response arrived after its local deadline; remaining gated'' r, w1)
                else
                  (let r1 = r\<lparr>rw_token := cr_FencingToken res,
                              rw_expiresAt := time_Add started (cf_TTL cfg), rw_held := True\<rparr>;
                       (e1, w2) = sc_WriteAcquired E (rw_holder r1) (rw_token r1) w1;
                       (e2, w3) = sc_Free E w2
                   in (lognote_err ''enforcer release failed'' e2
                         (lognote_err ''persist reacquired state failed'' e1 r1), w3))))"

definition tickReacquire :: "'w sidecar \<Rightarrow> Config \<Rightarrow> Renewer \<Rightarrow> 'w \<Rightarrow> Renewer \<times> 'w" where
  "tickReacquire E cfg r w =
     (let (e, w1) = sc_Hold E w;
          r1 = lognote_err ''re-enforce while gated failed'' e r;
          (deadline, w2) = tickCtx E cfg r1 w1;
          (started, w3) = sc_now E w2;
          (x, w4) = sc_Acquire E deadline (cf_LeaseNamespace cfg) (cf_LeaseName cfg)
                      (rw_holder r1) (cf_TTL cfg) w3
      in acquire_answer E cfg started deadline x r1 w4)"

definition shutdown :: "'w sidecar \<Rightarrow> Config \<Rightarrow> Renewer \<Rightarrow> 'w \<Rightarrow> Renewer \<times> 'w" where
  "shutdown E cfg r w =
     (if cf_ReleaseOnShutdown cfg \<noteq> Some True \<or> \<not> rw_held r
      then (lognote ''sidecar shutting down without release'' r, w)
      else
        (let (e, w') = sc_Release E (cf_LeaseNamespace cfg) (cf_LeaseName cfg) (rw_holder r) (rw_token r) w
         in (lognote (case e of
                     None \<Rightarrow> ''released lease on shutdown''
                   | Some err \<Rightarrow>
                       if errors_Is err ClientErrConflict
                       then ''release on shutdown skipped: lease already held by another (conflict)''
                       else ''best-effort release on shutdown failed'') r, w')))"

text \<open>What the \<open>select\<close> of the loop received; the expiry timer is armed only while a deadline is known.\<close>

datatype run_event = EvDone | EvExpiry | EvTick

definition expiry_armed :: "Renewer \<Rightarrow> bool" where
  "expiry_armed r \<longleftrightarrow> rw_held r \<and> \<not> time_IsZero (rw_expiresAt r)"

definition run_step :: "'w sidecar \<Rightarrow> Config \<Rightarrow> run_event \<Rightarrow> Renewer \<times> 'w \<Rightarrow> Renewer \<times> 'w" where
  "run_step E cfg ev s =
     (let (r, w) = s in
      case ev of
        EvDone \<Rightarrow> shutdown E cfg r w
      | EvExpiry \<Rightarrow>
          if expiry_armed r then lose E (lognote ''local lease deadline reached; enforcing'' r) w else (r, w)
      | EvTick \<Rightarrow> if rw_held r then tickHeld E cfg r w else tickReacquire E cfg r w)"

fun run_loop :: "'w sidecar \<Rightarrow> Config \<Rightarrow> run_event list \<Rightarrow> Renewer \<times> 'w \<Rightarrow> Renewer \<times> 'w" where
  "run_loop E cfg [] s = s"
| "run_loop E cfg (EvDone # evs) s = run_step E cfg EvDone s"
| "run_loop E cfg (ev # evs) s = run_loop E cfg evs (run_step E cfg ev s)"

definition Renewer_Run ::
  "'w sidecar \<Rightarrow> Config \<Rightarrow> run_event list \<Rightarrow> Renewer \<Rightarrow> 'w \<Rightarrow> goerr option \<times> Renewer \<times> 'w"
where
  "Renewer_Run E cfg evs r w =
     (let (r0, w0) = loadHandoff E cfg r w;
          (e, w1) = sc_Hold E w0
      in case e of
           Some err \<Rightarrow> (Some (ErrWrap ''enforce before confirming lease handoff: '' err), r0, w1)
         | None \<Rightarrow>
             (let (done, w2) = (if rw_held r0 then sc_done E w1 else (True, w1));
                  (r1, w3) = (if rw_held r0 \<and> \<not> done then tickHeld E cfg r0 w2 else (r0, w2))
              in (None, run_loop E cfg evs (r1, w3))))"

section \<open>The init container returns when a round does\<close>

fun hold_rounds ::
  "'w sidecar \<Rightarrow> Config \<Rightarrow> time \<Rightarrow> nat \<Rightarrow> 'w \<Rightarrow> (client_result outcome \<times> 'w) + 'w"
where
  "hold_rounds E cfg deadline 0 w = Inr w"
| "hold_rounds E cfg deadline (Suc n) w =
     (case hold_round E cfg deadline w of
        Inl r \<Rightarrow> Inl r
      | Inr w' \<Rightarrow> hold_rounds E cfg deadline n w')"

lemma acquire_Hold_rounds:
  "acquire_Hold E cfg deadline w = Some r \<Longrightarrow> \<exists>n. hold_rounds E cfg deadline n w = Inl r"
proof (induction rule: acquire_Hold.raw_induct [rotated 1, consumes 1, case_names step])
  case (step hold E cfg deadline w r)
  show ?case
  proof (cases "hold_round E cfg deadline w")
    case (Inl q)
    with step(2) have "hold_rounds E cfg deadline (Suc 0) w = Inl r" by simp
    then show ?thesis by blast
  next
    case (Inr w')
    with step(2) have "hold E cfg deadline w' = Some r" by simp
    then obtain n where "hold_rounds E cfg deadline n w' = Inl r"
      using step(1) by blast
    with Inr have "hold_rounds E cfg deadline (Suc n) w = Inl r" by simp
    then show ?thesis by blast
  qed
qed

lemma rounds_acquire_Hold:
  "hold_rounds E cfg deadline n w = Inl r \<Longrightarrow> acquire_Hold E cfg deadline w = Some r"
proof (induction n arbitrary: w)
  case (Suc n)
  then show ?case
    by (subst acquire_Hold.simps) (auto split: sum.splits)
qed simp

lemma hold_round_granted:
  "hold_round E cfg deadline w = Inl (Inr res, w') \<Longrightarrow> cr_Acquired res"
  by (auto simp: hold_round_def Let_def split: prod.splits sum.splits option.splits if_splits)

lemma hold_rounds_granted:
  "hold_rounds E cfg deadline n w = Inl (Inr res, w') \<Longrightarrow> cr_Acquired res"
  by (induction n arbitrary: w) (auto split: sum.splits dest: hold_round_granted)

section \<open>The gate\<close>

definition enforce_failed :: "string list \<Rightarrow> bool" where
  "enforce_failed ls \<longleftrightarrow>
     ''enforce on lease loss failed'' \<in> set ls \<or> ''re-enforce while gated failed'' \<in> set ls"

definition new_log :: "Renewer \<Rightarrow> Renewer \<Rightarrow> string list" where
  "new_log r r' = take (length (rw_log r') - length (rw_log r)) (rw_log r')"

definition confirmed :: "Renewer \<Rightarrow> bool" where
  "confirmed r \<longleftrightarrow> rw_held r \<and> \<not> time_IsZero (rw_expiresAt r)"

lemma enforce_failed_append [simp]:
  "enforce_failed (ls @ ms) \<longleftrightarrow> enforce_failed ls \<or> enforce_failed ms"
  by (auto simp: enforce_failed_def)

lemma new_log_append: "rw_log r' = ls @ rw_log r \<Longrightarrow> new_log r r' = ls"
  by (simp add: new_log_def)

lemma lognote_sel [simp]:
  "rw_held (lognote m r) = rw_held r" "rw_expiresAt (lognote m r) = rw_expiresAt r"
  "rw_holder (lognote m r) = rw_holder r" "rw_token (lognote m r) = rw_token r"
  "rw_log (lognote m r) = m # rw_log r"
  by (simp_all add: lognote_def)

lemma lognote_err_sel [simp]:
  "rw_held (lognote_err m e r) = rw_held r" "rw_expiresAt (lognote_err m e r) = rw_expiresAt r"
  "rw_holder (lognote_err m e r) = rw_holder r" "rw_token (lognote_err m e r) = rw_token r"
  "rw_log (lognote_err m e r) = (if e = None then [] else [m]) @ rw_log r"
  by (simp_all add: lognote_err_def)

lemma confirmed_note [simp]:
  "confirmed (lognote m r) = confirmed r" "confirmed (lognote_err m e r) = confirmed r"
  by (simp_all add: confirmed_def)

lemma confirmed_time:
  "0 \<le> started \<Longrightarrow> 0 < ttl \<Longrightarrow> \<not> time_IsZero (time_Add started ttl)"
  by (simp add: time_IsZero_def time_Add_def zero_time_def)

text \<open>
  What the sidecar relies on: an enforcer that keeps its contract, calls to the lease server and
  reads that leave the gate alone, and a clock after 1970.
\<close>

locale sidecar_host =
  enforcer "sc_Hold E" "sc_Free E" closed ok for E :: "'w sidecar" and closed ok +
  assumes now_keeps: "ok w \<Longrightarrow> ok (snd (sc_now E w)) \<and> closed (snd (sc_now E w)) = closed w \<and> 0 \<le> fst (sc_now E w)"
    and ctxErr_keeps: "ok w \<Longrightarrow> ok (snd (sc_ctxErr E d w)) \<and> closed (snd (sc_ctxErr E d w)) = closed w"
    and done_keeps: "ok w \<Longrightarrow> ok (snd (sc_done E w)) \<and> closed (snd (sc_done E w)) = closed w"
    and Acquire_keeps: "ok w \<Longrightarrow>
      ok (snd (sc_Acquire E d ns nm h ttl w)) \<and> closed (snd (sc_Acquire E d ns nm h ttl w)) = closed w"
    and Renew_keeps: "ok w \<Longrightarrow>
      ok (snd (sc_Renew E d ns nm h t ttl w)) \<and> closed (snd (sc_Renew E d ns nm h t ttl w)) = closed w"
    and Release_keeps: "ok w \<Longrightarrow>
      ok (snd (sc_Release E ns nm h t w)) \<and> closed (snd (sc_Release E ns nm h t w)) = closed w"
    and ReadHolder_keeps: "ok w \<Longrightarrow> ok (snd (sc_ReadHolder E w)) \<and> closed (snd (sc_ReadHolder E w)) = closed w"
    and ReadToken_keeps: "ok w \<Longrightarrow> ok (snd (sc_ReadToken E w)) \<and> closed (snd (sc_ReadToken E w)) = closed w"
    and Write_keeps: "ok w \<Longrightarrow> ok (snd (sc_WriteAcquired E h t w))"
begin

definition gate_inv :: "Renewer \<Rightarrow> 'w \<Rightarrow> bool" where
  "gate_inv r w \<longleftrightarrow> ok w \<and> (rw_held r \<longrightarrow> closed w \<or> confirmed r)"

definition settled :: "Renewer \<Rightarrow> Renewer \<Rightarrow> 'w \<Rightarrow> bool" where
  "settled r r' w' \<longleftrightarrow> gate_inv r' w' \<and>
     (\<exists>ls. rw_log r' = ls @ rw_log r \<and> (enforce_failed ls \<or> closed w' \<or> confirmed r'))"

text \<open>The keep laws on the results of the calls.\<close>

lemma nowD: "sc_now E w = (t, w') \<Longrightarrow> ok w \<Longrightarrow> ok w' \<and> closed w' = closed w \<and> 0 \<le> t"
  using now_keeps [of w] by simp

lemma ctxErrD: "sc_ctxErr E d w = (b, w') \<Longrightarrow> ok w \<Longrightarrow> ok w' \<and> closed w' = closed w"
  using ctxErr_keeps [of w d] by simp

lemma AcquireD: "sc_Acquire E d ns nm h ttl w = (x, w') \<Longrightarrow> ok w \<Longrightarrow> ok w' \<and> closed w' = closed w"
  using Acquire_keeps [of w d ns nm h ttl] by simp

lemma RenewD: "sc_Renew E d ns nm h t ttl w = (x, w') \<Longrightarrow> ok w \<Longrightarrow> ok w' \<and> closed w' = closed w"
  using Renew_keeps [of w d ns nm h t ttl] by simp

lemma HoldD:
  "sc_Hold E w = (e, w') \<Longrightarrow> ok w \<Longrightarrow> ok w' \<and> (e = None \<longrightarrow> closed w') \<and> (closed w \<longrightarrow> closed w')"
  using hold_ok [of w] hold_closes [of w] hold_keeps [of w] by simp

lemma FreeD: "sc_Free E w = (e, w') \<Longrightarrow> ok w \<Longrightarrow> ok w'"
  using release_ok [of w] by simp

lemma WriteD: "sc_WriteAcquired E h t w = (e, w') \<Longrightarrow> ok w \<Longrightarrow> ok w'"
  using Write_keeps [of w h t] by simp

lemma tickCtxD: "tickCtx E cfg r w = (d, w') \<Longrightarrow> ok w \<Longrightarrow> ok w' \<and> closed w' = closed w"
  by (auto simp: tickCtx_def Let_def dest: nowD split: prod.splits)

lemma renew_too_lateD:
  assumes "renew_too_late E cfg started deadline r w = (b, w')" "ok w"
  shows "ok w' \<and> closed w' = closed w"
proof -
  obtain b1 w1 where c: "sc_ctxErr E deadline w = (b1, w1)" by fastforce
  obtain t w2 where n: "sc_now E w1 = (t, w2)" by fastforce
  obtain t' w3 where n': "sc_now E w2 = (t', w3)" by fastforce
  have "w' \<in> {w1, w2, w3}"
    using assms(1) by (auto simp: renew_too_late_def c n n' split: if_splits)
  with ctxErrD [OF c assms(2)] nowD [OF n] nowD [OF n'] show ?thesis by auto
qed

lemma acquire_too_lateD:
  assumes "acquire_too_late E cfg started deadline w = (b, w')" "ok w"
  shows "ok w' \<and> closed w' = closed w"
proof -
  obtain b1 w1 where c: "sc_ctxErr E deadline w = (b1, w1)" by fastforce
  obtain t w2 where n: "sc_now E w1 = (t, w2)" by fastforce
  have "w' \<in> {w1, w2}"
    using assms(1) by (auto simp: acquire_too_late_def c n split: if_splits)
  with ctxErrD [OF c assms(2)] nowD [OF n] show ?thesis by auto
qed

lemma settled_note: "settled (lognote m r) r' w' \<Longrightarrow> settled r r' w'"
  unfolding settled_def by (auto intro: exI [of _ "_ @ [m]"])

lemma settled_note_err: "settled (lognote_err m e r) r' w' \<Longrightarrow> settled r r' w'"
  by (cases e) (auto simp: lognote_err_def dest: settled_note)

lemma settledI:
  "ok w' \<Longrightarrow> rw_log r' = ls @ rw_log r \<Longrightarrow> closed w' \<or> confirmed r' \<Longrightarrow> settled r r' w'"
  by (auto simp: settled_def gate_inv_def)

lemma lose_settled:
  assumes "lose E r w = (r', w')" "ok w"
  shows "settled r r' w'"
proof -
  obtain e where h: "sc_Hold E w = (e, w')"
    using assms(1) by (auto simp: lose_def split: prod.splits)
  have r': "r' = lognote_err ''enforce on lease loss failed'' e (r\<lparr>rw_held := False\<rparr>)"
    using assms(1) by (simp add: lose_def h)
  show ?thesis
    using HoldD [OF h assms(2)]
    by (cases e) (simp_all add: r' settled_def gate_inv_def enforce_failed_def)
qed

lemma renew_answer_settled:
  assumes a: "renew_answer E cfg started deadline x r w = (r', w')"
    and inv: "gate_inv r w" and held: "rw_held r" and t: "0 \<le> started" "0 < cf_TTL cfg"
  shows "settled r r' w'"
proof -
  have ok: "ok w" and g: "closed w \<or> confirmed r" using inv held by (auto simp: gate_inv_def)
  show ?thesis
  proof (cases x)
    case (Inl err)
    obtain now w1 where n: "sc_now E w = (now, w1)" by fastforce
    show ?thesis
      using a ok g nowD [OF n ok]
      by (auto simp: renew_answer_def Inl n split: if_splits
            intro: settled_note lose_settled settledI [of _ _ "[_]"])
  next
    case (Inr res)
    obtain late w1 where l: "renew_too_late E cfg started deadline r w = (late, w1)" by fastforce
    obtain e w2 where f: "sc_Free E w1 = (e, w2)" by fastforce
    have w1: "ok w1" "closed w1 = closed w" using renew_too_lateD [OF l ok] by auto
    show ?thesis
      using a ok w1 FreeD [OF f w1(1)] held confirmed_time [OF t]
      by (auto simp: renew_answer_def Inr l f confirmed_def split: if_splits
            intro: settled_note lose_settled settledI [of _ _ "if e = None then [] else [_]"])
  qed
qed

lemma tickHeld_settled:
  assumes a: "tickHeld E cfg r w = (r', w')"
    and inv: "gate_inv r w" and held: "rw_held r" and t: "0 < cf_TTL cfg"
  shows "settled r r' w'"
proof -
  obtain s w1 where n: "sc_now E w = (s, w1)" by fastforce
  obtain d w2 where c: "tickCtx E cfg r w1 = (d, w2)" by fastforce
  obtain x w3 where k: "sc_Renew E d (cf_LeaseNamespace cfg) (cf_LeaseName cfg)
      (rw_holder r) (rw_token r) (cf_TTL cfg) w2 = (x, w3)" by fastforce
  have w1: "ok w1" "closed w1 = closed w" "0 \<le> s" using nowD [OF n] inv by (auto simp: gate_inv_def)
  have w3: "ok w3" "closed w3 = closed w"
    using tickCtxD [OF c] RenewD [OF k] w1 by auto
  then have inv3: "gate_inv r w3" using inv by (auto simp: gate_inv_def)
  show ?thesis
    using a lose_settled [OF _ w1(1)] renew_answer_settled [OF _ inv3 held w1(3) t]
    by (auto simp: tickHeld_def n c k split: if_splits)
qed

lemma acquire_answer_settled:
  assumes a: "acquire_answer E cfg started deadline x r w = (r', w')"
    and ok: "ok w" and t: "0 \<le> started" "0 < cf_TTL cfg"
  shows "(\<exists>m. r' = lognote m r \<and> ok w' \<and> closed w' = closed w) \<or>
    (\<exists>ls. rw_log r' = ls @ rw_log r \<and> ok w' \<and> confirmed r')"
proof (cases x)
  case (Inl err)
  with a ok show ?thesis by (auto simp: acquire_answer_def)
next
  case (Inr res)
  obtain late w1 where l: "acquire_too_late E cfg started deadline w = (late, w1)" by fastforce
  let ?r1 = "r\<lparr>rw_token := cr_FencingToken res, rw_expiresAt := time_Add started (cf_TTL cfg), rw_held := True\<rparr>"
  obtain e1 w2 where wr: "sc_WriteAcquired E (rw_holder ?r1) (rw_token ?r1) w1 = (e1, w2)" by fastforce
  obtain e2 w3 where f: "sc_Free E w2 = (e2, w3)" by fastforce
  have w1: "ok w1" "closed w1 = closed w" using acquire_too_lateD [OF l ok] by auto
  have w3: "ok w3" using WriteD [OF wr w1(1)] FreeD [OF f] by simp
  show ?thesis
    using a ok w1 w3 confirmed_time [OF t] wr
    by (cases "cr_Acquired res"; cases late; simp add: acquire_answer_def Inr l f Let_def confirmed_def) auto
qed

lemma tickReacquire_settled:
  assumes a: "tickReacquire E cfg r w = (r', w')"
    and ok: "ok w" and held: "\<not> rw_held r" and t: "0 < cf_TTL cfg"
  shows "settled r r' w'"
proof -
  obtain e w1 where h: "sc_Hold E w = (e, w1)" by fastforce
  let ?r1 = "lognote_err ''re-enforce while gated failed'' e r"
  obtain d w2 where c: "tickCtx E cfg ?r1 w1 = (d, w2)" by fastforce
  obtain s w3 where n: "sc_now E w2 = (s, w3)" by fastforce
  obtain x w4 where k: "sc_Acquire E d (cf_LeaseNamespace cfg) (cf_LeaseName cfg)
      (rw_holder r) (cf_TTL cfg) w3 = (x, w4)" by fastforce
  have w1: "ok w1" "e = None \<Longrightarrow> closed w1" using HoldD [OF h ok] by auto
  have w4: "ok w4" "closed w4 = closed w1" "0 \<le> s"
    using tickCtxD [OF c w1(1)] nowD [OF n] AcquireD [OF k] by auto
  have "acquire_answer E cfg s d x ?r1 w4 = (r', w')"
    using a by (simp add: tickReacquire_def h c n k Let_def)
  from acquire_answer_settled [OF this w4(1) w4(3) t] show ?thesis
  proof (elim disjE exE conjE)
    fix m assume "r' = lognote m ?r1" "ok w'" "closed w' = closed w4"
    then show ?thesis
      using w1 w4 held by (cases e) (auto simp: settled_def gate_inv_def enforce_failed_def)
  next
    fix ls assume "rw_log r' = ls @ rw_log ?r1" "ok w'" "confirmed r'"
    then show ?thesis by (intro settledI [of _ _ "ls @ (if e = None then [] else [_])"]) auto
  qed
qed

lemma run_step_settled:
  assumes "run_step E cfg ev (r, w) = (r', w')" and inv: "gate_inv r w" and t: "0 < cf_TTL cfg"
    and "ev \<noteq> EvDone" and "ev = EvExpiry \<longrightarrow> expiry_armed r"
  shows "settled r r' w'"
proof (cases ev)
  case EvTick
  then show ?thesis
    using assms(1) tickHeld_settled [OF _ inv _ t] tickReacquire_settled [OF _ _ _ t] inv
    by (auto simp: run_step_def gate_inv_def split: if_splits)
next
  case EvExpiry
  then show ?thesis
    using assms(1,5) inv by (auto simp: run_step_def gate_inv_def intro: settled_note lose_settled)
qed (use assms(4) in simp)

lemma run_step_inv:
  assumes "run_step E cfg ev (r, w) = (r', w')" and "gate_inv r w" and "0 < cf_TTL cfg" and "ev \<noteq> EvDone"
  shows "gate_inv r' w'"
proof (cases "ev = EvExpiry \<and> \<not> expiry_armed r")
  case True
  with assms(1,2) show ?thesis by (simp add: run_step_def)
next
  case False
  with run_step_settled [OF assms] show ?thesis by (simp add: settled_def)
qed

lemma run_loop_inv:
  "run_loop E cfg evs (r, w) = (r', w') \<Longrightarrow> gate_inv r w \<Longrightarrow> 0 < cf_TTL cfg \<Longrightarrow> EvDone \<notin> set evs \<Longrightarrow>
   gate_inv r' w'"
proof (induction evs arbitrary: r w)
  case (Cons ev evs)
  obtain r1 w1 where s: "run_step E cfg ev (r, w) = (r1, w1)" by fastforce
  have ev: "ev \<noteq> EvDone" using Cons.prems(4) by auto
  then have "run_loop E cfg evs (r1, w1) = (r', w')"
    using Cons.prems(1) s by (cases ev) auto
  with Cons.IH run_step_inv [OF s Cons.prems(2,3) ev] Cons.prems(3,4) show ?case by auto
qed simp

lemma loadHandoff_ok: "loadHandoff E cfg r w = (r', w') \<Longrightarrow> ok w \<Longrightarrow> ok w'"
  using ReadHolder_keeps [of w] ReadToken_keeps [of "snd (sc_ReadHolder E w)"]
  by (auto simp: loadHandoff_def Let_def split: prod.splits sum.splits if_splits)

text \<open>The run starts with the gate closed, or it does not start.\<close>

lemma Run_inv:
  assumes "Renewer_Run E cfg evs r w = (None, r', w')" and "ok w" and t: "0 < cf_TTL cfg" and "EvDone \<notin> set evs"
  shows "gate_inv r' w'"
proof -
  obtain r0 w0 where l: "loadHandoff E cfg r w = (r0, w0)" by fastforce
  obtain e w1 where h: "sc_Hold E w0 = (e, w1)" by fastforce
  obtain b w2 where d: "(if rw_held r0 then sc_done E w1 else (True, w1)) = (b, w2)" by fastforce
  obtain r1 w3 where k: "(if rw_held r0 \<and> \<not> b then tickHeld E cfg r0 w2 else (r0, w2)) = (r1, w3)" by fastforce
  have e: "e = None" and loop: "run_loop E cfg evs (r1, w3) = (r', w')"
    using assms(1) by (cases e; simp add: Renewer_Run_def l h d k)+
  have "ok w1 \<and> closed w1" using HoldD [OF h loadHandoff_ok [OF l assms(2)]] e by simp
  then have w2: "ok w2 \<and> closed w2" using d done_keeps [of w1] by (auto split: if_splits)
  then have "gate_inv r0 w2" by (simp add: gate_inv_def)
  then have "gate_inv r1 w3"
    using k tickHeld_settled [of cfg r0 w2 r1 w3] t by (auto simp: settled_def split: if_splits)
  from run_loop_inv [OF loop this t assms(4)] show ?thesis .
qed

end

section \<open>The sidecar in a pod\<close>

text \<open>
  The environment made of the parts modelled in the other theories: the enforcer that the
  configuration selects, the files of the shared volume, and a network, which is the clock (in
  nanoseconds since 1970), the contexts and the lease client.
\<close>

record 'n network =
  nt_clock :: "'n \<Rightarrow> nat \<times> 'n"
  nt_ctxErr :: "time \<Rightarrow> 'n \<Rightarrow> bool \<times> 'n"
  nt_done :: "'n \<Rightarrow> bool \<times> 'n"
  nt_sleep :: "duration \<Rightarrow> 'n \<Rightarrow> bool \<times> 'n"
  nt_Acquire :: "time \<Rightarrow> string \<Rightarrow> string \<Rightarrow> string \<Rightarrow> duration \<Rightarrow> 'n \<Rightarrow> client_result outcome \<times> 'n"
  nt_Renew :: "time \<Rightarrow> string \<Rightarrow> string \<Rightarrow> string \<Rightarrow> int32 \<Rightarrow> duration \<Rightarrow> 'n \<Rightarrow> client_result outcome \<times> 'n"
  nt_Release :: "string \<Rightarrow> string \<Rightarrow> string \<Rightarrow> int32 \<Rightarrow> 'n \<Rightarrow> goerr option \<times> 'n"

definition on_net :: "('n \<Rightarrow> 'a \<times> 'n) \<Rightarrow> pod_world \<times> 'n \<Rightarrow> 'a \<times> pod_world \<times> 'n" where
  "on_net f w = (let (x, n) = f (snd w) in (x, fst w, n))"

definition on_pod :: "(pod_world \<Rightarrow> 'a \<times> pod_world) \<Rightarrow> pod_world \<times> 'n \<Rightarrow> 'a \<times> pod_world \<times> 'n" where
  "on_pod f w = (let (x, p) = f (fst w) in (x, p, snd w))"

definition on_files :: "(fsys \<Rightarrow> 'a \<times> fsys) \<Rightarrow> pod_world \<Rightarrow> 'a \<times> pod_world" where
  "on_files f p = (let (x, fs) = f (pw_fs p) in (x, p\<lparr>pw_fs := fs\<rparr>))"

definition pod_sidecar :: "'n network \<Rightarrow> Config \<Rightarrow> string outcome \<Rightarrow> (pod_world \<times> 'n) sidecar" where
  "pod_sidecar N cfg self =
     (let dir = cf_StateDir cfg in
      \<lparr>sc_now = on_net (\<lambda>n. let (t, n') = nt_clock N n in (int t, n')),
       sc_ctxErr = (\<lambda>d. on_net (nt_ctxErr N d)),
       sc_done = on_net (nt_done N),
       sc_sleep = (\<lambda>d. on_net (nt_sleep N d)),
       sc_Acquire = (\<lambda>d ns nm h ttl. on_net (nt_Acquire N d ns nm h ttl)),
       sc_Renew = (\<lambda>d ns nm h t ttl. on_net (nt_Renew N d ns nm h t ttl)),
       sc_Release = (\<lambda>ns nm h t. on_net (nt_Release N ns nm h t)),
       sc_Hold = on_pod (en_Hold (newEnforcer cfg dir)),
       sc_Free = on_pod (en_Release (newEnforcer cfg dir)),
       sc_WriteAcquired = (\<lambda>h t. on_pod (on_files (WriteAcquired dir h t))),
       sc_ReadHolder = on_pod (on_files (ReadHolder dir)),
       sc_ReadToken = on_pod (on_files (ReadToken dir)),
       sc_Install = on_pod (on_files (InstallCheckBinary dir self))\<rparr>)"

lemma pod_sidecar_sel [simp]:
  "sc_now (pod_sidecar N cfg self) = on_net (\<lambda>n. let (t, n') = nt_clock N n in (int t, n'))"
  "sc_ctxErr (pod_sidecar N cfg self) d = on_net (nt_ctxErr N d)"
  "sc_done (pod_sidecar N cfg self) = on_net (nt_done N)"
  "sc_sleep (pod_sidecar N cfg self) dur = on_net (nt_sleep N dur)"
  "sc_Acquire (pod_sidecar N cfg self) d ns nm h ttl = on_net (nt_Acquire N d ns nm h ttl)"
  "sc_Renew (pod_sidecar N cfg self) d ns nm h t ttl = on_net (nt_Renew N d ns nm h t ttl)"
  "sc_Release (pod_sidecar N cfg self) ns nm h t = on_net (nt_Release N ns nm h t)"
  "sc_Hold (pod_sidecar N cfg self) = on_pod (en_Hold (newEnforcer cfg (cf_StateDir cfg)))"
  "sc_Free (pod_sidecar N cfg self) = on_pod (en_Release (newEnforcer cfg (cf_StateDir cfg)))"
  "sc_WriteAcquired (pod_sidecar N cfg self) h t = on_pod (on_files (WriteAcquired (cf_StateDir cfg) h t))"
  "sc_ReadHolder (pod_sidecar N cfg self) = on_pod (on_files (ReadHolder (cf_StateDir cfg)))"
  "sc_ReadToken (pod_sidecar N cfg self) = on_pod (on_files (ReadToken (cf_StateDir cfg)))"
  "sc_Install (pod_sidecar N cfg self) = on_pod (on_files (InstallCheckBinary (cf_StateDir cfg) self))"
  by (simp_all add: pod_sidecar_def Let_def)

definition pod_gated :: "Config \<Rightarrow> pod_world \<times> 'n \<Rightarrow> bool" where
  "pod_gated cfg w \<longleftrightarrow> gated (cf_StateDir cfg) (fst w)"

definition pod_ok :: "pod_world \<times> 'n \<Rightarrow> bool" where
  "pod_ok w \<longleftrightarrow> world_ok (fst w)"

lemma on_net_keeps [simp]:
  "pod_gated cfg (snd (on_net f w)) = pod_gated cfg w" "pod_ok (snd (on_net f w)) = pod_ok w"
  "fst (snd (on_net f w)) = fst w" "fst (on_net f w) = fst (f (snd w))"
  by (simp_all add: on_net_def pod_gated_def pod_ok_def split: prod.split)

lemma on_pod_sel [simp]:
  "fst (on_pod f w) = fst (f (fst w))" "fst (snd (on_pod f w)) = snd (f (fst w))"
  "snd (snd (on_pod f w)) = snd w"
  by (simp_all add: on_pod_def split: prod.split)

lemma on_files_sel [simp]:
  "fst (on_files f p) = fst (f (pw_fs p))" "pw_fs (snd (on_files f p)) = snd (f (pw_fs p))"
  by (simp_all add: on_files_def split: prod.split)

lemma on_files_ok:
  "(\<And>fs e fs'. f fs = (e, fs') \<Longrightarrow> fs_ok fs \<longrightarrow> fs_ok fs') \<Longrightarrow> pod_ok w \<Longrightarrow> pod_ok (snd (on_pod (on_files f) w))"
  by (metis on_files_sel(2) on_pod_sel(2) pod_ok_def prod.collapse world_ok_def)

lemma on_files_gated:
  "(\<And>fs e fs'. f fs = (e, fs') \<Longrightarrow> fs_lookup fs' = fs_lookup fs) \<Longrightarrow>
   pod_gated cfg (snd (on_pod (on_files f) w)) = pod_gated cfg w"
  by (metis gated_def on_files_sel(2) on_pod_sel(2) pod_gated_def prod.collapse)

lemma Read_frames:
  "ReadHolder d fs = (x, fs') \<Longrightarrow> fs_lookup fs' = fs_lookup fs"
  "ReadToken d fs = (y, fs') \<Longrightarrow> fs_lookup fs' = fs_lookup fs"
  by (auto simp: ReadHolder_def ReadToken_def frame_simps(4) split: prod.splits)

lemma Read_ok:
  "ReadHolder d fs = (x, fs') \<Longrightarrow> fs_ok fs \<longrightarrow> fs_ok fs'"
  "ReadToken d fs = (y, fs') \<Longrightarrow> fs_ok fs \<longrightarrow> fs_ok fs'"
  by (auto simp: ReadHolder_def ReadToken_def split: prod.splits dest: os_ReadFile_ok)

lemma pod_enforcer:
  "enforcer (sc_Hold (pod_sidecar N cfg self)) (sc_Free (pod_sidecar N cfg self)) (pod_gated cfg) pod_ok"
  by unfold_locales
    (simp_all add: pod_gated_def pod_ok_def en.hold_ok en.release_ok en.hold_closes en.hold_keeps
      en.release_opens en.release_fails)

interpretation pod: sidecar_host "pod_sidecar N cfg self" "pod_gated cfg" pod_ok
  for N :: "'n network" and cfg self
proof (rule sidecar_host.intro, rule pod_enforcer, unfold_locales, goal_cases)
  case (7 w)
  then show ?case by (simp add: on_files_ok on_files_gated Read_frames Read_ok)
next
  case (8 w)
  then show ?case by (simp add: on_files_ok on_files_gated Read_frames Read_ok)
next
  case (9 w h t)
  then show ?case by (simp add: on_files_ok WriteAcquired_ok)
qed (simp_all add: Let_def split: prod.split)

section \<open>The handoff\<close>

lemma Write_success:
  assumes "WriteAcquired d h tok fs = (None, fs')"
  shows "map_option fi_Data (fs_lookup fs' (holderPath d)) = Some h"
    "map_option fi_Data (fs_lookup fs' (tokenPath d)) = Some (FormatInt (sint tok))"
  using WriteAcquired_effect [OF assms] by auto

definition handoff_of :: "Config \<Rightarrow> client_result \<Rightarrow> pod_world \<Rightarrow> bool" where
  "handoff_of cfg res p \<longleftrightarrow>
     map_option fi_Data (fs_lookup (pw_fs p) (holderPath (cf_StateDir cfg))) = Some (Config_Holder cfg) \<and>
     map_option fi_Data (fs_lookup (pw_fs p) (tokenPath (cf_StateDir cfg))) =
       Some (FormatInt (sint (cr_FencingToken res)))"

lemma hold_round_handoff:
  assumes "hold_round (pod_sidecar N cfg self) cfg deadline w = Inl (Inr res, w')"
  shows "cr_Acquired res \<and> handoff_of cfg res (fst w')"
proof -
  let ?E = "pod_sidecar N cfg self" and ?d = "cf_StateDir cfg"
  obtain x w1 where a: "sc_Acquire ?E deadline (cf_LeaseNamespace cfg) (cf_LeaseName cfg) (Config_Holder cfg) (cf_TTL cfg) w = (x, w1)"
    by (metis prod.exhaust)
  obtain e w2 where wr: "sc_WriteAcquired ?E (Config_Holder cfg) (cr_FencingToken res) w1 = (e, w2)"
    by (metis prod.exhaust)
  obtain e' w3 where i: "sc_Install ?E w2 = (e', w3)" by (metis prod.exhaust)
  have e: "cr_Acquired res" "e = None" "e' = None" "w' = w3"
    using assms wr i
    by (auto simp: hold_round_def Let_def a simp del: pod_sidecar_sel split: prod.splits sum.splits option.splits if_splits)
  have "WriteAcquired ?d (Config_Holder cfg) (cr_FencingToken res) (pw_fs (fst w1)) = (None, pw_fs (fst w2))"
    using wr e(2) by (auto simp: on_pod_def on_files_def split: prod.splits)
  moreover have "InstallCheckBinary ?d self (pw_fs (fst w2)) = (None, pw_fs (fst w3))"
    using i e(3) by (auto simp: on_pod_def on_files_def split: prod.splits)
  ultimately show ?thesis
    using Write_success InstallCheckBinary_frame e(1,4) by (auto simp: handoff_of_def)
qed

lemma hold_rounds_handoff:
  "hold_rounds (pod_sidecar N cfg self) cfg deadline n w = Inl (Inr res, w') \<Longrightarrow>
   cr_Acquired res \<and> handoff_of cfg res (fst w')"
  by (induction n arbitrary: w) (auto split: sum.splits dest: hold_round_handoff)

lemma ReadFile_pass:
  "fs_faults fs = [] \<Longrightarrow> map_option fi_Data (fs_lookup fs p) = Some d \<Longrightarrow> os_ReadFile p fs = (Inr d, fs)"
  by (auto simp: os_ReadFile_def next_fault_def)

lemma Read_handoff:
  assumes "handoff_of cfg res p" and "fs_faults (pw_fs p) = []"
  shows "on_files (ReadHolder (cf_StateDir cfg)) p = (Inr (Config_Holder cfg), p)"
    and "on_files (ReadToken (cf_StateDir cfg)) p = (Inr (cr_FencingToken res), p)"
proof -
  let ?t = "cr_FencingToken res"
  have "- (2 ^ 31) \<le> sint ?t" "sint ?t < 2 ^ 31"
    using sint_ge [of ?t] sint_lt [of ?t] by simp_all
  then have "ParseInt 32 (TrimSpace (FormatInt (sint ?t))) = Some (sint ?t)"
    by (simp add: TrimSpace_FormatInt ParseInt_FormatInt)
  moreover have "os_ReadFile (tokenPath (cf_StateDir cfg)) (pw_fs p) = (Inr (FormatInt (sint ?t)), pw_fs p)"
    using assms by (intro ReadFile_pass) (simp_all add: handoff_of_def)
  ultimately show "on_files (ReadToken (cf_StateDir cfg)) p = (Inr ?t, p)"
    by (simp add: on_files_def ReadToken_def)
  have "os_ReadFile (holderPath (cf_StateDir cfg)) (pw_fs p) = (Inr (Config_Holder cfg), pw_fs p)"
    using assms by (intro ReadFile_pass) (simp_all add: handoff_of_def)
  then show "on_files (ReadHolder (cf_StateDir cfg)) p = (Inr (Config_Holder cfg), p)"
    by (simp add: on_files_def ReadHolder_def)
qed

section \<open>Properties\<close>

definition next_attempt :: "'w sidecar \<Rightarrow> Config \<Rightarrow> time \<Rightarrow> 'w \<Rightarrow> 'w" where
  "next_attempt E cfg deadline w =
     snd (sc_sleep E (retryInterval cfg)
       (snd (sc_Acquire E deadline (cf_LeaseNamespace cfg) (cf_LeaseName cfg) (Config_Holder cfg) (cf_TTL cfg) w)))"

definition attempt_ends :: "'w sidecar \<Rightarrow> Config \<Rightarrow> time \<Rightarrow> 'w \<Rightarrow> bool" where
  "attempt_ends E cfg deadline w =
     (let (x, w1) = sc_Acquire E deadline (cf_LeaseNamespace cfg) (cf_LeaseName cfg) (Config_Holder cfg) (cf_TTL cfg) w
      in (case x of Inr res \<Rightarrow> cr_Acquired res | Inl err \<Rightarrow> False) \<or> \<not> fst (sc_sleep E (retryInterval cfg) w1))"

lemma hold_round_ends:
  "attempt_ends E cfg deadline w \<Longrightarrow> \<exists>r. hold_round E cfg deadline w = Inl r"
  "\<not> attempt_ends E cfg deadline w \<Longrightarrow> hold_round E cfg deadline w = Inr (next_attempt E cfg deadline w)"
  by (auto simp: hold_round_def attempt_ends_def next_attempt_def Let_def split: prod.splits sum.splits option.splits)

lemma hold_rounds_ends:
  "(\<exists>r. hold_rounds E cfg deadline n w = Inl r) \<longleftrightarrow>
   (\<exists>i<n. attempt_ends E cfg deadline ((next_attempt E cfg deadline ^^ i) w))"
proof (induction n arbitrary: w)
  case (Suc n)
  show ?case
  proof (cases "attempt_ends E cfg deadline w")
    case True
    then show ?thesis using hold_round_ends(1) by fastforce
  next
    case False
    then have "(\<exists>i<Suc n. attempt_ends E cfg deadline ((next_attempt E cfg deadline ^^ i) w)) \<longleftrightarrow>
        (\<exists>i<n. attempt_ends E cfg deadline ((next_attempt E cfg deadline ^^ i) (next_attempt E cfg deadline w)))"
      by (auto simp: less_Suc_eq_0_disj funpow_Suc_right simp del: funpow.simps)
    with False Suc show ?thesis by (simp add: hold_round_ends(2))
  qed
qed simp

text \<open>
  C31. When the init container returns.  The loop of \<open>Hold\<close> returns exactly when some attempt ends
  it: one that is granted the lease, or one after which the wait is cancelled.  It never gives up on
  an error of the server or on a lease held by another, and it never loops past the end of its
  context; a result other than an error is one in which the lease was granted.
\<close>

theorem init_container_returns:
  "(acquire_Hold E cfg deadline w \<noteq> None \<longleftrightarrow>
     (\<exists>n. attempt_ends E cfg deadline ((next_attempt E cfg deadline ^^ n) w))) \<and>
   (\<nexists>res w'. acquire_Hold E cfg deadline w = Some (Inr res, w') \<and> \<not> cr_Acquired res)"
proof
  have "acquire_Hold E cfg deadline w \<noteq> None \<longleftrightarrow> (\<exists>n r. hold_rounds E cfg deadline n w = Inl r)"
    using acquire_Hold_rounds rounds_acquire_Hold by (metis not_None_eq)
  then show "acquire_Hold E cfg deadline w \<noteq> None \<longleftrightarrow>
     (\<exists>n. attempt_ends E cfg deadline ((next_attempt E cfg deadline ^^ n) w))"
    using hold_rounds_ends by (metis lessI)
  show "\<nexists>res w'. acquire_Hold E cfg deadline w = Some (Inr res, w') \<and> \<not> cr_Acquired res"
    by (auto dest!: acquire_Hold_rounds hold_rounds_granted)
qed

text \<open>A network that grants every request, with a clock that ticks at each reading.\<close>

definition sample_net :: "nat network" where
  "sample_net =
     \<lparr>nt_clock = (\<lambda>n. (n, n + 1)), nt_ctxErr = (\<lambda>d n. (False, n)), nt_done = (\<lambda>n. (False, n)),
      nt_sleep = (\<lambda>d n. (True, n)),
      nt_Acquire = (\<lambda>d ns nm h ttl n. (Inr \<lparr>cr_Acquired = True, cr_Holder = h, cr_FencingToken = 3, cr_ExpiresAt = 0, cr_AcquiredAt = 0\<rparr>, n)),
      nt_Renew = (\<lambda>d ns nm h t ttl n. (Inr \<lparr>cr_Acquired = True, cr_Holder = h, cr_FencingToken = t, cr_ExpiresAt = 0, cr_AcquiredAt = 0\<rparr>, n)),
      nt_Release = (\<lambda>ns nm h t n. (None, n))\<rparr>"

definition sample_pod :: pod_world where
  "sample_pod = sample_world\<lparr>pw_fs :=
     \<lparr>fs_files = [(''/exe'', \<lparr>fi_Data = ''bin'', fi_Mode = 493, fi_ModTime = 0\<rparr>)], fs_clock = 5, fs_faults = [],
      fs_random = [1, 2, 3, 4, 5, 6, 7, 8, 9]\<rparr>\<rparr>"

definition sample_res :: client_result where
  "sample_res = \<lparr>cr_Acquired = True, cr_Holder = Config_Holder (sample_config ''u1''), cr_FencingToken = 3,
     cr_ExpiresAt = 0, cr_AcquiredAt = 0\<rparr>"

definition sample_written :: fsys where
  "sample_written = snd (WriteAcquired [] (Config_Holder (sample_config ''u1'')) 3 (pw_fs sample_pod))"

definition sample_installed :: fsys where
  "sample_installed = snd (InstallCheckBinary [] (Inr ''/exe'') sample_written)"

definition sample_open :: fsys where
  "sample_open = snd (MarkHealthy [] sample_written)"

lemma sample_files:
  "WriteAcquired [] (Config_Holder (sample_config ''u1'')) 3 (pw_fs sample_pod) = (None, sample_written)"
  "InstallCheckBinary [] (Inr ''/exe'') sample_written = (None, sample_installed)"
  "fs_faults sample_installed = []"
  unfolding prod_eq_iff by code_simp+

text \<open>
  C32. The gate.  Take a sidecar that started and then handled any events of its loop, with the
  enforcer its configuration selects, any failures of the file system, any answers of the lease
  server and any clock.  After the next event the workload may run (the health marker is there)
  only if the sidecar holds the lease with a confirmed deadline, or its attempt in this very
  event to close the gate failed and the failure is in the log.  The event of the shutdown itself is
  left out: it releases the lease and leaves the gate as it is, because the kubelet stops a native
  sidecar only after the containers of the workload.
\<close>

theorem gate_open_only_while_confirmed:
  assumes "Renewer_Run (pod_sidecar N cfg self) cfg evs r (p, n) = (None, r1, w1)"
    and "world_ok p" and "0 < cf_TTL cfg" and "EvDone \<notin> set evs"
    and "run_step (pod_sidecar N cfg self) cfg ev (r1, w1) = (r2, p2, n2)"
    and "ev \<noteq> EvDone" and "ev = EvExpiry \<longrightarrow> expiry_armed r1"
    and "\<not> gated (cf_StateDir cfg) p2"
  shows "rw_held r2 \<and> \<not> time_IsZero (rw_expiresAt r2) \<or> enforce_failed (new_log r1 r2)"
proof -
  have "pod.gate_inv cfg r1 w1"
    using pod.Run_inv [OF assms(1) _ assms(3,4)] assms(2) by (simp add: pod_ok_def)
  from pod.run_step_settled [OF assms(5) this assms(3,6,7)] obtain ls where
    "rw_log r2 = ls @ rw_log r1" "enforce_failed ls \<or> pod_gated cfg (p2, n2) \<or> confirmed r2"
    by (auto simp: pod.settled_def)
  with assms(8) show ?thesis
    by (auto simp: new_log_append confirmed_def pod_gated_def)
qed

theorem gate_open_only_while_confirmed_witness:
  "\<exists>r1 w1 r2 p2 n2. Renewer_Run (pod_sidecar sample_net (sample_config ''u1'') (Inr ''/exe'')) (sample_config ''u1'')
      [] NewRenewer (sample_pod, 0) = (None, r1, w1) \<and>
    run_step (pod_sidecar sample_net (sample_config ''u1'') (Inr ''/exe'')) (sample_config ''u1'') EvTick (r1, w1) = (r2, p2, n2) \<and>
    \<not> gated [] p2 \<and> rw_held r2 \<and> \<not> time_IsZero (rw_expiresAt r2)"
proof -
  let ?c = "sample_config ''u1''" and ?E = "pod_sidecar sample_net (sample_config ''u1'') (Inr ''/exe'')"
  have c: "cf_StateDir ?c = []" "cf_Enforce ?c \<noteq> EnforceSignal" "0 < cf_TTL ?c" "cf_TTL ?c = 30 * second"
    by (simp_all add: sample_config_def EnforceSignal_def)
  have f: "MarkUnhealthy [] (pw_fs sample_pod) = (None, pw_fs sample_pod)"
     "ReadHolder [] (pw_fs sample_pod) = (Inl ErrNotExist, pw_fs sample_pod)"
     "ReadToken [] (pw_fs sample_pod) = (Inl ErrNotExist, pw_fs sample_pod)"
    unfolding prod_eq_iff by code_simp+
  have m: "MarkHealthy [] sample_written = (None, sample_open)"
     "fs_lookup (sample_open) (healthyPath []) \<noteq> None"
    unfolding prod_eq_iff by code_simp+
  have w: "world_ok sample_pod" by code_simp
  let ?r1 = "lognote ''no matching lease handoff'' (NewRenewer\<lparr>rw_holder := Config_Holder ?c\<rparr>)"
  have run: "Renewer_Run ?E ?c [] NewRenewer (sample_pod, 0) = (None, ?r1, sample_pod, 0)"
    by (simp add: f Renewer_Run_def loadHandoff_def on_pod_def on_files_def on_net_def newEnforcer_def probe_Hold_def c
      NewRenewer_def lognote_def)
  let ?r2 = "?r1\<lparr>rw_token := 3, rw_expiresAt := 1 + 30 * second, rw_held := True\<rparr>"
  let ?p2 = "sample_pod\<lparr>pw_fs := sample_open\<rparr>"
  have step: "run_step ?E ?c EvTick (?r1, sample_pod, 0) = (?r2, ?p2, 3)"
    by (simp add: m(1) run_step_def tickReacquire_def tickCtx_def acquire_answer_def acquire_too_late_def on_net_def on_pod_def on_files_def
      newEnforcer_def probe_Hold_def probe_Release_def c f sample_net_def NewRenewer_def lognote_def lognote_err_def sample_files
      time_Add_def time_Before_def)
  have log: "\<not> enforce_failed (new_log ?r1 ?r2)" by (simp add: new_log_def lognote_def enforce_failed_def)
  from gate_open_only_while_confirmed [OF run w c(3) _ step] log m(2) run step show ?thesis
    by (auto simp: c gated_def)
qed

text \<open>
  C33. The handoff from the init container to the sidecar.  When the init container has returned
  with the lease, a sidecar with the same configuration whose reads succeed takes over exactly
  the holder and the fencing token that were granted, and takes the lease as held but not yet
  confirmed: its deadline is unknown until a renewal succeeds.
\<close>

theorem handoff_reaches_sidecar:
  assumes "acquire_Hold (pod_sidecar N cfg self) cfg deadline w = Some (Inr res, p, n)"
    and "fs_faults (pw_fs p) = []" and "0 < sint (cr_FencingToken res)"
  shows "loadHandoff (pod_sidecar N cfg self) cfg r (p, n') =
    (r\<lparr>rw_holder := Config_Holder cfg, rw_token := cr_FencingToken res, rw_held := True,
       rw_expiresAt := zero_time\<rparr>, p, n')"
proof -
  have "handoff_of cfg res p"
    using acquire_Hold_rounds [OF assms(1)] hold_rounds_handoff by fastforce
  from Read_handoff [OF this assms(2)] assms(3) show ?thesis
    by (simp add: loadHandoff_def on_pod_def)
qed

theorem handoff_reaches_sidecar_witness:
  "acquire_Hold (pod_sidecar sample_net (sample_config ''u1'') (Inr ''/exe'')) (sample_config ''u1'') 0 (sample_pod, 0) =
     Some (Inr sample_res, sample_pod\<lparr>pw_fs := sample_installed\<rparr>, 0) \<and>
   rw_token (fst (loadHandoff (pod_sidecar sample_net (sample_config ''u1'') (Inr ''/exe'')) (sample_config ''u1'')
     NewRenewer (sample_pod\<lparr>pw_fs := sample_installed\<rparr>, 0))) = 3"
proof -
  let ?c = "sample_config ''u1''" and ?E = "pod_sidecar sample_net (sample_config ''u1'') (Inr ''/exe'')"
  have dir: "cf_StateDir ?c = []" by (simp add: sample_config_def)
  have "hold_rounds ?E ?c 0 (Suc 0) (sample_pod, 0) = Inl (Inr sample_res, sample_pod\<lparr>pw_fs := sample_installed\<rparr>, 0)"
    by (simp add: hold_round_def on_net_def on_pod_def on_files_def sample_net_def dir sample_files sample_res_def)
  then have a: "acquire_Hold ?E ?c 0 (sample_pod, 0) = Some (Inr sample_res, sample_pod\<lparr>pw_fs := sample_installed\<rparr>, 0)"
    by (rule rounds_acquire_Hold)
  have "0 < sint (cr_FencingToken sample_res)" by (simp add: sample_res_def)
  with a handoff_reaches_sidecar [OF a _ this, of NewRenewer 0] show ?thesis
    by (simp add: sample_files sample_res_def)
qed

end
