(* ===== verification/Singleton_System.thy ===== *)
theory Singleton_System
  imports Acquire_Renewer
begin

text \<open>
  Pods that compete for one lease: the whole of Berth around the sidecars.

  The state has a global time, the store of the lease server, the requests that are under way, and
  for every pod its sidecar (the runtime state of \<open>Renewer\<close>, the pod with its health marker, and the
  call it is waiting for).  The local clock of a pod differs from the global time by a constant.
  Requests may be served late, out of order, after their caller has given up, or never; answers
  may be lost; sidecars may be restarted at any time.  A tick of the loop is cut at its
  call: \<open>held_begin\<close> and \<open>free_begin\<close> are what \<open>tickHeld\<close> and \<open>tickReacquire\<close> do before it,
  \<open>renew_answer\<close> and \<open>acquire_answer\<close> what they do after it.
\<close>

section \<open>Ticks cut at their call\<close>

definition held_begin ::
  "'w sidecar \<Rightarrow> Config \<Rightarrow> Renewer \<Rightarrow> 'w \<Rightarrow> (Renewer \<times> 'w) + (time \<times> time \<times> 'w)"
where
  "held_begin E cfg r w =
     (let (started, w1) = sc_now E w
      in if \<not> time_IsZero (rw_expiresAt r) \<and> \<not> time_Before started (rw_expiresAt r) then Inl (lose E r w1)
         else (let (deadline, w2) = tickCtx E cfg r w1 in Inr (started, deadline, w2)))"

definition free_begin ::
  "'w sidecar \<Rightarrow> Config \<Rightarrow> Renewer \<Rightarrow> 'w \<Rightarrow> Renewer \<times> time \<times> time \<times> 'w"
where
  "free_begin E cfg r w =
     (let (e, w1) = sc_Hold E w;
          r1 = lognote_err ''re-enforce while gated failed'' e r;
          (deadline, w2) = tickCtx E cfg r1 w1;
          (started, w3) = sc_now E w2
      in (r1, started, deadline, w3))"

lemma tickHeld_cut:
  "tickHeld E cfg r w =
     (case held_begin E cfg r w of
        Inl s \<Rightarrow> s
      | Inr (started, deadline, w2) \<Rightarrow>
          (let (x, w3) = sc_Renew E deadline (cf_LeaseNamespace cfg) (cf_LeaseName cfg)
                           (rw_holder r) (rw_token r) (cf_TTL cfg) w2
           in renew_answer E cfg started deadline x r w3))"
  by (simp add: tickHeld_def held_begin_def split: prod.splits)

lemma tickReacquire_cut:
  "tickReacquire E cfg r w =
     (let (r1, started, deadline, w3) = free_begin E cfg r w;
          (x, w4) = sc_Acquire E deadline (cf_LeaseNamespace cfg) (cf_LeaseName cfg)
                      (rw_holder r1) (cf_TTL cfg) w3
      in acquire_answer E cfg started deadline x r1 w4)"
  by (simp add: tickReacquire_def free_begin_def Let_def split: prod.splits)

section \<open>The system\<close>

datatype request = ReqAcquire string | ReqRenew string int32 | ReqRelease string int32

record call =
  ca_started :: time
  ca_deadline :: time
  ca_reply :: "client_result outcome option"

record pod =
  pd_up :: bool
  pd_done :: bool
  pd_r :: Renewer
  pd_w :: pod_world
  pd_call :: "call option"
  pd_seq :: nat

record 'p sys =
  sy_now :: time
  sy_store :: MemStore
  sy_flight :: "('p \<times> nat \<times> request) set"
  sy_pod :: "'p \<Rightarrow> pod"

text \<open>
  What does not change: the configuration and the clock offset of each pod, the key they compete
  for, and the server's validation and garbage collection.
\<close>

record 'p fleet =
  su_cfg :: "'p \<Rightarrow> Config"
  su_off :: "'p \<Rightarrow> time"
  su_key :: Key
  su_V :: dns1123
  su_gc :: TTLEnforcer

abbreviation holder_of :: "'p fleet \<Rightarrow> 'p \<Rightarrow> string" where
  "holder_of K p \<equiv> Config_Holder (su_cfg K p)"

abbreviation key_of :: "'p fleet \<Rightarrow> 'p \<Rightarrow> Key" where
  "key_of K p \<equiv> \<lparr>key_Namespace = cf_LeaseNamespace (su_cfg K p), key_Name = cf_LeaseName (su_cfg K p)\<rparr>"

abbreviation ttl_of :: "'p fleet \<Rightarrow> 'p \<Rightarrow> duration" where
  "ttl_of K p \<equiv> cf_TTL (su_cfg K p)"

abbreviation server :: "MemStore Store" where
  "server \<equiv> MemStore_ops (\<lambda>xs. xs) None"

text \<open>
  The environment of one uninterrupted piece of the loop: the \<open>k\<close>-th reading of the clock is
  \<open>f k\<close>, the \<open>k\<close>-th look at the context finds it ended when \<open>c k\<close>.
\<close>

definition script :: "(nat \<Rightarrow> nat) \<Rightarrow> (nat \<Rightarrow> bool) \<Rightarrow> nat network" where
  "script f c =
     \<lparr>nt_clock = (\<lambda>k. (f k, Suc k)), nt_ctxErr = (\<lambda>d k. (c k, Suc k)), nt_done = (\<lambda>k. (c k, Suc k)),
      nt_sleep = (\<lambda>d k. (c k, Suc k)), nt_Acquire = (\<lambda>d ns nm h ttl k. (Inl ErrCtxDone, k)),
      nt_Renew = (\<lambda>d ns nm h t ttl k. (Inl ErrCtxDone, k)), nt_Release = (\<lambda>ns nm h t k. (Some ErrCtxDone, k))\<rparr>"

abbreviation env_of :: "'p fleet \<Rightarrow> 'p \<Rightarrow> (nat \<Rightarrow> nat) \<Rightarrow> (nat \<Rightarrow> bool) \<Rightarrow> (pod_world \<times> nat) sidecar" where
  "env_of K p f c \<equiv> pod_sidecar (script f c) (su_cfg K p) (Inl ErrCtxDone)"

text \<open>The readings of a piece that runs from the global time \<open>t\<close> to \<open>t'\<close>.\<close>

definition readings :: "'p fleet \<Rightarrow> 'p \<Rightarrow> time \<Rightarrow> time \<Rightarrow> (nat \<Rightarrow> nat) \<Rightarrow> bool" where
  "readings K p t t' f \<longleftrightarrow> t \<le> t' \<and> (\<forall>k. t \<le> int (f k) - su_off K p \<and> int (f k) - su_off K p \<le> t')"

text \<open>A request at the server, with the time to live that travels in whole seconds, and its answer.\<close>

definition wire_ttl :: "duration \<Rightarrow> duration" where
  "wire_ttl ttl = ttl - ttl mod second"

fun request_op :: "'p fleet \<Rightarrow> time \<Rightarrow> 'p \<Rightarrow> request \<Rightarrow> server_op" where
  "request_op K now p (ReqAcquire h) = OpAcquire (\<lambda>n. now) (key_of K p) h (wire_ttl (ttl_of K p))"
| "request_op K now p (ReqRenew h t) = OpRenew now (key_of K p) h t (wire_ttl (ttl_of K p))"
| "request_op K now p (ReqRelease h t) = OpRelease now (key_of K p) h t"

fun reply_of :: "'p fleet \<Rightarrow> time \<Rightarrow> 'p \<Rightarrow> request \<Rightarrow> MemStore \<Rightarrow> client_result outcome" where
  "reply_of K now p (ReqAcquire h) s =
     map_sum (\<lambda>e. ErrText ''server status'') client_resultFrom
       (fst (Manager_Acquire (su_V K) server (\<lambda>n. now) (key_of K p) h (wire_ttl (ttl_of K p)) s))"
| "reply_of K now p (ReqRenew h t) s =
     map_sum (\<lambda>e. ErrText ''server status'') client_resultFrom
       (fst (Manager_Renew (su_V K) server now (key_of K p) h t (wire_ttl (ttl_of K p)) s))"
| "reply_of K now p (ReqRelease h t) s = Inl ErrCtxDone"

definition serve :: "'p fleet \<Rightarrow> 'p \<Rightarrow> request \<Rightarrow> 'p sys \<Rightarrow> MemStore" where
  "serve K p q st = server_step (su_V K) (su_gc K) server (request_op K (sy_now st) p q) (sy_store st)"

text \<open>Operations of others: a sweep, or a call on another key or for a holder that is not a pod's.\<close>

fun foreign :: "'p fleet \<Rightarrow> time \<Rightarrow> server_op \<Rightarrow> bool" where
  "foreign K now (OpAcquire clk key h ttl) \<longleftrightarrow> clk = (\<lambda>n. now) \<and> (key = su_key K \<longrightarrow> h \<notin> range (holder_of K))"
| "foreign K now (OpRenew t key h tok ttl) \<longleftrightarrow> t = now \<and> (key = su_key K \<longrightarrow> h \<notin> range (holder_of K))"
| "foreign K now (OpRelease t key h tok) \<longleftrightarrow> t = now \<and> (key = su_key K \<longrightarrow> h \<notin> range (holder_of K))"
| "foreign K now (OpSweep t) \<longleftrightarrow> t = now"

definition put_pod :: "'p \<Rightarrow> pod \<Rightarrow> 'p sys \<Rightarrow> 'p sys" where
  "put_pod p d st = st\<lparr>sy_pod := (sy_pod st)(p := d)\<rparr>"

definition idle :: "pod \<Rightarrow> bool" where
  "idle d \<longleftrightarrow> pd_up d \<and> \<not> pd_done d \<and> pd_call d = None"

inductive sys_step :: "'p fleet \<Rightarrow> 'p sys \<Rightarrow> 'p sys \<Rightarrow> bool" for K where
  pass: "sy_now st \<le> t \<Longrightarrow> sys_step K st (st\<lparr>sy_now := t\<rparr>)"
| init_request: "sys_step K st (st\<lparr>sy_flight := insert (p, 0, ReqAcquire (holder_of K p)) (sy_flight st)\<rparr>)"
| start:
    "sy_pod st p = d \<Longrightarrow> \<not> pd_done d \<Longrightarrow>
     loadHandoff (env_of K p f c) (su_cfg K p) NewRenewer (pd_w d, 0) = (r, w1) \<Longrightarrow>
     sc_Hold (env_of K p f c) w1 = (None, w2) \<Longrightarrow>
     sys_step K st (put_pod p (d\<lparr>pd_up := True, pd_r := r, pd_w := fst w2, pd_call := None\<rparr>) st)"
| begin_held:
    "sy_pod st p = d \<Longrightarrow> idle d \<Longrightarrow> rw_held (pd_r d) \<Longrightarrow> readings K p (sy_now st) t f \<Longrightarrow>
     held_begin (env_of K p f c) (su_cfg K p) (pd_r d) (pd_w d, 0) = Inr (started, deadline, w) \<Longrightarrow>
     sys_step K st
       (put_pod p (d\<lparr>pd_w := fst w, pd_seq := Suc (pd_seq d),
           pd_call := Some \<lparr>ca_started = started, ca_deadline = deadline, ca_reply = None\<rparr>\<rparr>)
         (st\<lparr>sy_now := t, sy_flight := insert (p, Suc (pd_seq d), ReqRenew (rw_holder (pd_r d)) (rw_token (pd_r d))) (sy_flight st)\<rparr>))"
| begin_lost:
    "sy_pod st p = d \<Longrightarrow> idle d \<Longrightarrow> rw_held (pd_r d) \<Longrightarrow> readings K p (sy_now st) t f \<Longrightarrow>
     held_begin (env_of K p f c) (su_cfg K p) (pd_r d) (pd_w d, 0) = Inl (r, w) \<Longrightarrow>
     sys_step K st (put_pod p (d\<lparr>pd_r := r, pd_w := fst w\<rparr>) (st\<lparr>sy_now := t\<rparr>))"
| begin_free:
    "sy_pod st p = d \<Longrightarrow> idle d \<Longrightarrow> \<not> rw_held (pd_r d) \<Longrightarrow> readings K p (sy_now st) t f \<Longrightarrow>
     free_begin (env_of K p f c) (su_cfg K p) (pd_r d) (pd_w d, 0) = (r, started, deadline, w) \<Longrightarrow>
     sys_step K st
       (put_pod p (d\<lparr>pd_r := r, pd_w := fst w, pd_seq := Suc (pd_seq d),
           pd_call := Some \<lparr>ca_started = started, ca_deadline = deadline, ca_reply = None\<rparr>\<rparr>)
         (st\<lparr>sy_now := t, sy_flight := insert (p, Suc (pd_seq d), ReqAcquire (rw_holder r)) (sy_flight st)\<rparr>))"
| serve_lost:
    "(p, n, q) \<in> sy_flight st \<Longrightarrow>
     sys_step K st (st\<lparr>sy_store := serve K p q st, sy_flight := sy_flight st - {(p, n, q)}\<rparr>)"
| serve_answered:
    "(p, n, q) \<in> sy_flight st \<Longrightarrow> sy_pod st p = d \<Longrightarrow> pd_call d = Some a \<Longrightarrow> pd_seq d = n \<Longrightarrow>
     sys_step K st
       (put_pod p (d\<lparr>pd_call := Some (a\<lparr>ca_reply := Some (reply_of K (sy_now st) p q (sy_store st))\<rparr>)\<rparr>)
         (st\<lparr>sy_store := serve K p q st, sy_flight := sy_flight st - {(p, n, q)}\<rparr>))"
| finish_held:
    "sy_pod st p = d \<Longrightarrow> pd_call d = Some a \<Longrightarrow> rw_held (pd_r d) \<Longrightarrow> readings K p (sy_now st) t f \<Longrightarrow>
     ca_reply a = Some x \<or> x = Inl err \<Longrightarrow>
     renew_answer (env_of K p f c) (su_cfg K p) (ca_started a) (ca_deadline a) x (pd_r d) (pd_w d, 0) = (r, w) \<Longrightarrow>
     sys_step K st (put_pod p (d\<lparr>pd_r := r, pd_w := fst w, pd_call := None\<rparr>) (st\<lparr>sy_now := t\<rparr>))"
| finish_free:
    "sy_pod st p = d \<Longrightarrow> pd_call d = Some a \<Longrightarrow> \<not> rw_held (pd_r d) \<Longrightarrow> readings K p (sy_now st) t f \<Longrightarrow>
     ca_reply a = Some x \<or> x = Inl err \<Longrightarrow>
     acquire_answer (env_of K p f c) (su_cfg K p) (ca_started a) (ca_deadline a) x (pd_r d) (pd_w d, 0) = (r, w) \<Longrightarrow>
     sys_step K st (put_pod p (d\<lparr>pd_r := r, pd_w := fst w, pd_call := None\<rparr>) (st\<lparr>sy_now := t\<rparr>))"
| expire:
    "sy_pod st p = d \<Longrightarrow> idle d \<Longrightarrow> expiry_armed (pd_r d) \<Longrightarrow>
     rw_expiresAt (pd_r d) - su_off K p \<le> sy_now st \<Longrightarrow>
     run_step (env_of K p f c) (su_cfg K p) EvExpiry (pd_r d, (pd_w d, 0)) = (r, w) \<Longrightarrow>
     sys_step K st (put_pod p (d\<lparr>pd_r := r, pd_w := fst w\<rparr>) st)"
| stop:
    "sy_pod st p = d \<Longrightarrow> idle d \<Longrightarrow>
     sys_step K st
       (put_pod p (d\<lparr>pd_done := True\<rparr>)
         (st\<lparr>sy_flight :=
              (if cf_ReleaseOnShutdown (su_cfg K p) = Some True \<and> rw_held (pd_r d)
               then insert (p, 0, ReqRelease (rw_holder (pd_r d)) (rw_token (pd_r d))) (sy_flight st) else sy_flight st)\<rparr>))"
| other:
    "foreign K (sy_now st) op \<Longrightarrow> small_sweep server op (sy_store st) \<Longrightarrow>
     sys_step K st (st\<lparr>sy_store := server_step (su_V K) (su_gc K) server op (sy_store st)\<rparr>)"

definition sys_init :: "'p sys \<Rightarrow> bool" where
  "sys_init st \<longleftrightarrow> mem_inv (sy_store st) \<and> sy_flight st = {} \<and>
     (\<forall>p. \<not> pd_up (sy_pod st p) \<and> \<not> pd_done (sy_pod st p) \<and> pd_r (sy_pod st p) = NewRenewer \<and>
          pd_call (sy_pod st p) = None \<and> world_ok (pd_w (sy_pod st p)))"

inductive sys_reach :: "'p fleet \<Rightarrow> 'p sys \<Rightarrow> bool" for K where
  reach_init: "sys_init st \<Longrightarrow> sys_reach K st"
| reach_step: "sys_reach K st \<Longrightarrow> sys_step K st st' \<Longrightarrow> sys_reach K st'"


section \<open>What answers do to the runtime state\<close>

lemma lose_fields:
  "lose E r w = (r', w') \<Longrightarrow> \<not> rw_held r' \<and> rw_holder r' = rw_holder r"
  by (auto simp: lose_def split: prod.splits)

lemma renew_answer_cases:
  assumes "renew_answer E cfg started deadline x r w = (r', w')"
  shows "rw_holder r' = rw_holder r \<and>
    (\<not> rw_held r' \<or>
     rw_held r' = rw_held r \<and> rw_expiresAt r' = rw_expiresAt r \<and> rw_token r' = rw_token r \<or>
     (\<exists>res. x = Inr res \<and> cr_Acquired res \<and> rw_token r' = cr_FencingToken res \<and>
            rw_expiresAt r' = time_Add started (cf_TTL cfg)))"
  using assms
  by (auto simp: renew_answer_def split: sum.splits if_splits prod.splits dest: lose_fields)

lemma acquire_answer_cases:
  assumes "acquire_answer E cfg started deadline x r w = (r', w')"
  shows "rw_holder r' = rw_holder r \<and>
    (rw_held r' = rw_held r \<and> rw_expiresAt r' = rw_expiresAt r \<and> rw_token r' = rw_token r \<or>
     (\<exists>res. x = Inr res \<and> cr_Acquired res \<and> rw_token r' = cr_FencingToken res \<and>
            rw_expiresAt r' = time_Add started (cf_TTL cfg)))"
  using assms
  by (auto simp: acquire_answer_def Let_def split: sum.splits if_splits prod.splits)

lemma loadHandoff_fields:
  "loadHandoff E cfg r w = (r', w') \<Longrightarrow> rw_holder r' = Config_Holder cfg \<and> time_IsZero (rw_expiresAt r')"
  by (auto simp: loadHandoff_def Let_def time_IsZero_def split: sum.splits if_splits prod.splits)

lemma held_begin_script:
  "held_begin (env_of K p f c) cfg r (w, 0) = Inr (started, deadline, w') \<Longrightarrow>
     started = int (f 0) \<and> fst w' = w"
  "held_begin (env_of K p f c) cfg r (w, 0) = Inl (r', w') \<Longrightarrow>
     lose (env_of K p f c) r (w, 1) = (r', w')"
  by (auto simp: held_begin_def tickCtx_def script_def on_net_def Let_def split: if_splits)

lemma free_begin_script:
  "free_begin (env_of K p f c) cfg r (w, 0) = (r', started, deadline, w') \<Longrightarrow>
     \<exists>e w1. started = int (f 1) \<and> sc_Hold (env_of K p f c) (w, 0) = (e, w1) \<and>
       r' = lognote_err ''re-enforce while gated failed'' e r \<and> fst w' = fst w1"
  by (auto simp: free_begin_def tickCtx_def script_def on_net_def on_pod_def Let_def split: prod.splits)

section \<open>Claims to the lease\<close>

text \<open>
  A pod may believe until \<open>E\<close> that it has the lease under \<open>t\<close>: \<open>E\<close> is at most a time to live away, and
  while it has not come the store does hold the lease for that holder beyond \<open>E\<close>.
\<close>

definition claim :: "Key \<Rightarrow> time \<Rightarrow> view \<Rightarrow> string \<Rightarrow> duration \<Rightarrow> time \<Rightarrow> int32 \<Rightarrow> bool" where
  "claim key now m h ttl E t \<longleftrightarrow> E \<le> now + ttl \<and> (now \<le> E \<longrightarrow> holds_until E key h t m)"

interpretation srv: lease_store P server mem_view mem_inv for P
  by (rule MemStore_lease_store) (simp_all add: perm_ok_def ctx_ok_def)

lemma claim_later: "claim key now m h ttl E t \<Longrightarrow> now \<le> now' \<Longrightarrow> claim key now' m h ttl E t"
  by (auto simp: claim_def)

lemma claim_op:
  assumes "claim key now (mem_view s) h ttl E t" and "h \<noteq> []" and "mem_inv s" and "0 < gc_grace e"
    and "small_sweep server op s"
    and "now \<le> E \<Longrightarrow> E \<le> now + ttl \<Longrightarrow> op_respects E key h t op"
  shows "claim key now (mem_view (server_step V e server op s)) h ttl E t"
proof -
  have "holds_until E key h t (mem_view (server_step V e server op s))" if "now \<le> E"
  proof -
    have "op_allowed (hold_policy E key h t) op"
      using assms(1,6) that by (auto simp: claim_def intro: op_respects_allowed)
    from srv.server_step_guarantee [OF assms(3-5) this]
    have "legal_steps (hold_policy E key h t) (mem_view s) (mem_view (server_step V e server op s))" by blast
    from legal_steps_holds [OF this _ assms(2)] assms(1) that show ?thesis by (simp add: claim_def)
  qed
  with assms(1) show ?thesis by (simp add: claim_def)
qed

definition sane :: "'p fleet \<Rightarrow> bool" where
  "sane K \<longleftrightarrow> inj (holder_of K) \<and> 0 < gc_grace (su_gc K) \<and>
     (\<forall>p. holder_of K p \<noteq> [] \<and> key_of K p = su_key K \<and> 0 < ttl_of K p \<and> ttl_of K p mod second = 0)"

lemma saneD:
  assumes "sane K"
  shows "wire_ttl (ttl_of K p) = ttl_of K p" and "key_of K p = su_key K"
  using assms by (auto simp: sane_def wire_ttl_def)

fun req_ok :: "'p fleet \<Rightarrow> 'p sys \<Rightarrow> 'p \<Rightarrow> request \<Rightarrow> bool" where
  "req_ok K st p (ReqAcquire h) \<longleftrightarrow> h = holder_of K p"
| "req_ok K st p (ReqRenew h t) \<longleftrightarrow> h = holder_of K p"
| "req_ok K st p (ReqRelease h t) \<longleftrightarrow> h = holder_of K p \<and> pd_done (sy_pod st p)"

lemma request_respects:
  assumes "sane K" and "req_ok K st p' q" and "\<not> pd_done (sy_pod st p)" and "now \<le> E" and "E \<le> now + ttl_of K p"
  shows "op_respects E (su_key K) (holder_of K p) t (request_op K now p' q)"
proof -
  have "p' = p" if "holder_of K p' = holder_of K p"
    using assms(1) that by (auto simp: sane_def dest: injD)
  with assms saneD [OF assms(1)] show ?thesis
    by (cases q) auto
qed

lemma foreign_respects:
  assumes "foreign K now op" and "now \<le> E"
  shows "op_respects E (su_key K) (holder_of K p) t op"
  using assms by (cases op) auto

text \<open>An answer that grants the lease backs the claim made from it.\<close>

lemma reply_claim:
  assumes "sane K" and "req_ok K st p q" and "mem_inv s" and "reply_of K now p q s = Inr res"
    and "cr_Acquired res" and "started \<le> now"
  shows "claim (su_key K) now (mem_view (server_step (su_V K) e server (request_op K now p q) s))
    (holder_of K p) (ttl_of K p) (started + ttl_of K p) (cr_FencingToken res)"
proof (cases q)
  case (ReqAcquire h)
  obtain x s' where m: "Manager_Acquire (su_V K) server (\<lambda>n. now) (key_of K p) h (wire_ttl (ttl_of K p)) s = (x, s')"
    by fastforce
  obtain ar where ar: "x = Inr ar" "res = client_resultFrom ar"
    using assms(4) m by (cases x) (auto simp: ReqAcquire)
  have "ar_Acquired ar" using assms(5) ar by (simp add: client_resultFrom_def)
  from srv.manager_acquire_granted [where P = any_write, OF assms(3) m [unfolded ar(1)] this]
  obtain v r where "mem_view s' (key_of K p) = Some r" "rec_Holder r = h" "rec_FencingToken r = ar_FencingToken ar"
    "rec_TTL r = wire_ttl (ttl_of K p)" "rec_RenewedAt r = now"
    using acquired_as_record by fastforce
  then show ?thesis
    using assms(2,6) m ar(2) saneD [OF assms(1)]
    by (auto simp: claim_def ReqAcquire holds_until_def ExpiresAt_def time_Add_def client_resultFrom_def)
next
  case (ReqRenew h t)
  obtain x s' where m: "Manager_Renew (su_V K) server now (key_of K p) h t (wire_ttl (ttl_of K p)) s = (x, s')"
    by fastforce
  obtain ar where ar: "x = Inr ar" "res = client_resultFrom ar"
    using assms(4) m by (cases x) (auto simp: ReqRenew)
  have "ar_Acquired ar" using assms(5) ar by (simp add: client_resultFrom_def)
  from srv.manager_renew_granted [where P = any_write, OF assms(3) m [unfolded ar(1)] this]
  obtain r where "mem_view s' (key_of K p) = Some r" "rec_Holder r = h" "rec_FencingToken r = ar_FencingToken ar"
    "rec_TTL r = wire_ttl (ttl_of K p)" "rec_RenewedAt r = now"
    by auto
  then show ?thesis
    using assms(2,6) m ar(2) saneD [OF assms(1)]
    by (auto simp: claim_def ReqRenew holds_until_def ExpiresAt_def time_Add_def client_resultFrom_def)
next
  case (ReqRelease h t)
  with assms(4) show ?thesis by simp
qed

section \<open>The invariant\<close>

abbreviation pod_claim :: "'p fleet \<Rightarrow> time \<Rightarrow> view \<Rightarrow> 'p \<Rightarrow> time \<Rightarrow> int32 \<Rightarrow> bool" where
  "pod_claim K now m p E t \<equiv> claim (su_key K) now m (holder_of K p) (ttl_of K p) (E - su_off K p) t"

definition lease_inv :: "'p fleet \<Rightarrow> time \<Rightarrow> view \<Rightarrow> 'p \<Rightarrow> pod \<Rightarrow> bool" where
  "lease_inv K now m p d \<longleftrightarrow> \<not> pd_done d \<longrightarrow>
     (confirmed (pd_r d) \<longrightarrow> pod_claim K now m p (rw_expiresAt (pd_r d)) (rw_token (pd_r d))) \<and>
     (\<forall>a. pd_call d = Some a \<longrightarrow> 0 \<le> ca_started a \<and> ca_started a - su_off K p \<le> now \<and>
        (\<forall>res. ca_reply a = Some (Inr res) \<longrightarrow> cr_Acquired res \<longrightarrow>
           pod_claim K now m p (ca_started a + ttl_of K p) (cr_FencingToken res)))"

definition gate_fine :: "'p fleet \<Rightarrow> 'p \<Rightarrow> pod \<Rightarrow> bool" where
  "gate_fine K p d \<longleftrightarrow> world_ok (pd_w d) \<and> (pd_call d \<noteq> None \<longrightarrow> pd_up d \<and> \<not> pd_done d) \<and>
     (pd_up d \<longrightarrow>
        rw_holder (pd_r d) = holder_of K p \<and>
        (rw_held (pd_r d) \<longrightarrow> gated (cf_StateDir (su_cfg K p)) (pd_w d) \<or> confirmed (pd_r d)) \<and>
        (gated (cf_StateDir (su_cfg K p)) (pd_w d) \<or> confirmed (pd_r d) \<or> enforce_failed (rw_log (pd_r d))))"

definition sys_inv :: "'p fleet \<Rightarrow> 'p sys \<Rightarrow> bool" where
  "sys_inv K st \<longleftrightarrow> mem_inv (sy_store st) \<and> (\<forall>(p, n, q) \<in> sy_flight st. req_ok K st p q) \<and>
     (\<forall>p. lease_inv K (sy_now st) (mem_view (sy_store st)) p (sy_pod st p) \<and> gate_fine K p (sy_pod st p))"

lemma lease_inv_later: "lease_inv K now m p d \<Longrightarrow> now \<le> now' \<Longrightarrow> lease_inv K now' m p d"
  unfolding lease_inv_def by (blast intro: claim_later order_trans)

lemma put_pod_sel [simp]:
  "sy_now (put_pod p d st) = sy_now st" "sy_store (put_pod p d st) = sy_store st"
  "sy_flight (put_pod p d st) = sy_flight st" "sy_pod (put_pod p d st) = (sy_pod st)(p := d)"
  by (simp_all add: put_pod_def)

lemma req_ok_mono:
  "req_ok K st p q \<Longrightarrow> (\<And>p. pd_done (sy_pod st p) \<Longrightarrow> pd_done (sy_pod st' p)) \<Longrightarrow> req_ok K st' p q"
  by (cases q) auto

text \<open>A step of one pod, which may add a request of its own.\<close>

lemma sys_inv_pod:
  assumes "sys_inv K st" and "sy_now st \<le> t"
    and "lease_inv K t (mem_view (sy_store st)) p d" and "gate_fine K p d"
    and "pd_done (sy_pod st p) \<Longrightarrow> pd_done d"
    and "F \<subseteq> insert (p, n, q) (sy_flight st)" and "req_ok K (put_pod p d st) p q"
  shows "sys_inv K (put_pod p d (st\<lparr>sy_now := t, sy_flight := F\<rparr>))"
proof -
  let ?st = "put_pod p d (st\<lparr>sy_now := t, sy_flight := F\<rparr>)"
  have done_mono: "pd_done (sy_pod st p') \<Longrightarrow> pd_done (sy_pod ?st p')" for p'
    using assms(5) by auto
  have "req_ok K ?st p' q'" if "(p', n', q') \<in> F" for p' n' q'
  proof (cases "(p', n', q') \<in> sy_flight st")
    case True
    with assms(1) have "req_ok K st p' q'" by (auto simp: sys_inv_def)
    then show ?thesis by (rule req_ok_mono) (rule done_mono)
  next
    case False
    with that assms(6) have "p' = p" "q' = q" by auto
    with assms(7) show ?thesis by (auto intro: req_ok_mono)
  qed
  with assms(1-4) show ?thesis
    by (auto simp: sys_inv_def intro: lease_inv_later)
qed

text \<open>A step of the store, made of operations that respect every claim.\<close>

lemma sys_inv_store:
  assumes "sys_inv K st" and "sane K" and "small_sweep server op (sy_store st)"
    and "\<And>p E t. \<not> pd_done (sy_pod st p) \<Longrightarrow> sy_now st \<le> E \<Longrightarrow> E \<le> sy_now st + ttl_of K p \<Longrightarrow>
      op_respects E (su_key K) (holder_of K p) t op"
    and "F \<subseteq> sy_flight st"
  shows "sys_inv K (st\<lparr>sy_store := server_step (su_V K) (su_gc K) server op (sy_store st), sy_flight := F\<rparr>)"
proof -
  let ?s = "server_step (su_V K) (su_gc K) server op (sy_store st)"
  have inv: "mem_inv (sy_store st)" and gc: "0 < gc_grace (su_gc K)" and h: "holder_of K p \<noteq> []" for p
    using assms(1,2) by (auto simp: sys_inv_def sane_def)
  have "mem_inv ?s"
    using srv.server_step_guarantee [where P = any_write, OF inv gc assms(3)] by simp
  moreover have "pod_claim K (sy_now st) (mem_view ?s) p E t"
    if "pod_claim K (sy_now st) (mem_view (sy_store st)) p E t" "\<not> pd_done (sy_pod st p)" for p E t
    using claim_op [OF that(1) h inv gc assms(3)] assms(4) [OF that(2)] by blast
  then have "lease_inv K (sy_now st) (mem_view ?s) p (sy_pod st p)" for p
    using assms(1) unfolding sys_inv_def lease_inv_def by blast
  moreover have "req_ok K (st\<lparr>sy_store := ?s, sy_flight := F\<rparr>) p q" if "(p, n, q) \<in> F" for p n q
    using assms(1,5) that req_ok_mono [of K st p q] by (fastforce simp: sys_inv_def)
  ultimately show ?thesis
    using assms(1) by (auto simp: sys_inv_def)
qed

lemma small_request [simp]: "small_sweep server (request_op K now p q) s"
  by (cases q) simp_all

lemma sys_inv_serve:
  assumes "sys_inv K st" and "sane K" and "(p, n, q) \<in> sy_flight st"
  shows "sys_inv K (st\<lparr>sy_store := serve K p q st, sy_flight := sy_flight st - {(p, n, q)}\<rparr>)"
proof -
  have "req_ok K st p q" using assms(1,3) by (auto simp: sys_inv_def)
  then show ?thesis
    unfolding serve_def using assms by (intro sys_inv_store request_respects) auto
qed

section \<open>Every step keeps the invariant\<close>

lemma lease_inv_idle:
  "pd_call d = None \<Longrightarrow> \<not> confirmed (pd_r d) \<Longrightarrow> lease_inv K now m p d"
  by (simp add: lease_inv_def)

lemma gate_fine_settled:
  assumes "pod.settled (su_cfg K p) r r' w'" and "rw_holder r' = holder_of K p" and "pd_up d"
    and "pd_call d \<noteq> None \<longrightarrow> \<not> pd_done d" and "pd_r d = r'" and "pd_w d = fst w'"
  shows "gate_fine K p d"
  using assms by (auto simp: gate_fine_def pod.settled_def pod.gate_inv_def pod_gated_def pod_ok_def)

lemma gate_fineD:
  assumes "gate_fine K p d" and "pd_up d"
  shows "pod.gate_inv (su_cfg K p) (pd_r d) (pd_w d, n)" and "rw_holder (pd_r d) = holder_of K p"
    and "pod_ok (pd_w d, n)"
  using assms by (auto simp: gate_fine_def pod.gate_inv_def pod_gated_def pod_ok_def)

lemma sys_invD:
  assumes "sys_inv K st" and "sy_pod st p = d"
  shows "lease_inv K (sy_now st) (mem_view (sy_store st)) p d" and "gate_fine K p d"
  using assms by (auto simp: sys_inv_def)

lemma readingsD:
  "readings K p t t' f \<Longrightarrow> t \<le> t'" "readings K p t t' f \<Longrightarrow> int (f k) - su_off K p \<le> t'"
  by (auto simp: readings_def)

text \<open>Steps of a pod that send nothing: \<open>st\<lparr>sy_now := t\<rparr>\<close> is the state with the requests as they were.\<close>

lemma sys_inv_quiet:
  assumes "sys_inv K st" and "sy_now st \<le> t"
    and "lease_inv K t (mem_view (sy_store st)) p d" and "gate_fine K p d"
    and "pd_done (sy_pod st p) \<Longrightarrow> pd_done d"
  shows "sys_inv K (put_pod p d (st\<lparr>sy_now := t\<rparr>))"
  using sys_inv_pod [OF assms, of "sy_flight st" 0 "ReqAcquire (holder_of K p)"] by (simp add: subset_insertI)

lemma sys_inv_instant:
  assumes "sys_inv K st" and "lease_inv K (sy_now st) (mem_view (sy_store st)) p d" and "gate_fine K p d"
    and "pd_done (sy_pod st p) \<Longrightarrow> pd_done d"
  shows "sys_inv K (put_pod p d st)"
proof -
  have "st\<lparr>sy_now := sy_now st\<rparr> = st" by simp
  with sys_inv_quiet [OF assms(1) order_refl assms(2-4)] show ?thesis by simp
qed

lemma inv_start:
  assumes "sys_inv K st" and d: "sy_pod st p = d" and "\<not> pd_done d"
    and l: "loadHandoff (env_of K p f c) (su_cfg K p) NewRenewer (pd_w d, 0) = (r, w1)"
    and h: "sc_Hold (env_of K p f c) w1 = (None, w2)"
  shows "sys_inv K (put_pod p (d\<lparr>pd_up := True, pd_r := r, pd_w := fst w2, pd_call := None\<rparr>) st)"
proof -
  have ok: "pod_ok w1"
    using pod.loadHandoff_ok [OF l] sys_invD(2) [OF assms(1,2)] by (simp add: gate_fine_def pod_ok_def)
  have "pod_ok w2 \<and> pod_gated (su_cfg K p) w2"
    using pod.HoldD [OF h ok] by simp
  then show ?thesis
    using loadHandoff_fields [OF l] assms(1,3) d
    by (intro sys_inv_instant)
      (auto simp: lease_inv_def confirmed_def gate_fine_def pod_ok_def pod_gated_def)
qed

lemma inv_begin_held:
  assumes "sys_inv K st" and d: "sy_pod st p = d" and "idle d" and t: "readings K p (sy_now st) t f"
    and b: "held_begin (env_of K p f c) (su_cfg K p) (pd_r d) (pd_w d, 0) = Inr (started, deadline, w)"
  shows "sys_inv K
    (put_pod p (d\<lparr>pd_w := fst w, pd_seq := Suc (pd_seq d),
        pd_call := Some \<lparr>ca_started = started, ca_deadline = deadline, ca_reply = None\<rparr>\<rparr>)
      (st\<lparr>sy_now := t, sy_flight := insert (p, n, ReqRenew (rw_holder (pd_r d)) (rw_token (pd_r d))) (sy_flight st)\<rparr>))"
proof -
  have w: "started = int (f 0)" "fst w = pd_w d" using held_begin_script(1) [OF b] by auto
  have g: "gate_fine K p d" and li: "lease_inv K t (mem_view (sy_store st)) p d"
    using sys_invD(2) [OF assms(1) d] lease_inv_later [OF sys_invD(1) [OF assms(1) d] readingsD(1) [OF t]]
    by simp_all
  have up: "pd_up d" "\<not> pd_done d" using assms(3) by (auto simp: idle_def)
  show ?thesis
    using g li up gate_fineD(2) [OF g up(1)] readingsD(2) [OF t, of 0]
    by (intro sys_inv_pod [OF assms(1) readingsD(1) [OF t]])
      (auto simp: lease_inv_def gate_fine_def w d)
qed

lemma inv_lost:
  assumes "sys_inv K st" and d: "sy_pod st p = d" and "pd_up d" and "pd_call d = None" and t: "sy_now st \<le> t"
    and l: "lose (env_of K p f c) r0 (pd_w d, k) = (r, w)" and "rw_holder r0 = rw_holder (pd_r d)"
  shows "sys_inv K (put_pod p (d\<lparr>pd_r := r, pd_w := fst w\<rparr>) (st\<lparr>sy_now := t\<rparr>))"
proof -
  have g: "gate_fine K p d" using sys_invD(2) [OF assms(1,2)] .
  have s: "pod.settled (su_cfg K p) r0 r w"
    by (rule pod.lose_settled [OF l gate_fineD(3) [OF g assms(3)]])
  show ?thesis
    using lose_fields [OF l] gate_fineD(2) [OF g assms(3)] assms
    by (intro sys_inv_quiet [OF assms(1) t] gate_fine_settled [OF s] lease_inv_idle)
      (auto simp: confirmed_def)
qed

lemma inv_begin_free:
  assumes "sys_inv K st" and d: "sy_pod st p = d" and "idle d" and "\<not> rw_held (pd_r d)"
    and t: "readings K p (sy_now st) t f"
    and b: "free_begin (env_of K p f c) (su_cfg K p) (pd_r d) (pd_w d, 0) = (r, started, deadline, w)"
  shows "sys_inv K
    (put_pod p (d\<lparr>pd_r := r, pd_w := fst w, pd_seq := Suc (pd_seq d),
        pd_call := Some \<lparr>ca_started = started, ca_deadline = deadline, ca_reply = None\<rparr>\<rparr>)
      (st\<lparr>sy_now := t, sy_flight := insert (p, n, ReqAcquire (rw_holder r)) (sy_flight st)\<rparr>))"
proof -
  have up: "pd_up d" "\<not> pd_done d" using assms(3) by (auto simp: idle_def)
  have g: "gate_fine K p d" using sys_invD(2) [OF assms(1,2)] .
  obtain e w1 where e: "started = int (f 1)" "sc_Hold (env_of K p f c) (pd_w d, 0) = (e, w1)"
    "r = lognote_err ''re-enforce while gated failed'' e (pd_r d)" "fst w = fst w1"
    using free_begin_script [OF b] by blast
  have w1: "pod_ok w1" "e = None \<longrightarrow> pod_gated (su_cfg K p) w1"
    using pod.HoldD [OF e(2) gate_fineD(3) [OF g up(1)]] by auto
  have "gate_fine K p (d\<lparr>pd_r := r, pd_w := fst w, pd_seq := Suc (pd_seq d), pd_call := Some a\<rparr>)" for a
    using w1 up gate_fineD(2) [OF g up(1)] assms(4)
    by (cases e) (auto simp: gate_fine_def e(3,4) pod_ok_def pod_gated_def enforce_failed_def)
  then show ?thesis
    using up assms(4) gate_fineD(2) [OF g up(1)] readingsD(2) [OF t, of 1] d
    by (intro sys_inv_pod [OF assms(1) readingsD(1) [OF t]])
      (auto simp: lease_inv_def e(1,3) confirmed_def)
qed

lemma inv_answered:
  assumes "sys_inv K st" and "sane K" and fl: "(p, n, q) \<in> sy_flight st" and d: "sy_pod st p = d"
    and a: "pd_call d = Some a"
  shows "sys_inv K
    (put_pod p (d\<lparr>pd_call := Some (a\<lparr>ca_reply := Some (reply_of K (sy_now st) p q (sy_store st))\<rparr>)\<rparr>)
      (st\<lparr>sy_store := serve K p q st, sy_flight := sy_flight st - {(p, n, q)}\<rparr>))"
proof -
  let ?st = "st\<lparr>sy_store := serve K p q st, sy_flight := sy_flight st - {(p, n, q)}\<rparr>"
  let ?d = "d\<lparr>pd_call := Some (a\<lparr>ca_reply := Some (reply_of K (sy_now st) p q (sy_store st))\<rparr>)\<rparr>"
  have st: "sys_inv K ?st" by (rule sys_inv_serve [OF assms(1-3)])
  have rq: "req_ok K st p q" and inv: "mem_inv (sy_store st)" using assms(1) fl by (auto simp: sys_inv_def)
  have li: "lease_inv K (sy_now st) (mem_view (serve K p q st)) p d" and g: "gate_fine K p d"
    using sys_invD [OF st, of p d] d by simp_all
  have nd: "\<not> pd_done d" using g a by (simp add: gate_fine_def)
  have started: "ca_started a - su_off K p \<le> sy_now st" "0 \<le> ca_started a"
    using li nd a by (auto simp: lease_inv_def)
  have "lease_inv K (sy_now st) (mem_view (serve K p q st)) p ?d"
    using li nd a started reply_claim [OF assms(2) rq inv _ _ started(1), of _ "su_gc K"]
    by (auto simp: lease_inv_def serve_def algebra_simps)
  moreover have "gate_fine K p ?d" using g a by (simp add: gate_fine_def)
  ultimately show ?thesis
    using sys_inv_quiet [OF st, of "sy_now st" p ?d] d by simp
qed

lemma inv_finish:
  assumes "sys_inv K st" and "sane K" and d: "sy_pod st p = d" and a: "pd_call d = Some a"
    and t: "readings K p (sy_now st) t f"
    and x: "ca_reply a = Some x \<or> x = Inl err"
    and g': "gate_fine K p (d\<lparr>pd_r := r, pd_w := fst w, pd_call := None\<rparr>)"
    and c: "\<not> rw_held r \<or>
      rw_held r = rw_held (pd_r d) \<and> rw_expiresAt r = rw_expiresAt (pd_r d) \<and> rw_token r = rw_token (pd_r d) \<or>
      (\<exists>res. x = Inr res \<and> cr_Acquired res \<and> rw_token r = cr_FencingToken res \<and>
             rw_expiresAt r = time_Add (ca_started a) (ttl_of K p))"
  shows "sys_inv K (put_pod p (d\<lparr>pd_r := r, pd_w := fst w, pd_call := None\<rparr>) (st\<lparr>sy_now := t\<rparr>))"
proof -
  have g: "gate_fine K p d" and li: "lease_inv K t (mem_view (sy_store st)) p d"
    using sys_invD(2) [OF assms(1) d] lease_inv_later [OF sys_invD(1) [OF assms(1) d] readingsD(1) [OF t]]
    by simp_all
  have up: "pd_up d" "\<not> pd_done d" using g a by (auto simp: gate_fine_def)
  have "lease_inv K t (mem_view (sy_store st)) p (d\<lparr>pd_r := r, pd_w := fst w, pd_call := None\<rparr>)"
    using c li up a x by (auto simp: lease_inv_def confirmed_def time_Add_def)
  then show ?thesis
    using up d by (intro sys_inv_quiet [OF assms(1) readingsD(1) [OF t]] g') auto
qed

lemma inv_finish_held:
  assumes "sys_inv K st" and "sane K" and d: "sy_pod st p = d" and a: "pd_call d = Some a" and h: "rw_held (pd_r d)"
    and t: "readings K p (sy_now st) t f" and x: "ca_reply a = Some x \<or> x = Inl err"
    and n: "renew_answer (env_of K p f c) (su_cfg K p) (ca_started a) (ca_deadline a) x (pd_r d) (pd_w d, 0) = (r, w)"
  shows "sys_inv K (put_pod p (d\<lparr>pd_r := r, pd_w := fst w, pd_call := None\<rparr>) (st\<lparr>sy_now := t\<rparr>))"
proof -
  have g: "gate_fine K p d" and li: "lease_inv K (sy_now st) (mem_view (sy_store st)) p d"
    using sys_invD [OF assms(1) d] by simp_all
  have up: "pd_up d" "\<not> pd_done d" using g a by (auto simp: gate_fine_def)
  have st: "0 \<le> ca_started a" "0 < ttl_of K p" using li a up assms(2) by (auto simp: lease_inv_def sane_def)
  have s: "pod.settled (su_cfg K p) (pd_r d) r w"
    by (rule pod.renew_answer_settled [OF n gate_fineD(1) [OF g up(1)] h st])
  have "gate_fine K p (d\<lparr>pd_r := r, pd_w := fst w, pd_call := None\<rparr>)"
    using up renew_answer_cases [OF n] gate_fineD(2) [OF g up(1)] by (intro gate_fine_settled [OF s]) auto
  from inv_finish [OF assms(1,2) d a t x this] renew_answer_cases [OF n] show ?thesis by auto
qed

lemma inv_finish_free:
  assumes "sys_inv K st" and "sane K" and d: "sy_pod st p = d" and a: "pd_call d = Some a" and h: "\<not> rw_held (pd_r d)"
    and t: "readings K p (sy_now st) t f" and x: "ca_reply a = Some x \<or> x = Inl err"
    and n: "acquire_answer (env_of K p f c) (su_cfg K p) (ca_started a) (ca_deadline a) x (pd_r d) (pd_w d, 0) = (r, w)"
  shows "sys_inv K (put_pod p (d\<lparr>pd_r := r, pd_w := fst w, pd_call := None\<rparr>) (st\<lparr>sy_now := t\<rparr>))"
proof -
  have g: "gate_fine K p d" and li: "lease_inv K (sy_now st) (mem_view (sy_store st)) p d"
    using sys_invD [OF assms(1) d] by simp_all
  have up: "pd_up d" "\<not> pd_done d" using g a by (auto simp: gate_fine_def)
  have st: "0 \<le> ca_started a" "0 < ttl_of K p" using li a up assms(2) by (auto simp: lease_inv_def sane_def)
  have "gate_fine K p (d\<lparr>pd_r := r, pd_w := fst w, pd_call := None\<rparr>)"
    using pod.acquire_answer_settled [OF n gate_fineD(3) [OF g up(1)] st] g up h acquire_answer_cases [OF n]
    by (auto simp: gate_fine_def pod_ok_def pod_gated_def confirmed_def enforce_failed_def)
  from inv_finish [OF assms(1,2) d a t x this] acquire_answer_cases [OF n] show ?thesis by auto
qed

lemma sys_inv_stop:
  assumes "sys_inv K st" and d: "sy_pod st p = d" and "idle d"
  shows "sys_inv K
    (put_pod p (d\<lparr>pd_done := True\<rparr>)
      (st\<lparr>sy_flight :=
           (if b then insert (p, 0, ReqRelease (rw_holder (pd_r d)) (rw_token (pd_r d))) (sy_flight st)
            else sy_flight st)\<rparr>))"
proof -
  have g: "gate_fine K p d" using sys_invD(2) [OF assms(1) d] .
  have "sys_inv K (put_pod p (d\<lparr>pd_done := True\<rparr>) (st\<lparr>sy_now := sy_now st, sy_flight :=
      (if b then insert (p, 0, ReqRelease (rw_holder (pd_r d)) (rw_token (pd_r d))) (sy_flight st)
       else sy_flight st)\<rparr>))"
    using g gate_fineD(2) [OF g] assms(3)
    by (intro sys_inv_pod [OF assms(1) order_refl, where n = 0 and q = "ReqRelease (rw_holder (pd_r d)) (rw_token (pd_r d))"])
      (auto simp: lease_inv_def gate_fine_def idle_def)
  then show ?thesis by simp
qed

lemma sys_step_inv:
  assumes "sys_step K st st'" and inv: "sys_inv K st" and "sane K"
  shows "sys_inv K st'"
  using assms(1)
proof cases
  case (pass t)
  then show ?thesis
    using inv req_ok_mono [of K st] by (fastforce simp: sys_inv_def intro: lease_inv_later)
next
  case (init_request p)
  then show ?thesis
    using inv req_ok_mono [of K st] by (fastforce simp: sys_inv_def)
next
  case (start p d f c r w1 w2)
  then show ?thesis using inv_start [OF inv] by simp
next
  case (begin_held p d t f c started deadline w)
  then show ?thesis using inv_begin_held [OF inv] by simp
next
  case (begin_lost p d t f c r w)
  then show ?thesis
    using inv_lost [OF inv begin_lost(2) _ _ readingsD(1) [OF begin_lost(5)] held_begin_script(2) [OF begin_lost(6)]]
    by (simp add: idle_def)
next
  case (begin_free p d t f c r started deadline w)
  then show ?thesis using inv_begin_free [OF inv] by simp
next
  case (serve_lost p n q)
  then show ?thesis using sys_inv_serve [OF inv assms(3)] by simp
next
  case (serve_answered p n q d a)
  then show ?thesis using inv_answered [OF inv assms(3)] by simp
next
  case (finish_held p d a t f x err c r w)
  then show ?thesis using inv_finish_held [OF inv assms(3)] by simp
next
  case (finish_free p d a t f x err c r w)
  then show ?thesis using inv_finish_free [OF inv assms(3)] by simp
next
  case (expire p d f c r w)
  have "lose (env_of K p f c) (lognote ''local lease deadline reached; enforcing'' (pd_r d)) (pd_w d, 0) = (r, w)"
    using expire(4,6) by (simp add: run_step_def)
  from inv_lost [OF inv expire(2) _ _ order_refl this] expire(1,3) show ?thesis by (simp add: idle_def)
next
  case (stop p d)
  then show ?thesis using sys_inv_stop [OF inv, of p d] by simp
next
  case (other op)
  then show ?thesis
    using sys_inv_store [OF inv assms(3) other(3) _ subset_refl] foreign_respects [OF other(2)] by simp
qed

lemma sys_reach_inv: "sys_reach K st \<Longrightarrow> sane K \<Longrightarrow> sys_inv K st"
proof (induction rule: sys_reach.induct)
  case (reach_init st)
  then show ?case
    by (auto simp: sys_init_def sys_inv_def lease_inv_def gate_fine_def confirmed_def NewRenewer_def)
next
  case (reach_step st st')
  then show ?case using sys_step_inv by blast
qed

section \<open>At most one\<close>

text \<open>
  A pod is active when its sidecar is up, its workload may run, no attempt to close the gate has
  failed, and its local deadline has not passed.
\<close>

definition active :: "'p fleet \<Rightarrow> 'p sys \<Rightarrow> 'p \<Rightarrow> bool" where
  "active K st p \<longleftrightarrow>
     (let d = sy_pod st p in
      pd_up d \<and> \<not> pd_done d \<and> \<not> gated (cf_StateDir (su_cfg K p)) (pd_w d) \<and>
      \<not> enforce_failed (rw_log (pd_r d)) \<and> sy_now st \<le> rw_expiresAt (pd_r d) - su_off K p)"

lemma active_holds:
  assumes "sys_inv K st" and "active K st p"
  shows "holds_until (rw_expiresAt (pd_r (sy_pod st p)) - su_off K p) (su_key K) (holder_of K p)
    (rw_token (pd_r (sy_pod st p))) (mem_view (sy_store st))"
  using assms(2) sys_invD [OF assms(1) refl, of p]
  by (auto simp: active_def gate_fine_def lease_inv_def claim_def Let_def)

text \<open>
  C34. At most one pod is active.  In every state that the server, the network and the sidecars
  can reach, with distinct holders and a time to live of whole seconds, a pod whose workload may
  run before its local deadline has the lease in the store, under the token it reports, until
  that deadline; and no other pod is in this position.  Clocks need not agree: they only have to
  run at the same speed.  Two kinds of pods are not counted as active: those whose sidecar has shut
  down, since it then releases the lease without closing the gate and relies on the kubelet to stop
  the workload's containers before a native sidecar; and those where an attempt to close the gate
  has failed, which the sidecar has then logged.
\<close>

theorem at_most_one_pod_active:
  assumes "sys_reach K st" and "sane K" and "active K st p"
  shows "holds_until (rw_expiresAt (pd_r (sy_pod st p)) - su_off K p) (su_key K) (holder_of K p)
      (rw_token (pd_r (sy_pod st p))) (mem_view (sy_store st)) \<and>
    (\<forall>q. active K st q \<longrightarrow> q = p)"
proof (intro conjI allI impI)
  have inv: "sys_inv K st" by (rule sys_reach_inv [OF assms(1,2)])
  show p: "holds_until (rw_expiresAt (pd_r (sy_pod st p)) - su_off K p) (su_key K) (holder_of K p)
      (rw_token (pd_r (sy_pod st p))) (mem_view (sy_store st))"
    by (rule active_holds [OF inv assms(3)])
  fix q assume "active K st q"
  from active_holds [OF inv this] p have "holder_of K q = holder_of K p"
    by (auto simp: holds_until_def)
  with assms(2) show "q = p" by (auto simp: sane_def dest: injD)
qed

text \<open>Two pods; the first one starts, asks for the lease, gets it and opens its gate.\<close>

definition pair_cfg :: "bool \<Rightarrow> Config" where
  "pair_cfg b = (sample_config (if b then ''u1'' else ''u2''))\<lparr>cf_LeaseNamespace := ''ns''\<rparr>"

definition pair :: "bool fleet" where
  "pair = \<lparr>su_cfg = pair_cfg, su_off = (\<lambda>b. if b then 0 else 5), su_key = key1, su_V = rfc1123,
           su_gc = NewTTLEnforcer 0 0\<rparr>"

definition pair_holder :: string where
  "pair_holder = Config_Holder (pair_cfg True)"

definition pair_reply :: client_result where
  "pair_reply = \<lparr>cr_Acquired = True, cr_Holder = pair_holder, cr_FencingToken = 1,
     cr_ExpiresAt = 100 + 30 * second, cr_AcquiredAt = 100\<rparr>"

definition pair_written :: fsys where
  "pair_written = snd (WriteAcquired [] pair_holder 1 (pw_fs sample_pod))"

definition pair_open :: fsys where
  "pair_open = snd (MarkHealthy [] pair_written)"

definition pod0 :: pod where
  "pod0 = \<lparr>pd_up = False, pd_done = False, pd_r = NewRenewer, pd_w = sample_pod, pd_call = None, pd_seq = 0\<rparr>"

definition pair0 :: "bool sys" where
  "pair0 = \<lparr>sy_now = 100, sy_store = NewMemStore, sy_flight = {}, sy_pod = (\<lambda>b. pod0)\<rparr>"

definition pair_r :: Renewer where
  "pair_r = lognote ''no matching lease handoff'' (NewRenewer\<lparr>rw_holder := pair_holder\<rparr>)"

definition pair_got :: Renewer where
  "pair_got = pair_r\<lparr>rw_token := 1, rw_expiresAt := 100 + 30 * second, rw_held := True\<rparr>"

lemma pair_files:
  "WriteAcquired [] pair_holder 1 (pw_fs sample_pod) = (None, pair_written)"
  "MarkHealthy [] pair_written = (None, pair_open)"
  "fs_lookup pair_open (healthyPath []) \<noteq> None"
  "MarkUnhealthy [] (pw_fs sample_pod) = (None, pw_fs sample_pod)"
  "ReadHolder [] (pw_fs sample_pod) = (Inl ErrNotExist, pw_fs sample_pod)"
  "ReadToken [] (pw_fs sample_pod) = (Inl ErrNotExist, pw_fs sample_pod)"
  unfolding prod_eq_iff by code_simp+

lemma pair_sel [simp]:
  "su_cfg pair = pair_cfg" "su_off pair True = 0" "su_key pair = key1" "su_V pair = rfc1123"
  "cf_StateDir (pair_cfg b) = []" "cf_Enforce (pair_cfg b) = []" "cf_TTL (pair_cfg b) = 30 * second"
  "cf_HeartbeatInterval (pair_cfg b) = 0" "cf_LeaseNamespace (pair_cfg b) = ''ns''" "cf_LeaseName (pair_cfg b) = ''job''"
  by (simp_all add: pair_def pair_cfg_def sample_config_def)

lemma pair_sane: "sane pair"
proof -
  have "Config_Holder (pair_cfg True) \<noteq> Config_Holder (pair_cfg False)" "Config_Holder (pair_cfg True) \<noteq> []"
    "Config_Holder (pair_cfg False) \<noteq> []"
    by code_simp+
  then have "inj (holder_of pair)" "Config_Holder (pair_cfg b) \<noteq> []" for b
    by (auto simp: inj_def) (metis (full_types), metis (full_types), cases b, auto)
  then show ?thesis by (simp add: sane_def pair_def key1_def)
qed

lemma pair_reply_is: "reply_of pair 100 True (ReqAcquire pair_holder) NewMemStore = Inr pair_reply"
  by code_simp


abbreviation pair_d :: "nat \<Rightarrow> call option \<Rightarrow> pod" where
  "pair_d n a \<equiv> \<lparr>pd_up = True, pd_done = False, pd_r = pair_r, pd_w = sample_pod, pd_call = a, pd_seq = n\<rparr>"

definition pair_end :: "bool sys" where
  "pair_end =
     \<lparr>sy_now = 101, sy_store = serve pair True (ReqAcquire pair_holder) pair0, sy_flight = {},
      sy_pod = (\<lambda>b. pod0)(True := \<lparr>pd_up = True, pd_done = False, pd_r = pair_got,
        pd_w = sample_pod\<lparr>pw_fs := pair_open\<rparr>, pd_call = None, pd_seq = 1\<rparr>)\<rparr>"

lemma pair_reach: "sys_reach pair pair_end"
proof -
  let ?f = "\<lambda>k::nat. 100 :: nat" and ?c = "\<lambda>k::nat. False"
  note sels = pod0_def pair0_def on_pod_def on_files_def on_net_def newEnforcer_def probe_Hold_def probe_Release_def
    EnforceSignal_def pair_files script_def put_pod_def
  have r: "rw_holder pair_r = pair_holder" "\<not> rw_held pair_r" by (simp_all add: pair_r_def NewRenewer_def)
  have 0: "sys_reach pair pair0"
    by (rule reach_init) (simp add: sys_init_def pair0_def pod0_def mem_inv_def keyed_def NewMemStore_def
        world_ok_def sample_pod_def fs_ok_def)
  let ?s1 = "put_pod True (pair_d 0 None) pair0"
  have l: "loadHandoff (env_of pair True ?f ?c) (su_cfg pair True) NewRenewer (pd_w pod0, 0) = (pair_r, sample_pod, 0)"
    by (simp add: loadHandoff_def sels pair_r_def pair_holder_def NewRenewer_def)
  have h: "sc_Hold (env_of pair True ?f ?c) (sample_pod, 0) = (None, sample_pod, 0)"
    by (simp add: sels)
  have 1: "sys_reach pair ?s1"
    using reach_step [OF 0 start [OF _ _ l h]] by (simp add: pod0_def pair0_def)
  let ?a = "\<lparr>ca_started = 100, ca_deadline = 100, ca_reply = None\<rparr>"
  let ?s2 = "put_pod True (pair_d 1 (Some ?a)) (pair0\<lparr>sy_flight := {(True, 1, ReqAcquire pair_holder)}\<rparr>)"
  have b: "free_begin (env_of pair True ?f ?c) (su_cfg pair True) pair_r (sample_pod, 0) = (pair_r, 100, 100, sample_pod, 2)"
    by (simp add: free_begin_def tickCtx_def sels lognote_err_def r time_Add_def)
  have 2: "sys_reach pair ?s2"
    using reach_step [OF 1 begin_free [where p = True and t = 100 and f = ?f and c = ?c, OF refl]] b r
    by (simp add: idle_def readings_def pair0_def put_pod_def)
  let ?s = "serve pair True (ReqAcquire pair_holder) pair0"
  let ?s3 = "put_pod True (pair_d 1 (Some (?a\<lparr>ca_reply := Some (Inr pair_reply)\<rparr>))) (pair0\<lparr>sy_store := ?s\<rparr>)"
  have 3: "sys_reach pair ?s3"
    using reach_step [OF 2 serve_answered [where p = True and n = 1 and q = "ReqAcquire pair_holder", OF _ refl]] pair_reply_is
    by (simp add: pair0_def put_pod_def serve_def)
  let ?g = "\<lambda>k::nat. 101 :: nat"
  have x: "acquire_answer (env_of pair True ?g ?c) (su_cfg pair True) 100 100 (Inr pair_reply) pair_r (sample_pod, 0) =
      (pair_got, sample_pod\<lparr>pw_fs := pair_open\<rparr>, 2)"
    by (simp add: acquire_answer_def acquire_too_late_def sels lognote_err_def r time_Add_def time_Before_def pair_reply_def
        pair_got_def)
  show ?thesis
    using reach_step [OF 3 finish_free [where p = True and t = 101 and f = ?g and c = ?c and x = "Inr pair_reply"
        and a = "?a\<lparr>ca_reply := Some (Inr pair_reply)\<rparr>", OF refl]] x r
    by (simp add: readings_def pair0_def put_pod_def pair_end_def)
qed

theorem at_most_one_pod_active_witness:
  "sys_reach pair pair_end \<and> active pair pair_end True \<and> \<not> active pair pair_end False"
proof -
  have "rw_log pair_got = [''no matching lease handoff'']" "rw_expiresAt pair_got = 100 + 30 * second"
    by (simp_all add: pair_got_def pair_r_def NewRenewer_def)
  then have a: "active pair pair_end True"
    using pair_files(3) by (simp add: active_def pair_end_def gated_def enforce_failed_def)
  from at_most_one_pod_active [OF pair_reach pair_sane this] a pair_reach show ?thesis by blast
qed

end
