(* ===== verification/Webhook_Inject.thy ===== *)
theory Webhook_Inject
  imports Acquire_Config Acquire_State
begin

text \<open>
  The admission webhook (\<open>internal/webhook/contract.go\<close>, \<open>inject.go\<close>, \<open>validate.go\<close>): the
  configuration of the injector and its validation, the reserved state volume, the checks before
  injection, the mutation of an opted-in pod, the environment handed to the helper, and the
  validation of the final pod.

  The Kubernetes objects are records with the fields that the code reads or writes; label and
  annotation maps are partial functions.  The mutating operations return the changed pod.  Counters
  of refusals are not represented.
\<close>

section \<open>Durations as text (time.Duration.String)\<close>

definition pad_digits :: "nat \<Rightarrow> nat \<Rightarrow> string" where
  "pad_digits prec v = replicate (prec - length (format_nat v)) CHR ''0'' @ format_nat v"

definition fmtFrac :: "nat \<Rightarrow> nat \<Rightarrow> string" where
  "fmtFrac prec v =
     (let ds = rev (dropWhile (\<lambda>c. c = CHR ''0'') (rev (if prec = 0 then [] else pad_digits prec (v mod 10 ^ prec))))
      in if ds = [] then [] else CHR ''.'' # ds)"

definition duration_abs_String :: "nat \<Rightarrow> string" where
  "duration_abs_String u =
     (if u < 10 ^ 9 then
        (if u < 10 ^ 3 then format_nat u @ ''ns''
         else if u < 10 ^ 6 then format_nat (u div 10 ^ 3) @ fmtFrac 3 u @ [CHR 0xC2, CHR 0xB5] @ ''s''
         else format_nat (u div 10 ^ 6) @ fmtFrac 6 u @ ''ms'')
      else
        (let s = u div 10 ^ 9; m = s div 60; h = m div 60
         in (if h > 0 then format_nat h @ ''h'' else []) @
            (if m > 0 then format_nat (m mod 60) @ ''m'' else []) @
            format_nat (s mod 60) @ fmtFrac 9 u @ ''s''))"

definition duration_String :: "duration \<Rightarrow> string" where
  "duration_String d =
     (if d = 0 then ''0s''
      else if d < 0 then CHR ''-'' # duration_abs_String (nat (- d))
      else duration_abs_String (nat d))"

section \<open>The contract (contract.go)\<close>

definition LabelInject :: string where "LabelInject = ''berth.skaphos.io/inject''"
definition InjectValueAcquire :: string where "InjectValueAcquire = ''acquire''"
definition AnnLeaseName :: string where "AnnLeaseName = ''berth.skaphos.io/lease-name''"
definition AnnLeaseNamespace :: string where "AnnLeaseNamespace = ''berth.skaphos.io/lease-namespace''"
definition AnnMode :: string where "AnnMode = ''berth.skaphos.io/mode''"
definition AnnHolderIdentity :: string where "AnnHolderIdentity = ''berth.skaphos.io/holder-identity''"
definition AnnTTLSeconds :: string where "AnnTTLSeconds = ''berth.skaphos.io/ttl-seconds''"
definition AnnHeartbeatSeconds :: string where "AnnHeartbeatSeconds = ''berth.skaphos.io/heartbeat-interval-seconds''"
definition AnnReleaseOnShutdown :: string where "AnnReleaseOnShutdown = ''berth.skaphos.io/release-on-shutdown''"
definition AnnEnforce :: string where "AnnEnforce = ''berth.skaphos.io/enforce''"
definition AnnEnforceGraceSeconds :: string where "AnnEnforceGraceSeconds = ''berth.skaphos.io/enforce-grace-seconds''"
definition AnnSignalTarget :: string where "AnnSignalTarget = ''berth.skaphos.io/signal-target''"
definition AnnInjected :: string where "AnnInjected = ''berth.skaphos.io/injected''"
definition VolumeName :: string where "VolumeName = ''berth-state''"
definition InitContainerName :: string where "InitContainerName = ''berth-acquire''"
definition SidecarContainerName :: string where "SidecarContainerName = ''berth-sidecar''"
definition AuthTokenVolume :: string where "AuthTokenVolume = ''berth-auth-token''"
definition AuthCABundleVolume :: string where "AuthCABundleVolume = ''berth-auth-ca''"
definition subresourceEphemeralContainers :: string where
  "subresourceEphemeralContainers = ''ephemeralcontainers''"

lemmas ann_names =
  AnnLeaseName_def AnnLeaseNamespace_def AnnMode_def AnnHolderIdentity_def AnnTTLSeconds_def
  AnnHeartbeatSeconds_def AnnReleaseOnShutdown_def AnnEnforce_def AnnEnforceGraceSeconds_def
  AnnSignalTarget_def AnnInjected_def

lemmas volume_names = VolumeName_def AuthTokenVolume_def AuthCABundleVolume_def

datatype RejectReason = ReasonWritableStateMount | ReasonWritableStateMountEphemeral

section \<open>Pods\<close>

record EnvVar =
  ev_Name :: string
  ev_Value :: string
  ev_FieldRef :: "string option"

record VolumeMount =
  vm_Name :: string
  vm_MountPath :: string
  vm_ReadOnly :: bool
  vm_SubPath :: string
  vm_SubPathExpr :: string

datatype volume_source =
    EmptyDir
  | SecretVolume string "(string \<times> string) list"
  | ConfigMapVolume string "(string \<times> string) list"
  | OtherVolume string

record Volume =
  vo_Name :: string
  vo_Source :: volume_source

datatype probe_handler = ExecProbe "string list" | OtherProbe string

record Probe =
  pb_Handler :: probe_handler
  pb_InitialDelaySeconds :: int
  pb_PeriodSeconds :: int
  pb_TimeoutSeconds :: int
  pb_SuccessThreshold :: int
  pb_FailureThreshold :: int
  pb_TerminationGracePeriodSeconds :: "int option"

record Container =
  co_Name :: string
  co_Image :: string
  co_ImagePullPolicy :: string
  co_Args :: "string list"
  co_Env :: "EnvVar list"
  co_VolumeMounts :: "VolumeMount list"
  co_RestartPolicy :: "string option"
  co_LivenessProbe :: "Probe option"
  co_StartupProbe :: "Probe option"

record OwnerReference =
  ow_Kind :: string
  ow_Name :: string
  ow_Controller :: "bool option"

record Pod =
  po_Namespace :: string
  po_Labels :: "string \<rightharpoonup> string"
  po_Annotations :: "string \<rightharpoonup> string"
  po_OwnerReferences :: "OwnerReference list"
  po_Containers :: "Container list"
  po_InitContainers :: "Container list"
  po_EphemeralContainers :: "Container list"
  po_Volumes :: "Volume list"
  po_ShareProcessNamespace :: "bool option"

text \<open>\<open>m[k]\<close> of a Go map: the zero value when the key is absent.\<close>

definition at_key :: "(string \<rightharpoonup> string) \<Rightarrow> string \<Rightarrow> string" where
  "at_key m k = (case m k of None \<Rightarrow> [] | Some v \<Rightarrow> v)"

section \<open>The configuration of the injector\<close>

record InjectorConfig =
  ic_HelperImage :: string
  ic_ImagePullPolicy :: string
  ic_APIServer :: string
  ic_APIKeyFile :: string
  ic_CABundleFile :: string
  ic_ServerName :: string
  ic_ClusterID :: string
  ic_InsecureSkipVerify :: bool
  ic_APIKeySecretName :: string
  ic_APIKeySecretKey :: string
  ic_CABundleConfigMapName :: string
  ic_CABundleKey :: string
  ic_ControlPlaneNamespaces :: "string list"
  ic_DefaultTTLSeconds :: int
  ic_DefaultMode :: string
  ic_DefaultEnforce :: string
  ic_StateDir :: string

definition path_IsAbs :: "string \<Rightarrow> bool" where
  "path_IsAbs p \<longleftrightarrow> HasPrefix p ''/''"

definition validateMountableFile :: "string \<Rightarrow> string \<Rightarrow> goerr option" where
  "validateMountableFile field p =
     (if \<not> path_IsAbs p then Some (ErrText (''injection webhook: '' @ field @ '' must be an absolute path''))
      else if path_Clean p \<noteq> p then Some (ErrText (''injection webhook: '' @ field @ '' must be a clean path''))
      else if path_Dir p = ''/'' then Some (ErrText (''injection webhook: '' @ field @ '' must have a non-root parent directory''))
      else None)"

definition check_files :: "InjectorConfig \<Rightarrow> goerr option" where
  "check_files c =
     (case (if ic_APIKeyFile c \<noteq> [] then validateMountableFile ''api-key file'' (ic_APIKeyFile c) else None) of
        Some err \<Rightarrow> Some err
      | None \<Rightarrow>
          (case (if ic_CABundleFile c \<noteq> [] then validateMountableFile ''ca-bundle file'' (ic_CABundleFile c) else None) of
             Some err \<Rightarrow> Some err
           | None \<Rightarrow>
               (let stateDir = path_Clean (ic_StateDir c) in
                if ic_APIKeyFile c \<noteq> [] \<and> path_Dir (ic_APIKeyFile c) = stateDir
                then Some (ErrText ''injection webhook: api-key file directory must differ from state-dir'')
                else if ic_CABundleFile c \<noteq> [] \<and> path_Dir (ic_CABundleFile c) = stateDir
                then Some (ErrText ''injection webhook: ca-bundle file directory must differ from state-dir'')
                else if ic_APIKeyFile c \<noteq> [] \<and> ic_CABundleFile c \<noteq> [] \<and>
                        path_Dir (ic_APIKeyFile c) = path_Dir (ic_CABundleFile c)
                then Some (ErrText ''injection webhook: api-key and ca-bundle files must be in different directories'')
                else None)))"

definition InjectorConfig_Validate :: "InjectorConfig \<Rightarrow> goerr option" where
  "InjectorConfig_Validate c =
     (if ic_HelperImage c = [] then Some (ErrText ''injection webhook: helper image is required'')
      else if ic_ImagePullPolicy c \<notin> {[], ''Always'', ''IfNotPresent'', ''Never''}
      then Some (ErrText ''injection webhook: invalid helper image pull policy'')
      else if ic_DefaultMode c \<notin> {ModeStartupGate, ModeRuntimeSingleton}
      then Some (ErrText ''injection webhook: invalid default mode'')
      else if ic_DefaultEnforce c \<notin> {EnforceProbe, EnforceSignal}
      then Some (ErrText ''injection webhook: invalid default enforce'')
      else if ic_DefaultTTLSeconds c \<le> 0 \<or> ic_DefaultTTLSeconds c > 2147483647
      then Some (ErrText ''injection webhook: default ttl-seconds must be between 1 and 2147483647 seconds'')
      else if \<not> path_IsAbs (ic_StateDir c) then Some (ErrText ''injection webhook: state-dir must be an absolute path'')
      else if (ic_APIKeyFile c = []) \<noteq> (ic_APIKeySecretName c = [])
      then Some (ErrText ''injection webhook: api-key file and secret must be set together'')
      else if (ic_CABundleFile c = []) \<noteq> (ic_CABundleConfigMapName c = [])
      then Some (ErrText ''injection webhook: ca-bundle file and configmap must be set together'')
      else check_files c)"

definition withDefaults :: "InjectorConfig \<Rightarrow> InjectorConfig" where
  "withDefaults c =
     c\<lparr>ic_ImagePullPolicy := (if ic_ImagePullPolicy c = [] then ''IfNotPresent'' else ic_ImagePullPolicy c),
       ic_DefaultMode := (if ic_DefaultMode c = [] then ModeRuntimeSingleton else ic_DefaultMode c),
       ic_DefaultEnforce := (if ic_DefaultEnforce c = [] then EnforceProbe else ic_DefaultEnforce c),
       ic_StateDir := (if ic_StateDir c = [] then DefaultStateDir else ic_StateDir c),
       ic_APIKeySecretKey :=
         (if ic_APIKeySecretName c \<noteq> [] \<and> ic_APIKeySecretKey c = [] then ''token'' else ic_APIKeySecretKey c),
       ic_CABundleKey :=
         (if ic_CABundleConfigMapName c \<noteq> [] \<and> ic_CABundleKey c = [] then ''ca.crt'' else ic_CABundleKey c)\<rparr>"

definition NewPodInjector :: "InjectorConfig \<Rightarrow> InjectorConfig" where
  "NewPodInjector c = withDefaults c"

definition SetupWithManager :: "InjectorConfig \<Rightarrow> InjectorConfig outcome" where
  "SetupWithManager c =
     (case InjectorConfig_Validate (NewPodInjector c) of Some err \<Rightarrow> Inl err | None \<Rightarrow> Inr (NewPodInjector c))"

section \<open>The reserved state volume\<close>

definition isInjectorOwnedContainer :: "string \<Rightarrow> bool" where
  "isInjectorOwnedContainer name \<longleftrightarrow> name = InitContainerName \<or> name = SidecarContainerName"

definition rejectStateMount :: "RejectReason \<Rightarrow> string \<Rightarrow> VolumeMount \<Rightarrow> goerr" where
  "rejectStateMount reason container m =
     (case reason of
        ReasonWritableStateMountEphemeral \<Rightarrow>
          ErrText (''cannot attach ephemeral container '' @ container @ '': it mounts the Berth state volume '' @
                   vm_Name m @ '' writably at '' @ vm_MountPath m)
      | ReasonWritableStateMount \<Rightarrow>
          ErrText (''cannot inject: container '' @ container @ '' mounts the Berth state volume '' @
                   vm_Name m @ '' writably at '' @ vm_MountPath m))"

text \<open>The mounts of one container at creation: writable at the state directory is repaired, elsewhere refused.\<close>

fun check_mounts :: "InjectorConfig \<Rightarrow> bool \<Rightarrow> string \<Rightarrow> VolumeMount list \<Rightarrow> VolumeMount list outcome" where
  "check_mounts cfg injected cname [] = Inr []"
| "check_mounts cfg injected cname (m # ms) =
     (if vm_Name m \<noteq> VolumeName \<or> vm_ReadOnly m then map_sum id ((#) m) (check_mounts cfg injected cname ms)
      else if \<not> injected \<and> vm_MountPath m = ic_StateDir cfg
      then map_sum id ((#) (m\<lparr>vm_ReadOnly := True\<rparr>)) (check_mounts cfg injected cname ms)
      else Inl (rejectStateMount ReasonWritableStateMount cname m))"

fun check_containers :: "InjectorConfig \<Rightarrow> bool \<Rightarrow> Container list \<Rightarrow> Container list outcome" where
  "check_containers cfg injected [] = Inr []"
| "check_containers cfg injected (c # cs) =
     (if injected \<and> isInjectorOwnedContainer (co_Name c)
      then map_sum id ((#) c) (check_containers cfg injected cs)
      else
        (case check_mounts cfg injected (co_Name c) (co_VolumeMounts c) of
           Inl err \<Rightarrow> Inl err
         | Inr ms \<Rightarrow> map_sum id ((#) (c\<lparr>co_VolumeMounts := ms\<rparr>)) (check_containers cfg injected cs)))"

fun check_ephemeral :: "bool \<Rightarrow> Container list \<Rightarrow> goerr option" where
  "check_ephemeral injected [] = None"
| "check_ephemeral injected (c # cs) =
     (if injected \<and> isInjectorOwnedContainer (co_Name c) then check_ephemeral injected cs
      else
        (case List.find (\<lambda>m. \<not> (vm_Name m \<noteq> VolumeName \<or> vm_ReadOnly m)) (co_VolumeMounts c) of
           Some m \<Rightarrow> Some (rejectStateMount ReasonWritableStateMountEphemeral (co_Name c) m)
         | None \<Rightarrow> check_ephemeral injected cs))"

definition checkStateVolumeMounts :: "InjectorConfig \<Rightarrow> bool \<Rightarrow> Pod \<Rightarrow> Pod outcome" where
  "checkStateVolumeMounts cfg injected pod =
     (case check_containers cfg injected (po_Containers pod) of
        Inl err \<Rightarrow> Inl err
      | Inr cs \<Rightarrow>
          (case check_containers cfg injected (po_InitContainers pod) of
             Inl err \<Rightarrow> Inl err
           | Inr ics \<Rightarrow>
               (case check_ephemeral injected (po_EphemeralContainers pod) of
                  Some err \<Rightarrow> Inl err
                | None \<Rightarrow> Inr (pod\<lparr>po_Containers := cs, po_InitContainers := ics\<rparr>))))"

section \<open>Resolving the annotations\<close>

record resolved =
  rs_leaseName :: string
  rs_leaseNamespace :: string
  rs_mode :: string
  rs_enforce :: string
  rs_signalTarget :: string
  rs_ttlSeconds :: int
  rs_heartbeatSeconds :: int
  rs_enforceGrace :: int
  rs_releaseOnDown :: string
  rs_holderIdentity :: string
  rs_workloadKind :: string
  rs_workloadName :: string

definition orDefault :: "string \<Rightarrow> string \<Rightarrow> string" where
  "orDefault v d = (if v = [] then d else v)"

definition intAnn :: "(string \<rightharpoonup> string) \<Rightarrow> string \<Rightarrow> int \<Rightarrow> int outcome" where
  "intAnn ann key d =
     (if at_key ann key = [] then Inr d
      else (case Atoi (at_key ann key) of
              None \<Rightarrow> Inl (ErrText (''invalid '' @ key @ '': must be an integer''))
            | Some n \<Rightarrow> Inr n))"

definition controllerOwner :: "Pod \<Rightarrow> OwnerReference option" where
  "controllerOwner pod = List.find (\<lambda>o'. ow_Controller o' = Some True) (po_OwnerReferences pod)"

definition resolved_validate :: "resolved \<Rightarrow> goerr option" where
  "resolved_validate r =
     (if rs_leaseName r = [] then Some (ErrText (AnnLeaseName @ '' is required''))
      else if rs_mode r \<notin> {ModeStartupGate, ModeRuntimeSingleton} then Some (ErrText (''invalid '' @ AnnMode))
      else if rs_enforce r \<notin> {EnforceProbe, EnforceSignal} then Some (ErrText (''invalid '' @ AnnEnforce))
      else if rs_mode r = ModeRuntimeSingleton \<and> rs_enforce r = EnforceSignal \<and> rs_signalTarget r = []
      then Some (ErrText (AnnSignalTarget @ '' is required''))
      else if rs_ttlSeconds r \<le> 0 \<or> rs_ttlSeconds r > 2147483647
      then Some (ErrText (AnnTTLSeconds @ '' must be between 1 and 2147483647 seconds''))
      else if rs_heartbeatSeconds r < 0 then Some (ErrText (AnnHeartbeatSeconds @ '' must not be negative''))
      else if rs_heartbeatSeconds r > 0 \<and> rs_heartbeatSeconds r \<ge> rs_ttlSeconds r
      then Some (ErrText (AnnHeartbeatSeconds @ '' must be less than '' @ AnnTTLSeconds))
      else if rs_enforceGrace r < 0 then Some (ErrText (AnnEnforceGraceSeconds @ '' must not be negative''))
      else if rs_releaseOnDown r \<notin> {[], ''true'', ''false''} then Some (ErrText (''invalid '' @ AnnReleaseOnShutdown))
      else None)"

definition parse_annotations ::
  "InjectorConfig \<Rightarrow> (string \<rightharpoonup> string) \<Rightarrow> OwnerReference option \<Rightarrow> string \<Rightarrow> resolved outcome"
where
  "parse_annotations cfg ann owner ns =
     (case intAnn ann AnnTTLSeconds (ic_DefaultTTLSeconds cfg) of
        Inl err \<Rightarrow> Inl err
      | Inr ttl \<Rightarrow>
          (case intAnn ann AnnHeartbeatSeconds 0 of
             Inl err \<Rightarrow> Inl err
           | Inr hb \<Rightarrow>
               (case intAnn ann AnnEnforceGraceSeconds 0 of
                  Inl err \<Rightarrow> Inl err
                | Inr grace \<Rightarrow>
                    Inr \<lparr>rs_leaseName = at_key ann AnnLeaseName,
                         rs_leaseNamespace = orDefault (at_key ann AnnLeaseNamespace) ns,
                         rs_mode = orDefault (at_key ann AnnMode) (ic_DefaultMode cfg),
                         rs_enforce = orDefault (at_key ann AnnEnforce) (ic_DefaultEnforce cfg),
                         rs_signalTarget = at_key ann AnnSignalTarget,
                         rs_ttlSeconds = ttl, rs_heartbeatSeconds = hb, rs_enforceGrace = grace,
                         rs_releaseOnDown = at_key ann AnnReleaseOnShutdown,
                         rs_holderIdentity = at_key ann AnnHolderIdentity,
                         rs_workloadKind = (case owner of None \<Rightarrow> [] | Some w \<Rightarrow> ow_Kind w),
                         rs_workloadName = (case owner of None \<Rightarrow> [] | Some w \<Rightarrow> ow_Name w)\<rparr>)))"

definition resolve :: "InjectorConfig \<Rightarrow> Pod \<Rightarrow> string \<Rightarrow> resolved outcome" where
  "resolve cfg pod ns =
     (case parse_annotations cfg (po_Annotations pod) (controllerOwner pod) ns of
        Inl err \<Rightarrow> Inl err
      | Inr r \<Rightarrow>
          (case resolved_validate r of
             Some err \<Rightarrow> Inl err
           | None \<Rightarrow>
               if rs_mode r = ModeRuntimeSingleton \<and> rs_enforce r = EnforceSignal \<and>
                  po_ShareProcessNamespace pod = Some False
               then Inl (ErrText (AnnEnforce @ '' requires shareProcessNamespace''))
               else Inr r))"

section \<open>Checks before the mutation\<close>

definition hasVolume :: "Pod \<Rightarrow> string \<Rightarrow> bool" where
  "hasVolume pod name \<longleftrightarrow> list_ex (\<lambda>v. vo_Name v = name) (po_Volumes pod)"

definition hasContainerNamed :: "Container list \<Rightarrow> string \<Rightarrow> bool" where
  "hasContainerNamed cs name \<longleftrightarrow> list_ex (\<lambda>c. co_Name c = name) cs"

definition containerHasMountAt :: "Container \<Rightarrow> string \<Rightarrow> string \<Rightarrow> bool" where
  "containerHasMountAt c name p \<longleftrightarrow>
     list_ex (\<lambda>m. vm_Name m = name \<and> vm_MountPath m = p) (co_VolumeMounts c)"

text \<open>A mount at or below the state directory, after cleaning.\<close>

definition in_state_dir :: "InjectorConfig \<Rightarrow> VolumeMount \<Rightarrow> bool" where
  "in_state_dir cfg m \<longleftrightarrow>
     (let root = path_Clean (ic_StateDir cfg); mount = path_Clean (vm_MountPath m)
      in mount = root \<or> HasPrefix mount (TrimSuffix root ''/'' @ ''/''))"

fun probe_mounts :: "InjectorConfig \<Rightarrow> string \<Rightarrow> bool \<Rightarrow> VolumeMount list \<Rightarrow> bool outcome" where
  "probe_mounts cfg cname found [] = Inr found"
| "probe_mounts cfg cname found (m # ms) =
     (if in_state_dir cfg m \<and>
         (vm_MountPath m \<noteq> ic_StateDir cfg \<or> vm_Name m \<noteq> VolumeName \<or> vm_SubPath m \<noteq> [] \<or>
          vm_SubPathExpr m \<noteq> [] \<or> \<not> vm_ReadOnly m)
      then Inl (ErrText (''cannot enforce runtime container '' @ cname @ '': mount hides or alters the required read-only Berth state mount''))
      else if vm_Name m = VolumeName \<and> \<not> vm_ReadOnly m
      then Inl (ErrText (''cannot enforce runtime container '' @ cname @ '': writable Berth state mount''))
      else probe_mounts cfg cname (found \<or> in_state_dir cfg m) ms)"

definition validateProbeMounts :: "InjectorConfig \<Rightarrow> Container \<Rightarrow> bool \<Rightarrow> goerr option" where
  "validateProbeMounts cfg c required =
     (case probe_mounts cfg (co_Name c) False (co_VolumeMounts c) of
        Inl err \<Rightarrow> Some err
      | Inr found \<Rightarrow>
          if required \<and> \<not> found
          then Some (ErrText (''cannot enforce runtime container '' @ co_Name c @ '': missing Berth state mount''))
          else None)"

fun preflight_containers :: "InjectorConfig \<Rightarrow> Container list \<Rightarrow> goerr option" where
  "preflight_containers cfg [] = None"
| "preflight_containers cfg (c # cs) =
     (if co_LivenessProbe c \<noteq> None
      then Some (ErrText (''cannot inject runtime enforcement: container '' @ co_Name c @ '' already defines a livenessProbe''))
      else if co_StartupProbe c \<noteq> None
      then Some (ErrText (''cannot inject runtime enforcement: container '' @ co_Name c @ '' defines a startupProbe''))
      else
        (case validateProbeMounts cfg c False of
           Some err \<Rightarrow> Some err
         | None \<Rightarrow> preflight_containers cfg cs))"

definition preflight :: "InjectorConfig \<Rightarrow> Pod \<Rightarrow> resolved \<Rightarrow> goerr option" where
  "preflight cfg pod r =
     (let runtime = (rs_mode r = ModeRuntimeSingleton);
          taken = (\<lambda>name. hasContainerNamed (po_InitContainers pod) name \<or> hasContainerNamed (po_Containers pod) name)
      in
      if taken InitContainerName
      then Some (ErrText (''cannot inject: pod already has a container named '' @ InitContainerName))
      else if runtime \<and> taken SidecarContainerName
      then Some (ErrText (''cannot inject: pod already has a container named '' @ SidecarContainerName))
      else if runtime \<and> po_InitContainers pod \<noteq> []
      then Some (ErrText (''cannot inject runtime-singleton: workload init container '' @
                          co_Name (hd (po_InitContainers pod)) @ '' is unsupported''))
      else if list_ex (\<lambda>v. vo_Name v = VolumeName \<and> vo_Source v \<noteq> EmptyDir) (po_Volumes pod)
      then Some (ErrText (''cannot inject: pod already has a volume named '' @ VolumeName @ '' that is not an emptyDir''))
      else if ic_APIKeySecretName cfg \<noteq> [] \<and> hasVolume pod AuthTokenVolume
      then Some (ErrText (''cannot inject: pod already has a volume named '' @ AuthTokenVolume))
      else if ic_CABundleConfigMapName cfg \<noteq> [] \<and> hasVolume pod AuthCABundleVolume
      then Some (ErrText (''cannot inject: pod already has a volume named '' @ AuthCABundleVolume))
      else if runtime then preflight_containers cfg (po_Containers pod)
      else None)"

definition isControlPlane :: "InjectorConfig \<Rightarrow> string \<Rightarrow> bool" where
  "isControlPlane cfg ns \<longleftrightarrow> ns \<in> set (ic_ControlPlaneNamespaces cfg)"

section \<open>The mutation\<close>

definition authVolumeMounts :: "InjectorConfig \<Rightarrow> Volume list \<times> VolumeMount list" where
  "authVolumeMounts cfg =
     (let token = (ic_APIKeySecretName cfg \<noteq> []); ca = (ic_CABundleConfigMapName cfg \<noteq> []) in
      ((if token then
          [\<lparr>vo_Name = AuthTokenVolume,
            vo_Source = SecretVolume (ic_APIKeySecretName cfg)
              [(ic_APIKeySecretKey cfg, path_Base (ic_APIKeyFile cfg))]\<rparr>] else []) @
       (if ca then
          [\<lparr>vo_Name = AuthCABundleVolume,
            vo_Source = ConfigMapVolume (ic_CABundleConfigMapName cfg)
              [(ic_CABundleKey cfg, path_Base (ic_CABundleFile cfg))]\<rparr>] else []),
       (if token then
          [\<lparr>vm_Name = AuthTokenVolume, vm_MountPath = path_Dir (ic_APIKeyFile cfg), vm_ReadOnly = True,
            vm_SubPath = [], vm_SubPathExpr = []\<rparr>] else []) @
       (if ca then
          [\<lparr>vm_Name = AuthCABundleVolume, vm_MountPath = path_Dir (ic_CABundleFile cfg), vm_ReadOnly = True,
            vm_SubPath = [], vm_SubPathExpr = []\<rparr>] else [])))"

definition freshnessProbe :: "InjectorConfig \<Rightarrow> resolved \<Rightarrow> Probe" where
  "freshnessProbe cfg r =
     (let marker = ic_StateDir cfg @ ''/healthy''; check = ic_StateDir cfg @ ''/check'';
          maxAge = duration_String (seconds (rs_ttlSeconds r))
      in \<lparr>pb_Handler = ExecProbe [check, ''check'', marker, ''--max-age'', maxAge],
          pb_InitialDelaySeconds = 0, pb_PeriodSeconds = 2, pb_TimeoutSeconds = 1, pb_SuccessThreshold = 1,
          pb_FailureThreshold = 1, pb_TerminationGracePeriodSeconds = Some 1\<rparr>)"

definition fence_container :: "InjectorConfig \<Rightarrow> resolved \<Rightarrow> Container \<Rightarrow> Container" where
  "fence_container cfg r c =
     (let ro = \<lparr>vm_Name = VolumeName, vm_MountPath = ic_StateDir cfg, vm_ReadOnly = True,
               vm_SubPath = [], vm_SubPathExpr = []\<rparr>
      in c\<lparr>co_LivenessProbe := Some (freshnessProbe cfg r),
           co_VolumeMounts :=
             (if containerHasMountAt c VolumeName (ic_StateDir cfg) then co_VolumeMounts c
              else co_VolumeMounts c @ [ro])\<rparr>)"

definition applyEnforcement :: "InjectorConfig \<Rightarrow> resolved \<Rightarrow> Pod \<Rightarrow> Pod" where
  "applyEnforcement cfg r pod =
     pod\<lparr>po_ShareProcessNamespace :=
           (if rs_enforce r = EnforceSignal then Some True else po_ShareProcessNamespace pod),
         po_Containers := map (fence_container cfg r) (po_Containers pod)\<rparr>"

definition fieldRef :: "string \<Rightarrow> string \<Rightarrow> EnvVar" where
  "fieldRef name p = \<lparr>ev_Name = name, ev_Value = [], ev_FieldRef = Some p\<rparr>"

definition env_value :: "string \<Rightarrow> string \<Rightarrow> EnvVar" where
  "env_value name v = \<lparr>ev_Name = name, ev_Value = v, ev_FieldRef = None\<rparr>"

definition appendIf :: "bool \<Rightarrow> string \<Rightarrow> string \<Rightarrow> EnvVar list \<Rightarrow> EnvVar list" where
  "appendIf cond name v env = (if cond then env @ [env_value name v] else env)"

definition buildEnv :: "InjectorConfig \<Rightarrow> resolved \<Rightarrow> EnvVar list" where
  "buildEnv cfg r =
     fold (\<lambda>(cond, name, v). appendIf cond name v)
       [(rs_signalTarget r \<noteq> [] \<and> rs_enforce r = EnforceSignal, EnvSignalTarget, rs_signalTarget r),
        (rs_heartbeatSeconds r > 0, EnvHeartbeatSecs, FormatInt (rs_heartbeatSeconds r)),
        (rs_enforceGrace r > 0, EnvEnforceGrace, FormatInt (rs_enforceGrace r)),
        (rs_releaseOnDown r \<noteq> [], EnvReleaseOnDown, rs_releaseOnDown r),
        (rs_holderIdentity r \<noteq> [], EnvHolderIdentity, rs_holderIdentity r),
        (rs_workloadKind r \<noteq> [], EnvWorkloadKind, rs_workloadKind r),
        (rs_workloadName r \<noteq> [], EnvWorkloadName, rs_workloadName r),
        (ic_ClusterID cfg \<noteq> [], EnvClusterID, ic_ClusterID cfg),
        (ic_APIServer cfg \<noteq> [], EnvAPIServer, ic_APIServer cfg),
        (ic_APIKeyFile cfg \<noteq> [], EnvAPIKeyFile, ic_APIKeyFile cfg),
        (ic_CABundleFile cfg \<noteq> [], EnvCABundleFile, ic_CABundleFile cfg),
        (ic_ServerName cfg \<noteq> [], EnvServerName, ic_ServerName cfg),
        (ic_InsecureSkipVerify cfg, EnvInsecure, ''true'')]
       [env_value EnvLeaseName (rs_leaseName r), env_value EnvLeaseNamespace (rs_leaseNamespace r),
        env_value EnvMode (rs_mode r), env_value EnvEnforce (rs_enforce r),
        env_value EnvTTLSeconds (FormatInt (rs_ttlSeconds r)), env_value EnvStateDir (ic_StateDir cfg),
        fieldRef EnvPodNamespace ''metadata.namespace'', fieldRef EnvPodName ''metadata.name'',
        fieldRef EnvPodUID ''metadata.uid'']"

definition helper_container ::
  "InjectorConfig \<Rightarrow> resolved \<Rightarrow> string \<Rightarrow> string \<Rightarrow> string option \<Rightarrow> Container"
where
  "helper_container cfg r name arg restart =
     \<lparr>co_Name = name, co_Image = ic_HelperImage cfg, co_ImagePullPolicy = ic_ImagePullPolicy cfg,
      co_Args = [arg], co_Env = buildEnv cfg r,
      co_VolumeMounts =
        \<lparr>vm_Name = VolumeName, vm_MountPath = ic_StateDir cfg, vm_ReadOnly = False, vm_SubPath = [], vm_SubPathExpr = []\<rparr>
        # snd (authVolumeMounts cfg),
      co_RestartPolicy = restart, co_LivenessProbe = None, co_StartupProbe = None\<rparr>"

definition add_volume :: "Volume \<Rightarrow> Pod \<Rightarrow> Pod" where
  "add_volume v pod = (if hasVolume pod (vo_Name v) then pod else pod\<lparr>po_Volumes := po_Volumes pod @ [v]\<rparr>)"

definition mutate :: "InjectorConfig \<Rightarrow> resolved \<Rightarrow> Pod \<Rightarrow> Pod" where
  "mutate cfg r pod =
     (let p1 = fold add_volume (fst (authVolumeMounts cfg))
                 (add_volume \<lparr>vo_Name = VolumeName, vo_Source = EmptyDir\<rparr> pod);
          runtime = (rs_mode r = ModeRuntimeSingleton);
          injected = helper_container cfg r InitContainerName ''acquire'' None #
                     (if runtime then [helper_container cfg r SidecarContainerName ''renew'' (Some ''Always'')] else []);
          p2 = p1\<lparr>po_InitContainers := injected @ po_InitContainers p1\<rparr>;
          p3 = (if runtime then applyEnforcement cfg r p2 else p2)
      in p3\<lparr>po_Annotations := (po_Annotations p3)(AnnInjected \<mapsto> ''true'')\<rparr>)"

section \<open>The webhook\<close>

text \<open>
  The admission request, when there is one, names the namespace and the subresource.  The result is
  the pod to admit, or the error with which the request is refused.
\<close>

type_synonym admission_request = "(string \<times> string) option"

definition request_ns :: "admission_request \<Rightarrow> Pod \<Rightarrow> string" where
  "request_ns req pod =
     (case req of Some (ns, sub) \<Rightarrow> if ns \<noteq> [] then ns else po_Namespace pod | None \<Rightarrow> po_Namespace pod)"

definition webhook_Default :: "InjectorConfig \<Rightarrow> admission_request \<Rightarrow> Pod \<Rightarrow> Pod outcome" where
  "webhook_Default cfg req pod =
     (let ns = request_ns req pod;
          subresource = (case req of Some (n, sub) \<Rightarrow> sub | None \<Rightarrow> [])
      in
      if isControlPlane cfg ns then Inr pod
      else if at_key (po_Labels pod) LabelInject \<noteq> InjectValueAcquire then Inr pod
      else
        (let onEphemeralPath = (subresource = subresourceEphemeralContainers) in
         case checkStateVolumeMounts cfg onEphemeralPath pod of
           Inl err \<Rightarrow> Inl err
         | Inr pod1 \<Rightarrow>
             if onEphemeralPath then Inr pod1
             else
               (case resolve cfg pod1 ns of
                  Inl err \<Rightarrow> Inl err
                | Inr r \<Rightarrow>
                    (case preflight cfg pod1 r of
                       Some err \<Rightarrow> Inl err
                     | None \<Rightarrow> Inr (mutate cfg r pod1)))))"

fun validate_containers :: "InjectorConfig \<Rightarrow> resolved \<Rightarrow> Container list \<Rightarrow> goerr option" where
  "validate_containers cfg r [] = None"
| "validate_containers cfg r (c # cs) =
     (if co_StartupProbe c \<noteq> None \<or> co_LivenessProbe c \<noteq> Some (freshnessProbe cfg r)
      then Some (ErrText (''cannot admit runtime container '' @ co_Name c))
      else
        (case validateProbeMounts cfg c True of
           Some err \<Rightarrow> Some err
         | None \<Rightarrow> validate_containers cfg r cs))"

definition ValidateCreate :: "InjectorConfig \<Rightarrow> admission_request \<Rightarrow> Pod \<Rightarrow> goerr option" where
  "ValidateCreate cfg req pod =
     (let ns = request_ns req pod in
      if isControlPlane cfg ns \<or> at_key (po_Labels pod) LabelInject \<noteq> InjectValueAcquire then None
      else
        (case resolve cfg pod ns of
           Inl err \<Rightarrow> Some err
         | Inr r \<Rightarrow>
             if rs_mode r \<noteq> ModeRuntimeSingleton then None
             else
               (let ok = (case po_InitContainers pod of
                            [i0, i1] \<Rightarrow> co_Name i0 = InitContainerName \<and> co_Name i1 = SidecarContainerName \<and>
                              co_RestartPolicy i0 = None \<and> co_RestartPolicy i1 = Some ''Always''
                          | _ \<Rightarrow> False)
                in if \<not> ok then Some (ErrText ''cannot admit runtime-singleton'')
                   else if list_ex (\<lambda>v. vo_Name v = VolumeName \<and> vo_Source v \<noteq> EmptyDir) (po_Volumes pod)
                   then Some (ErrText ''cannot admit runtime workload: Berth state volume must remain an emptyDir'')
                   else if \<not> hasVolume pod VolumeName
                   then Some (ErrText ''cannot admit runtime workload: Berth state volume is missing'')
                   else validate_containers cfg r (po_Containers pod))))"

definition ValidateUpdate :: "Pod \<Rightarrow> Pod \<Rightarrow> goerr option" where
  "ValidateUpdate old new = None"

definition ValidateDelete :: "Pod \<Rightarrow> goerr option" where
  "ValidateDelete pod = None"

section \<open>An injected pod passes the validator\<close>

definition mount_fine :: "InjectorConfig \<Rightarrow> VolumeMount \<Rightarrow> bool" where
  "mount_fine cfg m \<longleftrightarrow>
     (in_state_dir cfg m \<longrightarrow>
        vm_MountPath m = ic_StateDir cfg \<and> vm_Name m = VolumeName \<and> vm_SubPath m = [] \<and>
        vm_SubPathExpr m = [] \<and> vm_ReadOnly m) \<and>
     (vm_Name m = VolumeName \<longrightarrow> vm_ReadOnly m)"

lemma probe_mounts_iff:
  "probe_mounts cfg n f ms = Inr g \<longleftrightarrow>
     list_all (mount_fine cfg) ms \<and> g = (f \<or> list_ex (in_state_dir cfg) ms)"
  by (induction ms arbitrary: f) (auto simp: mount_fine_def)

lemma validateProbeMounts_iff:
  "validateProbeMounts cfg c required = None \<longleftrightarrow>
     list_all (mount_fine cfg) (co_VolumeMounts c) \<and>
     (required \<longrightarrow> list_ex (in_state_dir cfg) (co_VolumeMounts c))"
proof (cases "probe_mounts cfg (co_Name c) False (co_VolumeMounts c)")
  case (Inl err)
  have "\<not> list_all (mount_fine cfg) (co_VolumeMounts c)"
    using probe_mounts_iff [of cfg "co_Name c" False "co_VolumeMounts c" "list_ex (in_state_dir cfg) (co_VolumeMounts c)"] Inl
    by auto
  with Inl show ?thesis by (simp add: validateProbeMounts_def)
next
  case (Inr g)
  with probe_mounts_iff [of cfg "co_Name c" False "co_VolumeMounts c" g] show ?thesis
    by (simp add: validateProbeMounts_def)
qed

lemma preflight_containers_iff:
  "preflight_containers cfg cs = None \<longleftrightarrow>
     (\<forall>c \<in> set cs. co_LivenessProbe c = None \<and> co_StartupProbe c = None \<and> validateProbeMounts cfg c False = None)"
  by (induction cs) (auto split: option.splits)

lemma validate_containers_iff:
  "validate_containers cfg r cs = None \<longleftrightarrow>
     (\<forall>c \<in> set cs. co_StartupProbe c = None \<and> co_LivenessProbe c = Some (freshnessProbe cfg r) \<and>
        validateProbeMounts cfg c True = None)"
  by (induction cs) (auto split: option.splits)

lemma state_mount_in_dir: "vm_MountPath m = ic_StateDir cfg \<Longrightarrow> in_state_dir cfg m"
  by (simp add: in_state_dir_def)

lemma fence_container_valid:
  assumes "validateProbeMounts cfg c False = None"
  shows "validateProbeMounts cfg (fence_container cfg r c) True = None"
proof (cases "containerHasMountAt c VolumeName (ic_StateDir cfg)")
  case True
  then have "list_ex (in_state_dir cfg) (co_VolumeMounts c)"
    by (auto simp: containerHasMountAt_def list_ex_iff intro: state_mount_in_dir)
  with True assms show ?thesis by (simp add: validateProbeMounts_iff fence_container_def)
next
  case False
  with assms show ?thesis
    by (simp add: validateProbeMounts_iff fence_container_def mount_fine_def state_mount_in_dir)
qed

lemma add_volume_sel [simp]:
  "po_Namespace (add_volume v p) = po_Namespace p" "po_Labels (add_volume v p) = po_Labels p"
  "po_Annotations (add_volume v p) = po_Annotations p" "po_OwnerReferences (add_volume v p) = po_OwnerReferences p"
  "po_Containers (add_volume v p) = po_Containers p" "po_InitContainers (add_volume v p) = po_InitContainers p"
  "po_ShareProcessNamespace (add_volume v p) = po_ShareProcessNamespace p"
  by (simp_all add: add_volume_def)

lemma add_volumes_sel [simp]:
  "po_Namespace (fold add_volume vs p) = po_Namespace p" "po_Labels (fold add_volume vs p) = po_Labels p"
  "po_Annotations (fold add_volume vs p) = po_Annotations p"
  "po_OwnerReferences (fold add_volume vs p) = po_OwnerReferences p"
  "po_Containers (fold add_volume vs p) = po_Containers p"
  "po_InitContainers (fold add_volume vs p) = po_InitContainers p"
  "po_ShareProcessNamespace (fold add_volume vs p) = po_ShareProcessNamespace p"
  by (induction vs arbitrary: p) simp_all

lemma hasVolume_add [simp]: "hasVolume (add_volume v p) n \<longleftrightarrow> hasVolume p n \<or> n = vo_Name v"
  by (auto simp: add_volume_def hasVolume_def)

lemma hasVolume_adds [simp]:
  "hasVolume (fold add_volume vs p) n \<longleftrightarrow> hasVolume p n \<or> n \<in> vo_Name ` set vs"
  by (induction vs arbitrary: p) auto

lemma add_volumes_set:
  "set (po_Volumes (fold add_volume vs p)) \<subseteq> set (po_Volumes p) \<union> set vs"
proof (induction vs arbitrary: p)
  case (Cons v vs)
  have "set (po_Volumes (add_volume v p)) \<subseteq> set (po_Volumes p) \<union> {v}"
    by (auto simp: add_volume_def)
  with Cons [of "add_volume v p"] show ?case by auto
qed simp

lemma auth_volume_names: "v \<in> set (fst (authVolumeMounts cfg)) \<Longrightarrow> vo_Name v \<noteq> VolumeName"
  by (auto simp: authVolumeMounts_def Let_def volume_names split: if_splits)

lemma add_volumes_ephemeral:
  "po_EphemeralContainers (fold add_volume vs p) = po_EphemeralContainers p"
  "po_EphemeralContainers (add_volume v p) = po_EphemeralContainers p"
proof -
  show one: "po_EphemeralContainers (add_volume v p) = po_EphemeralContainers p" for v p
    by (simp add: add_volume_def)
  show "po_EphemeralContainers (fold add_volume vs p) = po_EphemeralContainers p"
    by (induction vs arbitrary: p) (simp_all add: one)
qed

lemma mutate_sel:
  "po_Namespace (mutate cfg r p) = po_Namespace p"
  "po_Labels (mutate cfg r p) = po_Labels p"
  "po_EphemeralContainers (mutate cfg r p) = po_EphemeralContainers p"
  "po_OwnerReferences (mutate cfg r p) = po_OwnerReferences p"
  "po_Annotations (mutate cfg r p) = (po_Annotations p)(AnnInjected \<mapsto> ''true'')"
  "po_InitContainers (mutate cfg r p) =
     helper_container cfg r InitContainerName ''acquire'' None #
     (if rs_mode r = ModeRuntimeSingleton then [helper_container cfg r SidecarContainerName ''renew'' (Some ''Always'')] else [])
     @ po_InitContainers p"
  "po_Containers (mutate cfg r p) =
     (if rs_mode r = ModeRuntimeSingleton then map (fence_container cfg r) (po_Containers p) else po_Containers p)"
  "po_ShareProcessNamespace (mutate cfg r p) =
     (if rs_mode r = ModeRuntimeSingleton \<and> rs_enforce r = EnforceSignal then Some True else po_ShareProcessNamespace p)"
  "po_Volumes (mutate cfg r p) = po_Volumes (fold add_volume (fst (authVolumeMounts cfg))
     (add_volume \<lparr>vo_Name = VolumeName, vo_Source = EmptyDir\<rparr> p))"
  by (simp_all add: mutate_def Let_def applyEnforcement_def add_volumes_ephemeral)

lemma mutate_hasVolume: "hasVolume (mutate cfg r p) VolumeName"
proof -
  have "hasVolume (mutate cfg r p) VolumeName \<longleftrightarrow> hasVolume (fold add_volume (fst (authVolumeMounts cfg))
      (add_volume \<lparr>vo_Name = VolumeName, vo_Source = EmptyDir\<rparr> p)) VolumeName"
    unfolding hasVolume_def mutate_sel ..
  then show ?thesis by simp
qed

lemma mutate_emptyDir:
  assumes "\<not> list_ex (\<lambda>v. vo_Name v = VolumeName \<and> vo_Source v \<noteq> EmptyDir) (po_Volumes p)"
  shows "\<not> list_ex (\<lambda>v. vo_Name v = VolumeName \<and> vo_Source v \<noteq> EmptyDir) (po_Volumes (mutate cfg r p))"
proof -
  have "set (po_Volumes (add_volume \<lparr>vo_Name = VolumeName, vo_Source = EmptyDir\<rparr> p)) \<subseteq>
      insert \<lparr>vo_Name = VolumeName, vo_Source = EmptyDir\<rparr> (set (po_Volumes p))"
    by (auto simp: add_volume_def)
  with add_volumes_set [of "fst (authVolumeMounts cfg)" "add_volume \<lparr>vo_Name = VolumeName, vo_Source = EmptyDir\<rparr> p"]
    auth_volume_names [of _ cfg] assms
  show ?thesis by (fastforce simp: list_ex_iff mutate_sel)
qed

lemma at_key_injected [simp]: "k \<noteq> AnnInjected \<Longrightarrow> at_key (ann(AnnInjected \<mapsto> v)) k = at_key ann k"
  by (simp add: at_key_def)

lemma parse_annotations_injected:
  "parse_annotations cfg (ann(AnnInjected \<mapsto> v)) owner ns = parse_annotations cfg ann owner ns"
proof -
  have "AnnLeaseName \<noteq> AnnInjected" "AnnLeaseNamespace \<noteq> AnnInjected" "AnnMode \<noteq> AnnInjected"
    "AnnEnforce \<noteq> AnnInjected" "AnnSignalTarget \<noteq> AnnInjected" "AnnReleaseOnShutdown \<noteq> AnnInjected"
    "AnnHolderIdentity \<noteq> AnnInjected" "AnnTTLSeconds \<noteq> AnnInjected" "AnnHeartbeatSeconds \<noteq> AnnInjected"
    "AnnEnforceGraceSeconds \<noteq> AnnInjected"
    by (simp_all add: ann_names)
  then show ?thesis by (simp add: parse_annotations_def intAnn_def cong: sum.case_cong)
qed

lemma resolve_mutate:
  assumes "resolve cfg p ns = Inr r"
  shows "resolve cfg (mutate cfg r p) ns = Inr r"
  using assms
  by (auto simp: resolve_def mutate_sel controllerOwner_def parse_annotations_injected
      split: sum.splits option.splits if_splits)

lemma preflight_None:
  assumes "preflight cfg p r = None"
  shows "\<not> list_ex (\<lambda>v. vo_Name v = VolumeName \<and> vo_Source v \<noteq> EmptyDir) (po_Volumes p)"
    and "rs_mode r = ModeRuntimeSingleton \<Longrightarrow> po_InitContainers p = []"
    and "rs_mode r = ModeRuntimeSingleton \<Longrightarrow> preflight_containers cfg (po_Containers p) = None"
  using assms by (simp_all add: preflight_def Let_def guard_None)

lemma mutate_valid:
  assumes "resolve cfg p ns = Inr r" and "preflight cfg p r = None" and "ns = request_ns req p"
  shows "ValidateCreate cfg req (mutate cfg r p) = None"
proof -
  have ns: "request_ns req (mutate cfg r p) = ns"
    using assms(3) by (simp add: request_ns_def mutate_sel split: option.split)
  show ?thesis
  proof (cases "rs_mode r = ModeRuntimeSingleton")
    case True
    have "validate_containers cfg r (map (fence_container cfg r) (po_Containers p)) = None"
      using preflight_None(3) [OF assms(2) True]
      by (auto simp: validate_containers_iff preflight_containers_iff fence_container_valid) (auto simp: fence_container_def)
    with True preflight_None(1,2) [OF assms(2)] show ?thesis
      by (simp add: ValidateCreate_def ns resolve_mutate [OF assms(1)] mutate_emptyDir mutate_hasVolume Let_def)
        (simp add: mutate_sel helper_container_def)
  next
    case False
    then show ?thesis by (simp add: ValidateCreate_def ns resolve_mutate [OF assms(1)] Let_def)
  qed
qed

lemma checkStateVolumeMounts_sel:
  assumes "checkStateVolumeMounts cfg b p = Inr p'"
  shows "po_Namespace p' = po_Namespace p" "po_Labels p' = po_Labels p"
  using assms by (auto simp: checkStateVolumeMounts_def split: sum.splits option.splits)

section \<open>No writable state mount\<close>

definition state_read_only :: "Container \<Rightarrow> bool" where
  "state_read_only c \<longleftrightarrow> list_all (\<lambda>m. vm_Name m = VolumeName \<longrightarrow> vm_ReadOnly m) (co_VolumeMounts c)"

lemma check_mounts_read_only:
  "check_mounts cfg b n ms = Inr ms' \<Longrightarrow> list_all (\<lambda>m. vm_Name m = VolumeName \<longrightarrow> vm_ReadOnly m) ms'"
proof (induction ms arbitrary: ms')
  case (Cons m ms)
  then show ?case
    by (cases "check_mounts cfg b n ms") (auto split: if_splits)
qed simp

lemma check_containers_read_only:
  "check_containers cfg False cs = Inr cs' \<Longrightarrow> list_all state_read_only cs' \<and> map co_Name cs' = map co_Name cs"
proof (induction cs arbitrary: cs')
  case (Cons c cs)
  then show ?case
    by (cases "check_containers cfg False cs")
      (auto simp: state_read_only_def split: sum.splits dest: check_mounts_read_only)
qed simp

lemma fence_read_only: "state_read_only c \<Longrightarrow> state_read_only (fence_container cfg r c)"
  by (simp add: state_read_only_def fence_container_def)

lemma fence_name [simp]: "co_Name (fence_container cfg r c) = co_Name c"
  by (simp add: fence_container_def)

text \<open>The containers the webhook adds, which are the only ones that may write to the state volume.\<close>

definition own_containers :: "InjectorConfig \<Rightarrow> resolved \<Rightarrow> Container list" where
  "own_containers cfg r =
     helper_container cfg r InitContainerName ''acquire'' None #
     (if rs_mode r = ModeRuntimeSingleton then [helper_container cfg r SidecarContainerName ''renew'' (Some ''Always'')] else [])"

lemma mutate_read_only:
  assumes "list_all state_read_only (po_Containers p)"
  shows "list_all state_read_only (po_Containers (mutate cfg r p))"
    and "po_InitContainers (mutate cfg r p) = own_containers cfg r @ po_InitContainers p"
    and "map co_Name (po_Containers (mutate cfg r p)) = map co_Name (po_Containers p)"
  using assms by (auto simp: mutate_sel list_all_iff fence_read_only own_containers_def)

lemma check_ephemeral_read_only:
  "check_ephemeral b cs = None \<longleftrightarrow>
     list_all (\<lambda>c. b \<and> isInjectorOwnedContainer (co_Name c) \<or> state_read_only c) cs"
proof (induction cs)
  case (Cons c cs)
  have "find (\<lambda>m. \<not> (vm_Name m \<noteq> VolumeName \<or> vm_ReadOnly m)) (co_VolumeMounts c) = None \<longleftrightarrow> state_read_only c"
    by (auto simp: find_None_iff state_read_only_def list_all_iff)
  with Cons show ?case
    by (cases "find (\<lambda>m. \<not> (vm_Name m \<noteq> VolumeName \<or> vm_ReadOnly m)) (co_VolumeMounts c)") auto
qed simp



section \<open>Properties\<close>

text \<open>
  C35. What the injector lets in, the validator lets in, and it is fenced.  When the mutating
  webhook accepts a pod on creation, the pod it returns passes the validating webhook of the same
  configuration, and the workload's containers are still the same ones by name.  If the pod opted in
  outside of the control plane, its init containers are the helper containers the webhook builds
  itself, followed by those of the author, and no container of the author can write to the
  state volume, be it a container, an init container or an ephemeral container, whatever its name.
\<close>

theorem injected_pod_is_admitted:
  assumes "webhook_Default cfg req pod = Inr pod'"
    and "case req of Some (ns, sub) \<Rightarrow> sub \<noteq> subresourceEphemeralContainers | None \<Rightarrow> True"
  shows "ValidateCreate cfg req pod' = None \<and>
    map co_Name (po_Containers pod') = map co_Name (po_Containers pod) \<and>
    (\<not> isControlPlane cfg (request_ns req pod) \<longrightarrow> at_key (po_Labels pod) LabelInject = InjectValueAcquire \<longrightarrow>
       list_all state_read_only (po_Containers pod') \<and>
       list_all state_read_only (po_EphemeralContainers pod') \<and>
       (\<exists>r inits. po_InitContainers pod' = own_containers cfg r @ inits \<and>
          map co_Name inits = map co_Name (po_InitContainers pod) \<and> list_all state_read_only inits))"
proof (cases "isControlPlane cfg (request_ns req pod) \<or> at_key (po_Labels pod) LabelInject \<noteq> InjectValueAcquire")
  case True
  with assms(1) have "pod' = pod" by (auto simp: webhook_Default_def Let_def split: if_splits)
  with True show ?thesis by (auto simp: ValidateCreate_def Let_def)
next
  case False
  then obtain pod1 r where p: "checkStateVolumeMounts cfg False pod = Inr pod1"
    "resolve cfg pod1 (request_ns req pod) = Inr r" "preflight cfg pod1 r = None" "pod' = mutate cfg r pod1"
    using assms
    by (auto simp: webhook_Default_def Let_def subresourceEphemeralContainers_def split: option.splits sum.splits if_splits)
  obtain cs ics where c: "check_containers cfg False (po_Containers pod) = Inr cs"
    "check_containers cfg False (po_InitContainers pod) = Inr ics"
    "check_ephemeral False (po_EphemeralContainers pod) = None"
    "pod1 = pod\<lparr>po_Containers := cs, po_InitContainers := ics\<rparr>"
    using p(1) by (auto simp: checkStateVolumeMounts_def split: sum.splits option.splits)
  have ns: "request_ns req pod = request_ns req pod1"
    by (simp add: c(4) request_ns_def split: option.split)
  have "list_all state_read_only (po_EphemeralContainers pod')"
    using c(3) by (simp add: p(4) mutate_sel c(4) check_ephemeral_read_only)
  moreover have "po_InitContainers pod' = own_containers cfg r @ ics"
    by (simp add: p(4) mutate_sel own_containers_def c(4))
  ultimately show ?thesis
    using mutate_valid [OF p(2,3) ns] mutate_read_only [of pod1 cfg r]
      check_containers_read_only [OF c(1)] check_containers_read_only [OF c(2)]
    by (auto simp: c(4) p(4))
qed

definition sample_injector :: InjectorConfig where
  "sample_injector = withDefaults
     \<lparr>ic_HelperImage = ''img'', ic_ImagePullPolicy = [], ic_APIServer = ''https://berth'',
      ic_APIKeyFile = ''/var/run/berth/token'', ic_CABundleFile = [], ic_ServerName = [], ic_ClusterID = ''east'',
      ic_InsecureSkipVerify = False, ic_APIKeySecretName = ''berth-key'', ic_APIKeySecretKey = [],
      ic_CABundleConfigMapName = [], ic_CABundleKey = [], ic_ControlPlaneNamespaces = [''berth-system''],
      ic_DefaultTTLSeconds = 30, ic_DefaultMode = [], ic_DefaultEnforce = [], ic_StateDir = []\<rparr>"

definition sample_app :: Pod where
  "sample_app =
     \<lparr>po_Namespace = [], po_Labels = [LabelInject \<mapsto> ''acquire''],
      po_Annotations = [AnnLeaseName \<mapsto> ''job'', AnnTTLSeconds \<mapsto> ''90''],
      po_OwnerReferences = [\<lparr>ow_Kind = ''Job'', ow_Name = ''nightly'', ow_Controller = Some True\<rparr>],
      po_Containers =
        [\<lparr>co_Name = ''app'', co_Image = ''app'', co_ImagePullPolicy = [], co_Args = [], co_Env = [],
          co_VolumeMounts = [\<lparr>vm_Name = VolumeName, vm_MountPath = ''/berth'', vm_ReadOnly = False, vm_SubPath = [], vm_SubPathExpr = []\<rparr>],
          co_RestartPolicy = None, co_LivenessProbe = None, co_StartupProbe = None\<rparr>],
      po_InitContainers = [], po_EphemeralContainers = [], po_Volumes = [], po_ShareProcessNamespace = None\<rparr>"

definition sample_fenced :: Pod where
  "sample_fenced = sample_app\<lparr>po_Containers := map (\<lambda>c. c\<lparr>co_VolumeMounts := map (\<lambda>m. m\<lparr>vm_ReadOnly := True\<rparr>) (co_VolumeMounts c)\<rparr>)
     (po_Containers sample_app)\<rparr>"

definition sample_resolved :: resolved where
  "sample_resolved =
     \<lparr>rs_leaseName = ''job'', rs_leaseNamespace = ''ns'', rs_mode = ModeRuntimeSingleton, rs_enforce = EnforceProbe,
      rs_signalTarget = [], rs_ttlSeconds = 90, rs_heartbeatSeconds = 0, rs_enforceGrace = 0, rs_releaseOnDown = [],
      rs_holderIdentity = [], rs_workloadKind = ''Job'', rs_workloadName = ''nightly''\<rparr>"

lemma sample_stages:
  "checkStateVolumeMounts sample_injector False sample_app = Inr sample_fenced"
  "resolve sample_injector sample_fenced ''ns'' = Inr sample_resolved"
  "preflight sample_injector sample_fenced sample_resolved = None"
proof -
  have "ic_StateDir sample_injector = ''/berth''" by code_simp
  then show "checkStateVolumeMounts sample_injector False sample_app = Inr sample_fenced"
    by (simp add: checkStateVolumeMounts_def sample_app_def sample_fenced_def)
qed code_simp+

lemma sample_injected:
  "webhook_Default sample_injector (Some (''ns'', [])) sample_app = Inr (mutate sample_injector sample_resolved sample_fenced)"
proof -
  have "\<not> isControlPlane sample_injector ''ns''" "at_key (po_Labels sample_app) LabelInject = InjectValueAcquire"
    by code_simp+
  with sample_stages show ?thesis
    by (simp add: webhook_Default_def request_ns_def subresourceEphemeralContainers_def Let_def)
qed

theorem injected_pod_is_admitted_witness:
  "ValidateCreate sample_injector (Some (''ns'', [])) (mutate sample_injector sample_resolved sample_fenced) = None \<and>
   list_all state_read_only (po_Containers (mutate sample_injector sample_resolved sample_fenced)) \<and>
   list_all state_read_only (po_EphemeralContainers (mutate sample_injector sample_resolved sample_fenced))"
proof -
  have "\<not> isControlPlane sample_injector (request_ns (Some (''ns'', [])) sample_app)"
    "at_key (po_Labels sample_app) LabelInject = InjectValueAcquire"
    by code_simp+
  with injected_pod_is_admitted [OF sample_injected] show ?thesis
    by (simp add: subresourceEphemeralContainers_def)
qed




section \<open>The environment reaches the helper\<close>

text \<open>
  What the code relies on of the kubelet: a literal value without \<open>$\<close> is passed as it is (other
  values are subject to expansion), and a field reference is resolved by \<open>down\<close>.  Of the variables
  that the container does not name, those which the helper reads are not set; others, such as
  \<open>HOSTNAME\<close> and the variables of services, may have any value.
\<close>

definition helper_env :: "string list" where
  "helper_env =
     [EnvLeaseName, EnvLeaseNamespace, EnvMode, EnvEnforce, EnvSignalTarget, EnvTTLSeconds, EnvHeartbeatSecs,
      EnvEnforceGrace, EnvReleaseOnDown, EnvHolderIdentity, EnvClusterID, EnvWorkloadKind, EnvWorkloadName,
      EnvStateDir, EnvAPIServer, EnvAPIKey, EnvAPIKeyFile, EnvCABundleFile, EnvServerName, EnvInsecure,
      EnvPodNamespace, EnvPodName, EnvPodUID]"

definition env_delivers :: "EnvVar list \<Rightarrow> (string \<Rightarrow> string) \<Rightarrow> (string \<Rightarrow> string) \<Rightarrow> bool" where
  "env_delivers env down get \<longleftrightarrow>
     (\<forall>e \<in> set env. case ev_FieldRef e of
          None \<Rightarrow> CHR ''$'' \<notin> set (ev_Value e) \<longrightarrow> get (ev_Name e) = ev_Value e
        | Some f \<Rightarrow> get (ev_Name e) = down f) \<and>
     (\<forall>k \<in> set helper_env. k \<notin> ev_Name ` set env \<longrightarrow> get k = [])"

definition plain_env :: "EnvVar list \<Rightarrow> bool" where
  "plain_env env \<longleftrightarrow> list_all (\<lambda>e. CHR ''$'' \<notin> set (ev_Value e)) env"

definition env_base :: "InjectorConfig \<Rightarrow> resolved \<Rightarrow> EnvVar list" where
  "env_base cfg r =
     [env_value EnvLeaseName (rs_leaseName r), env_value EnvLeaseNamespace (rs_leaseNamespace r),
      env_value EnvMode (rs_mode r), env_value EnvEnforce (rs_enforce r),
      env_value EnvTTLSeconds (FormatInt (rs_ttlSeconds r)), env_value EnvStateDir (ic_StateDir cfg),
      fieldRef EnvPodNamespace ''metadata.namespace'', fieldRef EnvPodName ''metadata.name'',
      fieldRef EnvPodUID ''metadata.uid'']"

definition env_opts :: "InjectorConfig \<Rightarrow> resolved \<Rightarrow> (bool \<times> string \<times> string) list" where
  "env_opts cfg r =
     [(rs_signalTarget r \<noteq> [] \<and> rs_enforce r = EnforceSignal, EnvSignalTarget, rs_signalTarget r),
      (rs_heartbeatSeconds r > 0, EnvHeartbeatSecs, FormatInt (rs_heartbeatSeconds r)),
      (rs_enforceGrace r > 0, EnvEnforceGrace, FormatInt (rs_enforceGrace r)),
      (rs_releaseOnDown r \<noteq> [], EnvReleaseOnDown, rs_releaseOnDown r),
      (rs_holderIdentity r \<noteq> [], EnvHolderIdentity, rs_holderIdentity r),
      (rs_workloadKind r \<noteq> [], EnvWorkloadKind, rs_workloadKind r),
      (rs_workloadName r \<noteq> [], EnvWorkloadName, rs_workloadName r),
      (ic_ClusterID cfg \<noteq> [], EnvClusterID, ic_ClusterID cfg),
      (ic_APIServer cfg \<noteq> [], EnvAPIServer, ic_APIServer cfg),
      (ic_APIKeyFile cfg \<noteq> [], EnvAPIKeyFile, ic_APIKeyFile cfg),
      (ic_CABundleFile cfg \<noteq> [], EnvCABundleFile, ic_CABundleFile cfg),
      (ic_ServerName cfg \<noteq> [], EnvServerName, ic_ServerName cfg),
      (ic_InsecureSkipVerify cfg, EnvInsecure, ''true'')]"

lemma appendIf_fold:
  "fold (\<lambda>(cond, name, v). appendIf cond name v) opts env =
     env @ map (\<lambda>(c, n, v). env_value n v) (filter fst opts)"
  by (induction opts arbitrary: env) (auto simp: appendIf_def)

lemma buildEnv_parts:
  "buildEnv cfg r = env_base cfg r @ map (\<lambda>(c, n, v). env_value n v) (filter fst (env_opts cfg r))"
  unfolding buildEnv_def appendIf_fold env_base_def env_opts_def ..

lemma env_names_distinct:
  "distinct (map ev_Name (env_base cfg r) @ map (fst \<circ> snd) (env_opts cfg r))"
  "EnvAPIKey \<notin> set (map ev_Name (env_base cfg r) @ map (fst \<circ> snd) (env_opts cfg r))"
  by (simp_all add: env_base_def env_opts_def env_value_def fieldRef_def env_names)

lemma get_opt:
  assumes "env_delivers (buildEnv cfg r) down get" and "plain_env (buildEnv cfg r)"
    and "(c, n, v) \<in> set (env_opts cfg r)"
  shows "get n = (if c then v else [])"
proof (cases c)
  case True
  then have "env_value n v \<in> set (buildEnv cfg r)"
    using assms(3) by (force simp: buildEnv_parts)
  with assms(1,2) True show ?thesis
    by (fastforce simp: env_delivers_def plain_env_def list_all_iff env_value_def)
next
  case False
  have "n \<notin> ev_Name ` set (buildEnv cfg r)"
  proof
    assume "n \<in> ev_Name ` set (buildEnv cfg r)"
    then have "n \<in> set (map ev_Name (env_base cfg r)) \<or> (\<exists>v'. (True, n, v') \<in> set (env_opts cfg r))"
      by (auto simp: buildEnv_parts env_value_def)
    moreover have "n \<in> set (map (fst \<circ> snd) (env_opts cfg r))" using assms(3) by force
    moreover have "(c, n, v) = (True, n, v')" if "(True, n, v') \<in> set (env_opts cfg r)" for v'
    proof -
      have "inj_on (fst \<circ> snd) (set (env_opts cfg r))"
        using env_names_distinct(1) [of cfg r] by (simp add: distinct_map)
      from inj_onD [OF this _ assms(3) that] show ?thesis by simp
    qed
    ultimately show False using env_names_distinct(1) [of cfg r] False by auto
  qed
  moreover have "n \<in> set helper_env"
    using assms(3) by (auto simp: env_opts_def helper_env_def)
  ultimately show ?thesis using assms(1) False by (simp add: env_delivers_def)
qed

lemma get_base:
  assumes "env_delivers (buildEnv cfg r) down get" and "plain_env (buildEnv cfg r)"
  shows "env_value n v \<in> set (env_base cfg r) \<Longrightarrow> get n = v"
    and "fieldRef n f \<in> set (env_base cfg r) \<Longrightarrow> get n = down f"
proof -
  have sub: "set (env_base cfg r) \<subseteq> set (buildEnv cfg r)" by (simp add: buildEnv_parts)
  show "get n = v" if "env_value n v \<in> set (env_base cfg r)"
    using that sub assms by (fastforce simp: env_delivers_def plain_env_def list_all_iff env_value_def)
  show "get n = down f" if "fieldRef n f \<in> set (env_base cfg r)"
    using that sub assms by (fastforce simp: env_delivers_def fieldRef_def)
qed

lemma get_other:
  assumes "env_delivers (buildEnv cfg r) down get"
  shows "get EnvAPIKey = []"
proof -
  have "EnvAPIKey \<notin> ev_Name ` set (buildEnv cfg r)"
    using env_names_distinct(2) [of cfg r] by (force simp: buildEnv_parts env_value_def)
  moreover have "EnvAPIKey \<in> set helper_env" by (simp add: helper_env_def)
  ultimately show ?thesis using assms by (simp add: env_delivers_def)
qed

lemma get_all:
  assumes "env_delivers (buildEnv cfg r) down get" and "plain_env (buildEnv cfg r)"
  shows "get EnvLeaseName = rs_leaseName r" "get EnvLeaseNamespace = rs_leaseNamespace r" "get EnvMode = rs_mode r"
    "get EnvEnforce = rs_enforce r" "get EnvTTLSeconds = FormatInt (rs_ttlSeconds r)"
    "get EnvStateDir = ic_StateDir cfg" "get EnvPodNamespace = down ''metadata.namespace''"
    "get EnvPodName = down ''metadata.name''" "get EnvPodUID = down ''metadata.uid''"
    "get EnvSignalTarget = (if rs_signalTarget r \<noteq> [] \<and> rs_enforce r = EnforceSignal then rs_signalTarget r else [])"
    "get EnvHeartbeatSecs = (if rs_heartbeatSeconds r > 0 then FormatInt (rs_heartbeatSeconds r) else [])"
    "get EnvEnforceGrace = (if rs_enforceGrace r > 0 then FormatInt (rs_enforceGrace r) else [])"
    "get EnvReleaseOnDown = rs_releaseOnDown r" "get EnvHolderIdentity = rs_holderIdentity r"
    "get EnvWorkloadKind = rs_workloadKind r" "get EnvWorkloadName = rs_workloadName r"
    "get EnvClusterID = ic_ClusterID cfg" "get EnvAPIServer = ic_APIServer cfg" "get EnvAPIKeyFile = ic_APIKeyFile cfg"
    "get EnvCABundleFile = ic_CABundleFile cfg" "get EnvServerName = ic_ServerName cfg"
    "get EnvInsecure = (if ic_InsecureSkipVerify cfg then ''true'' else [])" "get EnvAPIKey = []"
proof -
  note b = get_base [OF assms] and o = get_opt [OF assms]
  show "get EnvLeaseName = rs_leaseName r" "get EnvLeaseNamespace = rs_leaseNamespace r" "get EnvMode = rs_mode r"
    "get EnvEnforce = rs_enforce r" "get EnvTTLSeconds = FormatInt (rs_ttlSeconds r)"
    "get EnvStateDir = ic_StateDir cfg"
    by (rule b(1); simp add: env_base_def)+
  show "get EnvPodNamespace = down ''metadata.namespace''"
    "get EnvPodName = down ''metadata.name''" "get EnvPodUID = down ''metadata.uid''"
    by (rule b(2); simp add: env_base_def)+
  show "get EnvSignalTarget = (if rs_signalTarget r \<noteq> [] \<and> rs_enforce r = EnforceSignal then rs_signalTarget r else [])"
    "get EnvHeartbeatSecs = (if rs_heartbeatSeconds r > 0 then FormatInt (rs_heartbeatSeconds r) else [])"
    "get EnvEnforceGrace = (if rs_enforceGrace r > 0 then FormatInt (rs_enforceGrace r) else [])"
    "get EnvInsecure = (if ic_InsecureSkipVerify cfg then ''true'' else [])"
    by (rule o; simp add: env_opts_def)+
  have "get n = v" if "(v \<noteq> [], n, v) \<in> set (env_opts cfg r)" for n v
    using o [OF that] by (simp split: if_splits)
  then show "get EnvReleaseOnDown = rs_releaseOnDown r" "get EnvHolderIdentity = rs_holderIdentity r"
    "get EnvWorkloadKind = rs_workloadKind r" "get EnvWorkloadName = rs_workloadName r"
    "get EnvClusterID = ic_ClusterID cfg" "get EnvAPIServer = ic_APIServer cfg" "get EnvAPIKeyFile = ic_APIKeyFile cfg"
    "get EnvCABundleFile = ic_CABundleFile cfg" "get EnvServerName = ic_ServerName cfg"
    by (simp_all add: env_opts_def)
  show "get EnvAPIKey = []" by (rule get_other [OF assms(1)])
qed

text \<open>The configuration that the helper of an injected pod reads.\<close>

definition injected_config :: "InjectorConfig \<Rightarrow> resolved \<Rightarrow> (string \<Rightarrow> string) \<Rightarrow> Config" where
  "injected_config cfg r down =
     \<lparr>cf_LeaseName = rs_leaseName r, cf_LeaseNamespace = rs_leaseNamespace r, cf_Mode = rs_mode r,
      cf_Enforce = rs_enforce r, cf_TTL = rs_ttlSeconds r * second,
      cf_HeartbeatInterval = rs_heartbeatSeconds r * second, cf_EnforceGrace = rs_enforceGrace r * second,
      cf_SignalTarget = (if rs_enforce r = EnforceSignal then rs_signalTarget r else []),
      cf_ReleaseOnShutdown = (if rs_releaseOnDown r = [] then None else Some (rs_releaseOnDown r = ''true'')),
      cf_HolderIdentity = rs_holderIdentity r, cf_ClusterID = ic_ClusterID cfg,
      cf_PodNamespace = down ''metadata.namespace'', cf_PodName = down ''metadata.name'',
      cf_PodUID = down ''metadata.uid'', cf_WorkloadKind = rs_workloadKind r, cf_WorkloadName = rs_workloadName r,
      cf_StateDir = ic_StateDir cfg, cf_APIServer = ic_APIServer cfg, cf_APIKey = [],
      cf_APIKeyFile = ic_APIKeyFile cfg, cf_CABundleFile = ic_CABundleFile cfg, cf_ServerName = ic_ServerName cfg,
      cf_InsecureSkipVerify = ic_InsecureSkipVerify cfg\<rparr>"

lemma resolved_valid:
  assumes "resolved_validate r = None"
  shows "rs_leaseName r \<noteq> []" "rs_mode r \<in> {ModeStartupGate, ModeRuntimeSingleton}"
    "rs_enforce r \<in> {EnforceProbe, EnforceSignal}"
    "rs_mode r = ModeRuntimeSingleton \<Longrightarrow> rs_enforce r = EnforceSignal \<Longrightarrow> rs_signalTarget r \<noteq> []"
    "0 < rs_ttlSeconds r" "rs_ttlSeconds r \<le> 2147483647" "0 \<le> rs_heartbeatSeconds r"
    "rs_heartbeatSeconds r < rs_ttlSeconds r" "0 \<le> rs_enforceGrace r"
    "rs_releaseOnDown r \<in> {[], ''true'', ''false''}"
  using assms by (simp_all add: resolved_validate_def guard_None not_less not_le) (auto simp: not_le)

lemma secondsEnv_FormatInt:
  "get k = (if n > 0 then FormatInt n else []) \<Longrightarrow> 0 \<le> n \<Longrightarrow> n \<le> 9223372036 \<Longrightarrow> secondsEnv get k = Inr (n * second)"
  by (auto simp: secondsEnv_def FormatInt_nonempty ParseInt_FormatInt seconds_id)

lemma ConfigFromEnv_injected:
  assumes v: "resolved_validate r = None" and d: "env_delivers (buildEnv cfg r) down get" and pl: "plain_env (buildEnv cfg r)"
    and g: "rs_enforceGrace r \<le> 9223372036"
  shows "ConfigFromEnv get = Inr (injected_config cfg r down)"
proof -
  note get = get_all [OF d pl] and valid = resolved_valid [OF v]
  have "secondsEnv get EnvTTLSeconds = Inr (rs_ttlSeconds r * second)"
    using valid(5,6) by (intro secondsEnv_FormatInt) (simp_all add: get)
  moreover have "secondsEnv get EnvHeartbeatSecs = Inr (rs_heartbeatSeconds r * second)"
    using valid(6-8) by (intro secondsEnv_FormatInt) (simp_all add: get)
  moreover have "secondsEnv get EnvEnforceGrace = Inr (rs_enforceGrace r * second)"
    using valid(9) g by (intro secondsEnv_FormatInt) (simp_all add: get)
  moreover have "boolEnv get EnvReleaseOnDown =
      Inr (if rs_releaseOnDown r = [] then None else Some (rs_releaseOnDown r = ''true''))"
    using valid(10) by (auto simp: boolEnv_def get ParseBool_def)
  moreover have "boolEnv get EnvInsecure = Inr (if ic_InsecureSkipVerify cfg then Some True else None)"
    by (simp add: boolEnv_def get ParseBool_def)
  ultimately show ?thesis
    by (simp add: ConfigFromEnv_def get injected_config_def)
qed

lemma third_bounds: "0 < n \<Longrightarrow> 0 < (n * second) sdiv 3 \<and> (n * second) sdiv 3 < n * second"
  by (simp add: signed_divide_int_def) linarith

lemma injected_config_checks:
  assumes v: "resolved_validate r = None" and "rs_leaseNamespace r \<noteq> []" and "ic_APIServer cfg \<noteq> []"
    and u: "rs_mode r = ModeRuntimeSingleton \<Longrightarrow> rs_holderIdentity r = [] \<Longrightarrow>
      down ''metadata.uid'' \<noteq> [] \<and> \<not> ContainsAny (down ''metadata.uid'') uid_separators \<and>
      TrimSpace (down ''metadata.uid'') = down ''metadata.uid'' \<and>
      length (Config_Holder (ApplyDefaults (injected_config cfg r down))) \<le> 253"
  shows "check_config (ApplyDefaults (injected_config cfg r down)) = None"
proof -
  let ?c = "injected_config cfg r down"
  note valid = resolved_valid [OF v]
  have ne: "rs_mode r \<noteq> []" "rs_enforce r \<noteq> []"
    using valid(2,3) by (auto simp: ModeStartupGate_def ModeRuntimeSingleton_def EnforceProbe_def EnforceSignal_def)
  have f: "cf_LeaseName ?c = rs_leaseName r" "cf_LeaseNamespace ?c = rs_leaseNamespace r" "cf_Mode ?c = rs_mode r"
    "cf_Enforce ?c = rs_enforce r" "cf_TTL ?c = rs_ttlSeconds r * second"
    "cf_HeartbeatInterval ?c = rs_heartbeatSeconds r * second" "cf_EnforceGrace ?c = rs_enforceGrace r * second"
    "cf_SignalTarget ?c = (if rs_enforce r = EnforceSignal then rs_signalTarget r else [])"
    "cf_HolderIdentity ?c = rs_holderIdentity r" "cf_PodUID ?c = down ''metadata.uid''"
    "cf_APIServer ?c = ic_APIServer cfg" "cf_APIKey ?c = []"
    by (simp_all add: injected_config_def)
  let ?hb = "if rs_heartbeatSeconds r * second \<le> 0 \<and> 0 < rs_ttlSeconds r * second
    then rs_ttlSeconds r * second sdiv 3 else rs_heartbeatSeconds r * second"
  have "0 < ?hb \<and> ?hb < rs_ttlSeconds r * second"
    using third_bounds [OF valid(5)] valid(5,7,8) by auto
  with valid ne assms(2,3) u show ?thesis
    by (simp add: check_config_def guard_None ApplyDefaults_sel f not_le not_less) auto
qed

lemma resolve_valid: "resolve cfg pod ns = Inr r \<Longrightarrow> resolved_validate r = None"
  by (auto simp: resolve_def Let_def split: sum.splits option.splits if_splits)

lemma find_delivers:
  assumes "distinct (map ev_Name env)" and "x \<notin> ev_Name ` set env" and "x \<notin> set helper_env"
  shows "env_delivers env down (\<lambda>k. if k = x then v else (case find (\<lambda>e. ev_Name e = k) env of
       None \<Rightarrow> [] | Some e \<Rightarrow> (case ev_FieldRef e of None \<Rightarrow> ev_Value e | Some f \<Rightarrow> down f)))"
proof -
  have hit: "find (\<lambda>e. ev_Name e = ev_Name x) env = Some x" if "x \<in> set env" for x
    using assms(1) that by (induction env) auto
  have "find (\<lambda>e. ev_Name e = k) env = None" if "k \<notin> ev_Name ` set env" for k
    using that by (auto simp: find_None_iff)
  with hit assms(2,3) show ?thesis
    by (auto simp: env_delivers_def split: option.splits)
qed

text \<open>
  C36. What the webhook decides reaches the helper. Let an admitted pod be resolved to \<open>r\<close> (the
  annotations, the owner and the defaults). If the kubelet passes the environment of the injected
  container as documented, the variables which the helper reads and the container does not name are
  unset, no value holds a \<open>$\<close>, and the grace period is at most 9223372036 seconds,
  then \<open>ConfigFromEnv\<close> of the helper succeeds and returns exactly the configuration \<open>r\<close> and the
  injector's settings describe; and when an API server and a lease namespace are set and the downward
  API gives a usable pod UID, the configuration passes the validation of the helper: an admitted pod
  does not fail at start on its configuration.
\<close>

theorem webhook_env_round_trip:
  assumes "resolve cfg pod ns = Inr r"
    and "env_delivers (buildEnv cfg r) down get" and "plain_env (buildEnv cfg r)"
    and "rs_enforceGrace r \<le> 9223372036"
    and "rs_leaseNamespace r \<noteq> []" and "ic_APIServer cfg \<noteq> []"
    and "down ''metadata.uid'' \<noteq> []" and "\<not> ContainsAny (down ''metadata.uid'') uid_separators"
    and "TrimSpace (down ''metadata.uid'') = down ''metadata.uid''"
    and "length (Config_Holder (ApplyDefaults (injected_config cfg r down))) \<le> 253"
  shows "ConfigFromEnv get = Inr (injected_config cfg r down) \<and>
    Config_Validate (injected_config cfg r down) = (None, ApplyDefaults (injected_config cfg r down))"
proof (rule conjI)
  have v: "resolved_validate r = None"
    using assms(1) by (rule resolve_valid)
  show "ConfigFromEnv get = Inr (injected_config cfg r down)"
    using v assms(2-4) by (rule ConfigFromEnv_injected)
  show "Config_Validate (injected_config cfg r down) = (None, ApplyDefaults (injected_config cfg r down))"
    using injected_config_checks [OF v] assms(5-10) by (simp add: Config_Validate_def Let_def)
qed

definition sample_down :: "string \<Rightarrow> string" where
  "sample_down f = (if f = ''metadata.uid'' then ''u1'' else if f = ''metadata.name'' then ''nightly-1'' else ''ns'')"

definition sample_get :: "string \<Rightarrow> string" where
  "sample_get k = (if k = ''HOSTNAME'' then ''nightly-1''
     else (case find (\<lambda>e. ev_Name e = k) (buildEnv sample_injector sample_resolved) of
       None \<Rightarrow> [] | Some e \<Rightarrow> (case ev_FieldRef e of None \<Rightarrow> ev_Value e | Some f \<Rightarrow> sample_down f)))"

theorem webhook_env_round_trip_witness:
  "ConfigFromEnv sample_get = Inr (injected_config sample_injector sample_resolved sample_down) \<and>
   fst (Config_Validate (injected_config sample_injector sample_resolved sample_down)) = None"
proof -
  let ?env = "buildEnv sample_injector sample_resolved"
  have d: "distinct (map ev_Name ?env)" "plain_env ?env" "\<not> list_ex (\<lambda>n. n = ''HOSTNAME'') (map ev_Name ?env)"
    "\<not> list_ex (\<lambda>n. n = ''HOSTNAME'') helper_env"
    by code_simp+
  then have "''HOSTNAME'' \<notin> ev_Name ` set ?env" "''HOSTNAME'' \<notin> set helper_env"
    by (auto simp: list_ex_iff)
  from find_delivers [OF d(1) this, of sample_down "''nightly-1''"]
  have "env_delivers ?env sample_down sample_get"
    by (simp add: sample_get_def [abs_def])
  moreover have "length (Config_Holder (ApplyDefaults (injected_config sample_injector sample_resolved sample_down))) \<le> 253"
    "rs_enforceGrace sample_resolved \<le> 9223372036" "rs_leaseNamespace sample_resolved \<noteq> []" "ic_APIServer sample_injector \<noteq> []"
    "sample_down ''metadata.uid'' \<noteq> []" "\<not> ContainsAny (sample_down ''metadata.uid'') uid_separators"
    "TrimSpace (sample_down ''metadata.uid'') = sample_down ''metadata.uid''"
    by code_simp+
  ultimately show ?thesis
    using webhook_env_round_trip [OF sample_stages(2)] d(2) by simp
qed

end
