(* ===== verification/Operator_Types.thy ===== *)
theory Operator_Types
  imports Berth_Client "HOL-Library.State_Monad"
begin

text \<open>
  The data of the operator: the \<open>BerthLease\<close> resource (\<open>api/v1alpha1/types.go\<close>), the parts of the
  Kubernetes objects that the operator reads and writes, and the operations it calls.

  The Kubernetes API server and the central lease API are parameters: a record of operations on a
  world, each an action of the state monad.  A call whose context has expired is a call that
  returns an error.  Objects handled as \<open>unstructured.Unstructured\<close> are records with one field per
  path that the code reads; a field of type \<open>nested\<close> is what the accessor of apimachinery
  returns for it (the value, nothing, or an error for a value of another type).

  The second part of the theory is the calculus of the proofs about such actions: \<open>ensures P m Q\<close>
  is the statement that \<open>m\<close>, started in a world with \<open>P\<close>, ends in a result and world with \<open>Q\<close>;
  its rules are the collection \<open>wp\<close>.
\<close>

section \<open>The BerthLease resource\<close>

record TargetRef =
  tr_APIVersion :: string
  tr_Kind :: string
  tr_Name :: string

record ScaleAction =
  sc_Replicas :: int32

record LeaseAction =
  la_Suspend :: "bool option"
  la_Scale :: "ScaleAction option"

record BerthLeaseSpec =
  bs_LeaseName :: string
  bs_HolderIdentity :: string
  bs_TTLSeconds :: int32
  bs_HeartbeatIntervalSeconds :: int32
  bs_Semantics :: string
  bs_Target :: "TargetRef option"
  bs_AcquireAction :: "LeaseAction option"
  bs_ReleaseAction :: "LeaseAction option"

record PermittedPod =
  pp_Name :: string
  pp_UID :: string

record WorkloadStatus =
  ws_TargetUID :: string
  ws_Phase :: string
  ws_Deadline :: "time option"
  ws_LeaseName :: string
  ws_Holder :: string
  ws_Token :: int32
  ws_Pods :: "PermittedPod list"

text \<open>A condition of the status; its message is kept as the error value it is the text of.\<close>

record Condition =
  cn_Type :: string
  cn_Status :: bool
  cn_Reason :: string
  cn_Message :: goerr
  cn_ObservedGeneration :: int64

record BerthLeaseStatus =
  bt_Workload :: "WorkloadStatus option"
  bt_ObservedGeneration :: int64
  bt_LeaseState :: string
  bt_CurrentHolder :: string
  bt_Tenant :: string
  bt_AcquiredAt :: "time option"
  bt_ExpiresAt :: "time option"
  bt_LastHeartbeat :: "time option"
  bt_FencingToken :: int32
  bt_Conditions :: "Condition list"

record BerthLease =
  bl_Namespace :: string
  bl_Name :: string
  bl_UID :: string
  bl_ResourceVersion :: string
  bl_Generation :: int64
  bl_Finalizers :: "string list"
  bl_DeletionTimestamp :: "time option"
  bl_Spec :: BerthLeaseSpec
  bl_Status :: BerthLeaseStatus

section \<open>Kubernetes objects\<close>

text \<open>Reading a Go map with an absent key gives the zero value.\<close>

definition entry :: "(string \<rightharpoonup> string) \<Rightarrow> string \<Rightarrow> string" where
  "entry m k = (case m k of None \<Rightarrow> [] | Some v \<Rightarrow> v)"

lemma entry_simps [simp]:
  "entry (m(k \<mapsto> v)) k = v" "k \<noteq> k' \<Longrightarrow> entry (m(k' \<mapsto> v)) k = entry m k"
  by (simp_all add: entry_def)

record owner_reference =
  or_APIVersion :: string
  or_Kind :: string
  or_Name :: string
  or_UID :: string
  or_Controller :: "bool option"

record mpod =
  mp_Namespace :: string
  mp_Name :: string
  mp_UID :: string
  mp_ResourceVersion :: string
  mp_Labels :: "string \<rightharpoonup> string"
  mp_Annotations :: "string \<rightharpoonup> string"
  mp_OwnerReferences :: "owner_reference list"
  mp_SchedulingGates :: "string list"
  mp_Phase :: string
  mp_DeletionTimestamp :: "time option"

record mjob =
  mj_Namespace :: string
  mj_Name :: string
  mj_UID :: string
  mj_Annotations :: "string \<rightharpoonup> string"
  mj_Suspend :: "bool option"
  mj_DeletionTimestamp :: "time option"

text \<open>
  What \<open>unstructured.NestedBool\<close> and its siblings return: the value, nothing at the path, or an
  error.  Code that drops the flag and the error reads the zero value in both other cases.
\<close>

datatype 'a nested = Absent | WrongType goerr | Present 'a

fun nested_or :: "'a \<Rightarrow> 'a nested \<Rightarrow> 'a" where
  "nested_or z (Present v) = v"
| "nested_or z Absent = z"
| "nested_or z (WrongType e) = z"

text \<open>
  The spec of a pod or of a pod template: the scheduling gates (an element is \<open>Some n\<close> when it is
  a map with name \<open>n\<close>), the node name, and everything else.
\<close>

record pod_body =
  pb_Gates :: "string option list nested"
  pb_NodeName :: "string nested"
  pb_Rest :: string

record template =
  tp_Labels :: "string \<rightharpoonup> string"
  tp_Annotations :: "string \<rightharpoonup> string"
  tp_Body :: pod_body

text \<open>
  An unstructured object.  \<open>uo_Body\<close> is the spec of a pod; \<open>uo_Template\<close> is the pod template at the
  path of the object's kind and \<open>uo_JobTemplate\<close> the labels and annotations of the job template
  of a \<open>CronJob\<close>.
\<close>

record uobj =
  uo_APIVersion :: string
  uo_Kind :: string
  uo_Namespace :: string
  uo_Name :: string
  uo_UID :: string
  uo_ResourceVersion :: string
  uo_Labels :: "string \<rightharpoonup> string"
  uo_Annotations :: "string \<rightharpoonup> string"
  uo_OwnerReferences :: "owner_reference list"
  uo_Suspend :: "bool nested"
  uo_Replicas :: "int nested"
  uo_Body :: pod_body
  uo_Template :: "template nested"
  uo_JobTemplate :: "((string \<rightharpoonup> string) \<times> (string \<rightharpoonup> string)) nested"

section \<open>The operations of the environment\<close>

text \<open>
  The Kubernetes client.  The updates of a \<open>BerthLease\<close> return the object as stored, with its new
  resource version, as the client does in place; lists may be restricted to a label with a value;
  deletions carry the UID as a precondition; \<open>kc_Patch orig obj\<close> sends the difference of the two
  objects under the resource version of the first.
\<close>

record 'w kube =
  kc_Now :: "('w, time) state"
  kc_GetLease :: "string \<Rightarrow> string \<Rightarrow> ('w, BerthLease outcome) state"
  kc_ListLeases :: "string \<Rightarrow> ('w, BerthLease list outcome) state"
  kc_UpdateLease :: "BerthLease \<Rightarrow> ('w, BerthLease outcome) state"
  kc_UpdateLeaseStatus :: "BerthLease \<Rightarrow> ('w, BerthLease outcome) state"
  kc_GetObj :: "string \<Rightarrow> string \<Rightarrow> string \<Rightarrow> string \<Rightarrow> ('w, uobj outcome) state"
  kc_Patch :: "uobj \<Rightarrow> uobj \<Rightarrow> string \<Rightarrow> ('w, goerr option) state"
  kc_GetPod :: "string \<Rightarrow> string \<Rightarrow> ('w, mpod outcome) state"
  kc_ListPods :: "string \<Rightarrow> (string \<times> string) option \<Rightarrow> ('w, mpod list outcome) state"
  kc_UpdatePod :: "mpod \<Rightarrow> ('w, goerr option) state"
  kc_DeletePod :: "mpod \<Rightarrow> string \<Rightarrow> ('w, goerr option) state"
  kc_GetJob :: "string \<Rightarrow> string \<Rightarrow> ('w, mjob outcome) state"
  kc_ListJobs :: "string \<Rightarrow> (string \<times> string) option \<Rightarrow> ('w, mjob list outcome) state"
  kc_UpdateJob :: "mjob \<Rightarrow> ('w, goerr option) state"
  kc_DeleteJob :: "mjob \<Rightarrow> string \<Rightarrow> ('w, goerr option) state"
  kc_ParseGroupVersion :: "string \<Rightarrow> string outcome"
  kc_SetStatusCondition :: "Condition list \<Rightarrow> Condition \<Rightarrow> Condition list"

text \<open>The central lease API (\<open>leaseclient.go\<close>); the first argument is the time budget of the call.\<close>

record 'w LeaseClient =
  lc_Acquire :: "duration \<Rightarrow> string \<Rightarrow> string \<Rightarrow> string \<Rightarrow> duration \<Rightarrow> ('w, client_result outcome) state"
  lc_Renew :: "duration \<Rightarrow> string \<Rightarrow> string \<Rightarrow> string \<Rightarrow> int32 \<Rightarrow> duration \<Rightarrow> ('w, client_result outcome) state"
  lc_Release :: "duration \<Rightarrow> string \<Rightarrow> string \<Rightarrow> string \<Rightarrow> int32 \<Rightarrow> ('w, goerr option) state"

abbreviation ret :: "'a \<Rightarrow> ('w, 'a) state" where
  "ret \<equiv> State_Monad.return"

definition FromAPIVersionAndKind :: "'w kube \<Rightarrow> string \<Rightarrow> string \<Rightarrow> string \<times> string" where
  "FromAPIVersionAndKind K apiVersion kind =
     (case kc_ParseGroupVersion K apiVersion of Inl _ \<Rightarrow> ([], kind) | Inr gv \<Rightarrow> (gv, kind))"

definition IgnoreNotFound :: "goerr \<Rightarrow> goerr option" where
  "IgnoreNotFound e = (if errors_Is e ErrNotFound then None else Some e)"

section \<open>Reasoning about actions\<close>

named_theorems wp \<open>rules of the calculus of actions\<close>

definition ensures :: "('w \<Rightarrow> bool) \<Rightarrow> ('w, 'a) state \<Rightarrow> ('a \<Rightarrow> 'w \<Rightarrow> bool) \<Rightarrow> bool" where
  "ensures P m Q \<longleftrightarrow> (\<forall>w. P w \<longrightarrow> (case run_state m w of (a, w') \<Rightarrow> Q a w'))"

lemma ensuresI: "(\<And>w a w'. P w \<Longrightarrow> run_state m w = (a, w') \<Longrightarrow> Q a w') \<Longrightarrow> ensures P m Q"
  by (auto simp: ensures_def)

lemma ensuresD: "ensures P m Q \<Longrightarrow> P w \<Longrightarrow> run_state m w = (a, w') \<Longrightarrow> Q a w'"
  by (auto simp: ensures_def)

lemma ensures_conseq:
  "ensures P' m Q' \<Longrightarrow> (\<And>w. P w \<Longrightarrow> P' w) \<Longrightarrow> (\<And>a w. Q' a w \<Longrightarrow> Q a w) \<Longrightarrow> ensures P m Q"
  by (fastforce simp: ensures_def split: prod.splits)

lemma ensures_return [wp]: "(\<And>w. P w \<Longrightarrow> Q x w) \<Longrightarrow> ensures P (ret x) Q"
  by (simp add: ensures_def)

lemma ensures_bind:
  "ensures P m R \<Longrightarrow> (\<And>x. ensures (R x) (f x) Q) \<Longrightarrow> ensures P (State_Monad.bind m f) Q"
  by (fastforce simp: ensures_def split: prod.splits)

lemma ensures_if [wp]:
  "(b \<Longrightarrow> ensures P m Q) \<Longrightarrow> (\<not> b \<Longrightarrow> ensures P m' Q) \<Longrightarrow> ensures P (if b then m else m') Q"
  by simp

lemma ensures_option [wp]:
  "(x = None \<Longrightarrow> ensures P m Q) \<Longrightarrow> (\<And>y. x = Some y \<Longrightarrow> ensures P (f y) Q) \<Longrightarrow>
    ensures P (case x of None \<Rightarrow> m | Some y \<Rightarrow> f y) Q"
  by (cases x) simp_all

lemma ensures_sum [wp]:
  "(\<And>e. x = Inl e \<Longrightarrow> ensures P (g e) Q) \<Longrightarrow> (\<And>y. x = Inr y \<Longrightarrow> ensures P (f y) Q) \<Longrightarrow>
    ensures P (case x of Inl e \<Rightarrow> g e | Inr y \<Rightarrow> f y) Q"
  by (cases x) simp_all

lemma ensures_Let [wp]: "(\<And>y. y = x \<Longrightarrow> ensures P (f y) Q) \<Longrightarrow> ensures P (let y = x in f y) Q"
  by simp

lemma ensures_prod [wp]:
  "(\<And>a b. x = (a, b) \<Longrightarrow> ensures P (f a b) Q) \<Longrightarrow> ensures P (case x of (a, b) \<Rightarrow> f a b) Q"
  by (cases x) simp

text \<open>A fact that does not depend on the world can be used as a hypothesis.\<close>

lemma ensures_pure: "(A \<Longrightarrow> ensures P m Q) \<Longrightarrow> ensures (\<lambda>w. A \<and> P w) m Q"
  by (auto simp: ensures_def)

end
