(* ===== verification/Operator_Admission.thy ===== *)
theory Operator_Admission
  imports Operator_Types
begin

text \<open>
  Admission of managed workloads (\<open>internal/operator/admission.go\<close>), with the constants and
  predicates of \<open>workload.go\<close> that it shares with the reconcilers: finding the lease an object
  belongs to through its chain of controllers, stamping its identity and the scheduling gate on
  creation, and the validation that keeps both.
\<close>

section \<open>Constants and predicates (workload.go)\<close>

definition ManagedLease :: string where "ManagedLease = ''berth.skaphos.io/managed-lease''"
definition ManagedUID :: string where "ManagedUID = ''berth.skaphos.io/managed-lease-uid''"
definition SchedulingGate :: string where "SchedulingGate = ''berth.skaphos.io/lease-held''"
definition PhaseActive :: string where "PhaseActive = ''Active''"
definition PhaseStopping :: string where "PhaseStopping = ''Stopping''"
definition maxPermittedPods :: nat where "maxPermittedPods = 1024"
definition localTimeout :: duration where "localTimeout = 5 * second"

lemma phases_distinct [simp]:
  "PhaseActive \<noteq> PhaseStopping" "PhaseStopping \<noteq> PhaseActive" "PhaseActive \<noteq> []" "PhaseStopping \<noteq> []"
  by (simp_all add: PhaseActive_def PhaseStopping_def)

lemma managed_keys_distinct [simp]: "ManagedLease \<noteq> ManagedUID" "ManagedUID \<noteq> ManagedLease"
  by (simp_all add: ManagedLease_def ManagedUID_def)

definition hasGate :: "mpod \<Rightarrow> bool" where
  "hasGate p \<longleftrightarrow> list_ex (\<lambda>g. g = SchedulingGate) (mp_SchedulingGates p)"

definition workloadSpec :: "BerthLeaseSpec \<Rightarrow> goerr option" where
  "workloadSpec spec =
     (case bs_Target spec of
        None \<Rightarrow> (if bs_AcquireAction spec \<noteq> None \<or> bs_ReleaseAction spec \<noteq> None
                 then Some (ErrText ''actions require a target'') else None)
      | Some t \<Rightarrow>
          if tr_Name t = [] then Some (ErrText ''target name is required'')
          else (case (bs_AcquireAction spec, bs_ReleaseAction spec) of
             (Some a, Some b) \<Rightarrow>
               if tr_APIVersion t = ''batch/v1'' \<and> tr_Kind t = ''CronJob'' then
                 (if la_Suspend a \<noteq> Some False \<or> la_Scale a \<noteq> None \<or> la_Suspend b \<noteq> Some True \<or> la_Scale b \<noteq> None
                  then Some (ErrText ''CronJobs require acquire suspend=false and release suspend=true'') else None)
               else if tr_APIVersion t \<noteq> ''apps/v1'' \<or>
                   (tr_Kind t \<noteq> ''Deployment'' \<and> tr_Kind t \<noteq> ''StatefulSet'' \<and> tr_Kind t \<noteq> ''ReplicaSet'') then
                 Some (ErrText ''supported targets are apps/v1 Deployment, StatefulSet, ReplicaSet and batch/v1 CronJob'')
               else if (case la_Scale a of None \<Rightarrow> True | Some s \<Rightarrow> sint (sc_Replicas s) < 0) \<or> la_Suspend a \<noteq> None \<or>
                   (case la_Scale b of None \<Rightarrow> True | Some s \<Rightarrow> sc_Replicas s \<noteq> 0) \<or> la_Suspend b \<noteq> None then
                 Some (ErrText ''scalable targets require scale actions and scale-to-zero release'')
               else None
           | _ \<Rightarrow> Some (ErrText ''managed targets require acquireAction and releaseAction'')))"

text \<open>The group, version and kind an unstructured target object is read under.\<close>

definition targetObject :: "'w kube \<Rightarrow> TargetRef option \<Rightarrow> string \<times> string" where
  "targetObject K t = (case t of None \<Rightarrow> ([], []) | Some r \<Rightarrow> FromAPIVersionAndKind K (tr_APIVersion r) (tr_Kind r))"

definition activeAt :: "BerthLease \<Rightarrow> time \<Rightarrow> bool" where
  "activeAt l now \<longleftrightarrow> bl_DeletionTimestamp l = None \<and>
     (case bt_Workload (bl_Status l) of
        None \<Rightarrow> False
      | Some w \<Rightarrow> ws_Phase w = PhaseActive \<and>
          (case ws_Deadline w of None \<Rightarrow> False | Some d \<Rightarrow> time_Before now d) \<and> 0 < sint (ws_Token w))"

section \<open>The lease an object belongs to\<close>

record binding =
  bd_name :: string
  bd_uid :: string
  bd_targetUID :: string

definition no_binding :: binding where
  "no_binding = \<lparr>bd_name = [], bd_uid = [], bd_targetUID = []\<rparr>"

text \<open>A \<open>ctrlclient.Object\<close> is here a typed pod or an unstructured object.\<close>

datatype object = PodObj mpod | UObj uobj

fun obj_Namespace :: "object \<Rightarrow> string" where
  "obj_Namespace (PodObj p) = mp_Namespace p" | "obj_Namespace (UObj u) = uo_Namespace u"

fun obj_Name :: "object \<Rightarrow> string" where
  "obj_Name (PodObj p) = mp_Name p" | "obj_Name (UObj u) = uo_Name u"

fun obj_UID :: "object \<Rightarrow> string" where
  "obj_UID (PodObj p) = mp_UID p" | "obj_UID (UObj u) = uo_UID u"

fun obj_Annotations :: "object \<Rightarrow> (string \<rightharpoonup> string)" where
  "obj_Annotations (PodObj p) = mp_Annotations p" | "obj_Annotations (UObj u) = uo_Annotations u"

fun obj_OwnerReferences :: "object \<Rightarrow> owner_reference list" where
  "obj_OwnerReferences (PodObj p) = mp_OwnerReferences p" | "obj_OwnerReferences (UObj u) = uo_OwnerReferences u"

fun objectKind :: "object \<Rightarrow> string \<times> string" where
  "objectKind (PodObj p) = (''v1'', ''Pod'')"
| "objectKind (UObj u) = (uo_APIVersion u, uo_Kind u)"

definition supportedController :: "string \<Rightarrow> string \<Rightarrow> bool" where
  "supportedController apiVersion kind \<longleftrightarrow>
     apiVersion = ''apps/v1'' \<and> (kind = ''Deployment'' \<or> kind = ''ReplicaSet'' \<or> kind = ''StatefulSet'') \<or>
     apiVersion = ''batch/v1'' \<and> (kind = ''Job'' \<or> kind = ''CronJob'')"

text \<open>The loop over the leases of the namespace: at most one may refer to the object.\<close>

fun find_lease :: "object \<Rightarrow> BerthLease list \<Rightarrow> binding \<Rightarrow> binding outcome" where
  "find_lease obj [] found = Inr found"
| "find_lease obj (l # ls) found =
     (case bs_Target (bl_Spec l) of
        Some t \<Rightarrow>
          if tr_Name t = obj_Name obj \<and> (tr_APIVersion t, tr_Kind t) = objectKind obj then
            (if bd_uid found \<noteq> [] then Inl (ErrText ''multiple BerthLeases refer to the same target'')
             else find_lease obj ls \<lparr>bd_name = bl_Name l, bd_uid = bl_UID l, bd_targetUID = obj_UID obj\<rparr>)
          else find_lease obj ls found
      | None \<Rightarrow> find_lease obj ls found)"

text \<open>An object without a managed binding is not managed, unless it claims to be.\<close>

definition unbound :: "object \<Rightarrow> binding outcome" where
  "unbound obj =
     (if entry (obj_Annotations obj) ManagedUID \<noteq> [] \<or> entry (obj_Annotations obj) ManagedLease \<noteq> []
      then Inl (ErrText ''managed binding has no matching live target lease'') else Inr no_binding)"

text \<open>The end of the chain: the object itself may be the target of a lease.\<close>

definition root_binding :: "'w kube \<Rightarrow> object \<Rightarrow> ('w, binding outcome) state" where
  "root_binding K obj =
     (case objectKind obj of (gv, kind) \<Rightarrow>
        if supportedController gv kind \<and> kind \<noteq> ''Job'' then
          do {
            r \<leftarrow> kc_ListLeases K (obj_Namespace obj);
            ret (case r of
                Inl e \<Rightarrow> Inl e
              | Inr leases \<Rightarrow>
                  (case find_lease obj leases no_binding of
                     Inl e \<Rightarrow> Inl e
                   | Inr found \<Rightarrow> if bd_uid found \<noteq> [] then Inr found else unbound obj))
          }
        else ret (unbound obj))"

function resolveBinding :: "'w kube \<Rightarrow> object \<Rightarrow> nat \<Rightarrow> ('w, binding outcome) state" where
  "resolveBinding K obj depth =
     (if depth > 4 then ret (Inl (ErrText ''workload owner chain exceeds supported depth''))
      else (case find (\<lambda>r. or_Controller r = Some True) (obj_OwnerReferences obj) of
          Some owner \<Rightarrow>
            if supportedController (or_APIVersion owner) (or_Kind owner) then
              (case FromAPIVersionAndKind K (or_APIVersion owner) (or_Kind owner) of (gv, kind) \<Rightarrow>
                do {
                  r \<leftarrow> kc_GetObj K gv kind (obj_Namespace obj) (or_Name owner);
                  (case r of
                     Inl e \<Rightarrow> ret (Inl (ErrWrap ''resolve controller owner'' e))
                   | Inr parent \<Rightarrow>
                       if uo_UID parent \<noteq> or_UID owner then ret (Inl (ErrText ''controller owner UID changed''))
                       else resolveBinding K (UObj parent) (depth + 1))
                })
            else root_binding K obj
        | None \<Rightarrow> root_binding K obj))"
  by pat_completeness auto

termination
  by (relation "measure (\<lambda>(K, obj, depth). 5 - depth)") auto

declare resolveBinding.simps [simp del]

definition expectedBinding :: "'w kube \<Rightarrow> object \<Rightarrow> ('w, binding outcome) state" where
  "expectedBinding K obj = resolveBinding K obj 0"

section \<open>Stamping the binding\<close>

definition stamp :: "binding \<Rightarrow> (string \<rightharpoonup> string) \<times> (string \<rightharpoonup> string) \<Rightarrow> (string \<rightharpoonup> string) \<times> (string \<rightharpoonup> string)" where
  "stamp b = (\<lambda>(labels, annotations).
     (labels(ManagedUID \<mapsto> bd_uid b), annotations(ManagedLease \<mapsto> bd_name b, ManagedUID \<mapsto> bd_uid b)))"

definition bindingMetadata :: "uobj \<Rightarrow> binding \<Rightarrow> uobj" where
  "bindingMetadata obj b =
     (case stamp b (uo_Labels obj, uo_Annotations obj) of (ls, as) \<Rightarrow> obj\<lparr>uo_Labels := ls, uo_Annotations := as\<rparr>)"

definition gateOn :: "pod_body \<Rightarrow> bool" where
  "gateOn body \<longleftrightarrow> Some SchedulingGate \<in> set (nested_or [] (pb_Gates body))"

definition stamp_gates :: "pod_body \<Rightarrow> pod_body outcome" where
  "stamp_gates body =
     (case pb_Gates body of
        WrongType e \<Rightarrow> Inl e
      | gates \<Rightarrow> Inr (body\<lparr>pb_Gates := Present
          (let gs = nested_or [] gates in if gateOn body then gs else gs @ [Some SchedulingGate])\<rparr>))"

definition stampBinding :: "uobj \<Rightarrow> binding \<Rightarrow> uobj outcome" where
  "stampBinding obj0 b =
     (let obj = bindingMetadata obj0 b
      in if uo_Kind obj = ''Pod'' then
           (case stamp_gates (uo_Body obj) of Inl e \<Rightarrow> Inl e | Inr body \<Rightarrow> Inr (obj\<lparr>uo_Body := body\<rparr>))
         else (case uo_Template obj of
             WrongType e \<Rightarrow> Inl e
           | Absent \<Rightarrow> Inl (ErrText ''managed workload requires a Pod template'')
           | Present t \<Rightarrow>
               (case (stamp b (tp_Labels t, tp_Annotations t), stamp_gates (tp_Body t)) of
                  (_, Inl e) \<Rightarrow> Inl e
                | ((ls, as), Inr body) \<Rightarrow>
                    let obj' = obj\<lparr>uo_Template := Present \<lparr>tp_Labels = ls, tp_Annotations = as, tp_Body = body\<rparr>\<rparr>
                    in if uo_Kind obj = ''CronJob'' then
                         (case uo_JobTemplate obj' of
                            WrongType e \<Rightarrow> Inl e
                          | jt \<Rightarrow> Inr (obj'\<lparr>uo_JobTemplate := Present (stamp b (nested_or (Map.empty, Map.empty) jt))\<rparr>))
                       else Inr obj')))"

section \<open>Validation of managed objects\<close>

definition validateMetadata :: "(string \<rightharpoonup> string) \<times> (string \<rightharpoonup> string) \<Rightarrow> binding \<Rightarrow> goerr option" where
  "validateMetadata = (\<lambda>(labels, annotations) b.
     if entry annotations ManagedLease \<noteq> bd_name b \<or> entry annotations ManagedUID \<noteq> bd_uid b \<or>
        entry labels ManagedUID \<noteq> bd_uid b
     then Some (ErrText ''managed workload binding cannot be removed or changed'') else None)"

text \<open>The spec of the pod or of the pod template, with the binding of the template checked.\<close>

definition managed_body :: "uobj \<Rightarrow> binding \<Rightarrow> pod_body outcome" where
  "managed_body obj b =
     (if uo_Kind obj = ''Pod'' then Inr (uo_Body obj)
      else (case uo_Template obj of
          WrongType e \<Rightarrow> Inl e
        | Absent \<Rightarrow> Inl (ErrText ''missing managed Pod template'')
        | Present t \<Rightarrow>
            (case validateMetadata (tp_Labels t, tp_Annotations t) b of Some e \<Rightarrow> Inl e | None \<Rightarrow> Inr (tp_Body t))))"

definition check_pod_update :: "uobj \<Rightarrow> uobj \<Rightarrow> bool \<Rightarrow> goerr option" where
  "check_pod_update obj old operator =
     (if uo_OwnerReferences old \<noteq> uo_OwnerReferences obj then Some (ErrText ''managed Pod owner identity is immutable'')
      else if nested_or [] (pb_NodeName (uo_Body old)) \<noteq> nested_or [] (pb_NodeName (uo_Body obj)) then
        Some (ErrText ''managed Pods must use the binding subresource'')
      else if gateOn (uo_Body old) \<and> \<not> gateOn (uo_Body obj) \<and> \<not> operator then
        Some (ErrText ''only the operator may remove the Berth scheduling gate'')
      else None)"

definition check_body :: "uobj \<Rightarrow> uobj option \<Rightarrow> pod_body \<Rightarrow> bool \<Rightarrow> goerr option" where
  "check_body obj old body operator =
     (if nested_or [] (pb_NodeName body) \<noteq> [] \<and> (uo_Kind obj \<noteq> ''Pod'' \<or> old = None) then
        Some (ErrText ''managed Pods cannot be prebound using nodeName'')
      else (case (uo_Kind obj = ''Pod'', old) of
          (True, Some o') \<Rightarrow> check_pod_update obj o' operator
        | _ \<Rightarrow> if \<not> gateOn body then Some (ErrText ''managed Pod must be created with the Berth scheduling gate'') else None))"

definition validateManagedObject :: "uobj \<Rightarrow> uobj option \<Rightarrow> binding \<Rightarrow> bool \<Rightarrow> goerr option" where
  "validateManagedObject obj old b operator =
     (case validateMetadata (uo_Labels obj, uo_Annotations obj) b of
        Some e \<Rightarrow> Some e
      | None \<Rightarrow>
          (case managed_body obj b of
             Inl e \<Rightarrow> Some e
           | Inr body \<Rightarrow>
               (case check_body obj old body operator of
                  Some e \<Rightarrow> Some e
                | None \<Rightarrow>
                    if uo_Kind obj = ''CronJob''
                    then validateMetadata (nested_or (Map.empty, Map.empty) (uo_JobTemplate obj)) b else None)))"

definition suspends :: "uobj \<Rightarrow> bool" where
  "suspends obj \<longleftrightarrow> uo_Kind obj = ''CronJob'' \<or> uo_Kind obj = ''Job''"

definition increasesActivity :: "uobj \<Rightarrow> uobj \<Rightarrow> bool" where
  "increasesActivity obj old \<longleftrightarrow>
     (if suspends obj then nested_or False (uo_Suspend old) \<and> \<not> nested_or False (uo_Suspend obj)
      else nested_or 0 (uo_Replicas obj) > nested_or 0 (uo_Replicas old))"

definition inactiveTarget :: "uobj \<Rightarrow> bool" where
  "inactiveTarget obj \<longleftrightarrow>
     (if suspends obj then uo_Suspend obj = Present True else uo_Replicas obj = Present 0)"

section \<open>The webhook\<close>

record WorkloadAdmission =
  wa_OperatorUser :: string
  wa_Mutate :: bool

definition SetupWorkloadAdmission :: "string \<Rightarrow> (string \<times> WorkloadAdmission) list outcome" where
  "SetupWorkloadAdmission operatorUser =
     (if operatorUser = [] then Inl (ErrText ''workload admission requires the operator service-account username'')
      else Inr [(''/mutate-managed-workloads'', \<lparr>wa_OperatorUser = operatorUser, wa_Mutate = True\<rparr>),
                (''/validate-managed-workloads'', \<lparr>wa_OperatorUser = operatorUser, wa_Mutate = False\<rparr>)])"

datatype operation = OpCreate | OpUpdate | OpDelete | OpConnect

record admission_review =
  rq_SubResource :: string
  rq_Operation :: operation
  rq_Namespace :: string
  rq_Name :: string
  rq_APIVersion :: string
  rq_Kind :: string
  rq_Object :: string
  rq_OldObject :: string
  rq_Username :: string
  rq_DryRun :: "bool option"

datatype response = Allowed string | Denied goerr | Errored nat goerr | PatchResponse string string

text \<open>The JSON codec: of unstructured objects, and the UID a \<open>Binding\<close> names.\<close>

record codec =
  jc_Unmarshal :: "string \<Rightarrow> uobj outcome"
  jc_Marshal :: "uobj \<Rightarrow> string outcome"
  jc_BindingUID :: "string \<Rightarrow> string outcome"

text \<open>\<open>recordTarget\<close> records the UID of a target that is being created.\<close>

definition record_new_target :: "'w kube \<Rightarrow> uobj \<Rightarrow> BerthLease \<Rightarrow> bool \<Rightarrow> ('w, goerr option) state" where
  "record_new_target K obj l dry =
     (case targetObject K (bs_Target (bl_Spec l)) of (gv, kind) \<Rightarrow>
       do {
         r \<leftarrow> kc_GetObj K gv kind (uo_Namespace obj) (uo_Name obj);
         (case r of
            Inr _ \<Rightarrow> ret (Some (ErrText ''target already exists; CREATE cannot replace its admission record''))
          | Inl e \<Rightarrow>
              if \<not> errors_Is e ErrNotFound then ret (Some e)
              else if dry then ret None
              else do {
                u \<leftarrow> kc_UpdateLeaseStatus K (l\<lparr>bl_Status := (bl_Status l)\<lparr>bt_Workload := Some
                  \<lparr>ws_TargetUID = uo_UID obj, ws_Phase = [], ws_Deadline = None, ws_LeaseName = [], ws_Holder = [],
                   ws_Token = 0, ws_Pods = []\<rparr>\<rparr>\<rparr>);
                ret (case u of Inl e' \<Rightarrow> Some e' | Inr _ \<Rightarrow> None)
              })
       })"

definition cleanup_active :: "BerthLease \<Rightarrow> bool" where
  "cleanup_active l \<longleftrightarrow> (case bt_Workload (bl_Status l) of None \<Rightarrow> False | Some w \<Rightarrow> ws_Phase w \<noteq> [] \<or> ws_Pods w \<noteq> [])"

definition recordTarget :: "'w kube \<Rightarrow> uobj \<Rightarrow> binding \<Rightarrow> bool \<Rightarrow> ('w, goerr option) state" where
  "recordTarget K obj b dry =
     do {
       r \<leftarrow> kc_GetLease K (uo_Namespace obj) (bd_name b);
       (case r of
          Inl e \<Rightarrow> ret (Some e)
        | Inr l \<Rightarrow>
            if bl_UID l \<noteq> bd_uid b \<or> bl_DeletionTimestamp l \<noteq> None then
              ret (Some (ErrText ''target lease is deleted or replaced''))
            else if (case bs_Target (bl_Spec l) of
                 None \<Rightarrow> True
               | Some t \<Rightarrow> tr_Name t \<noteq> uo_Name obj \<or> tr_Kind t \<noteq> uo_Kind obj \<or> tr_APIVersion t \<noteq> uo_APIVersion obj) then
              ret None
            else (case workloadSpec (bl_Spec l) of
                Some e \<Rightarrow> ret (Some e)
              | None \<Rightarrow>
                  if uo_UID obj = [] then ret (Some (ErrText ''final target CREATE admission requires a Kubernetes UID''))
                  else if cleanup_active l then
                    ret (Some (ErrText ''target cannot be replaced while cleanup responsibility is active''))
                  else record_new_target K obj l dry))
     }"

text \<open>The lease must still permit the start of this very pod.\<close>

definition registered :: "BerthLease \<Rightarrow> string \<Rightarrow> string \<Rightarrow> bool" where
  "registered l name uid \<longleftrightarrow>
     (case bt_Workload (bl_Status l) of
        None \<Rightarrow> False
      | Some w \<Rightarrow> list_ex (\<lambda>p. pp_UID p = uid \<and> pp_Name p = name) (ws_Pods w))"

definition validatePermit :: "'w kube \<Rightarrow> uobj \<Rightarrow> binding \<Rightarrow> ('w, goerr option) state" where
  "validatePermit K obj b =
     do {
       r \<leftarrow> kc_GetLease K (uo_Namespace obj) (bd_name b);
       (case r of
          Inl e \<Rightarrow> ret (Some e)
        | Inr l \<Rightarrow>
            if bl_UID l \<noteq> bd_uid b then ret (Some (ErrText ''lease no longer permits Pod starts''))
            else do {
              now \<leftarrow> kc_Now K;
              ret (if \<not> activeAt l now then Some (ErrText ''lease no longer permits Pod starts'')
                   else if \<not> registered l (uo_Name obj) (uo_UID obj) then
                     Some (ErrText ''pod UID was not durably registered'')
                   else None)
            })
     }"

definition validateBinding :: "'w kube \<Rightarrow> codec \<Rightarrow> admission_review \<Rightarrow> ('w, response) state" where
  "validateBinding K C req =
     do {
       r \<leftarrow> kc_GetPod K (rq_Namespace req) (rq_Name req);
       ret (case r of
           Inl e \<Rightarrow> Denied e
         | Inr pod \<Rightarrow>
             if entry (mp_Annotations pod) ManagedUID = [] then Allowed []
             else (case jc_BindingUID C (rq_Object req) of
                 Inl e \<Rightarrow> Denied e
               | Inr uid \<Rightarrow>
                   if uid = [] \<or> uid \<noteq> mp_UID pod then Denied (ErrText ''managed Pod binding must name the observed Pod UID'')
                   else if hasGate pod then Denied (ErrText ''managed Pod is still scheduling gated'')
                   else Allowed []))
     }"

definition activation_allowed :: "'w kube \<Rightarrow> uobj \<Rightarrow> binding \<Rightarrow> ('w, goerr option) state" where
  "activation_allowed K obj b =
     do {
       r \<leftarrow> kc_GetLease K (uo_Namespace obj) (bd_name b);
       (case r of
          Inl e \<Rightarrow> ret (Some e)
        | Inr l \<Rightarrow>
            if bl_UID l \<noteq> bd_uid b then ret (Some (ErrText ''lease does not authorize workload activation''))
            else do {
              now \<leftarrow> kc_Now K;
              ret (if \<not> activeAt l now then Some (ErrText ''lease does not authorize workload activation'') else None)
            })
     }"

definition to_response :: "goerr option \<Rightarrow> response" where
  "to_response e = (case e of None \<Rightarrow> Allowed [] | Some e' \<Rightarrow> Denied e')"

definition handle_legacy :: "uobj \<Rightarrow> uobj \<Rightarrow> response" where
  "handle_legacy obj old =
     (if uo_OwnerReferences old \<noteq> uo_OwnerReferences obj then
        Denied (ErrText ''managed controllers cannot adopt unadmitted objects'')
      else if ((uo_Kind obj \<noteq> ''Pod'' \<and> inactiveTarget obj) \<or> (uo_Kind obj = ''Pod'' \<and> uo_Body obj = uo_Body old)) \<and>
          entry (uo_Annotations obj) ManagedUID = [] then
        Allowed ''legacy target may only be stopped''
      else Denied (ErrText ''drain and recreate legacy managed targets under admission''))"

definition handle_validate ::
  "'w kube \<Rightarrow> WorkloadAdmission \<Rightarrow> admission_review \<Rightarrow> uobj \<Rightarrow> uobj option \<Rightarrow> binding \<Rightarrow> ('w, response) state" where
  "handle_validate K h req obj old b =
     (case validateManagedObject obj old b (rq_Username req = wa_OperatorUser h) of
        Some e \<Rightarrow> ret (Denied e)
      | None \<Rightarrow>
          if uo_Kind obj = ''Pod'' then
            (if (case old of None \<Rightarrow> False | Some o' \<Rightarrow> gateOn (uo_Body o') \<and> \<not> gateOn (uo_Body obj))
             then do { e \<leftarrow> validatePermit K obj b; ret (to_response e) }
             else ret (Allowed []))
          else do {
            e \<leftarrow> (if (case old of None \<Rightarrow> False | Some o' \<Rightarrow> increasesActivity obj o')
                  then activation_allowed K obj b else ret None);
            (case e of
               Some e' \<Rightarrow> ret (Denied e')
             | None \<Rightarrow>
                 if rq_Operation req = OpCreate
                 then do { e' \<leftarrow> recordTarget K obj b (rq_DryRun req = Some True); ret (to_response e') }
                 else ret (Allowed []))
          })"

definition handle_bound ::
  "'w kube \<Rightarrow> codec \<Rightarrow> WorkloadAdmission \<Rightarrow> admission_review \<Rightarrow> uobj \<Rightarrow> uobj option \<Rightarrow> binding \<Rightarrow> ('w, response) state" where
  "handle_bound K C h req obj old b =
     (if bd_uid b = [] then ret (Allowed [])
      else if wa_Mutate h then
        ret (if rq_Operation req \<noteq> OpCreate then Allowed []
             else (case stampBinding obj b of
                 Inl e \<Rightarrow> Denied e
               | Inr obj' \<Rightarrow>
                   (case jc_Marshal C obj' of Inl e \<Rightarrow> Errored 500 e | Inr raw \<Rightarrow> PatchResponse (rq_Object req) raw)))
      else (case old of
          Some o' \<Rightarrow> if entry (uo_Annotations o') ManagedUID = [] then ret (handle_legacy obj o')
                      else handle_validate K h req obj old b
        | None \<Rightarrow> handle_validate K h req obj old b))"

definition handle_object ::
  "'w kube \<Rightarrow> codec \<Rightarrow> WorkloadAdmission \<Rightarrow> admission_review \<Rightarrow> uobj \<Rightarrow> uobj option \<Rightarrow> ('w, response) state" where
  "handle_object K C h req obj old =
     do {
       r \<leftarrow> (case old of
              Some o' \<Rightarrow>
                if entry (uo_Annotations o') ManagedUID \<noteq> [] then
                  ret (Inr \<lparr>bd_name = entry (uo_Annotations o') ManagedLease, bd_uid = entry (uo_Annotations o') ManagedUID,
                            bd_targetUID = uo_UID o'\<rparr>)
                else expectedBinding K (UObj obj)
            | None \<Rightarrow> expectedBinding K (UObj obj));
       (case r of
          Inl e \<Rightarrow>
            ret (if (case old of
                       None \<Rightarrow> False
                     | Some o' \<Rightarrow> entry (uo_Annotations o') ManagedUID = [] \<and> entry (uo_Annotations obj) ManagedUID = [] \<and>
                         uo_OwnerReferences o' = uo_OwnerReferences obj)
                 then Allowed ''unmanaged update'' else Denied e)
        | Inr b \<Rightarrow> handle_bound K C h req obj old b)
     }"

definition request_object :: "admission_review \<Rightarrow> uobj \<Rightarrow> uobj" where
  "request_object req obj = obj\<lparr>uo_Namespace := rq_Namespace req, uo_APIVersion := rq_APIVersion req, uo_Kind := rq_Kind req\<rparr>"

definition Handle :: "'w kube \<Rightarrow> codec \<Rightarrow> WorkloadAdmission \<Rightarrow> admission_review \<Rightarrow> ('w, response) state" where
  "Handle K C h req =
     (if rq_SubResource req = ''binding'' then validateBinding K C req
      else if rq_Operation req \<noteq> OpCreate \<and> rq_Operation req \<noteq> OpUpdate then ret (Allowed [])
      else (case jc_Unmarshal C (rq_Object req) of
          Inl e \<Rightarrow> ret (Errored 400 e)
        | Inr obj \<Rightarrow>
            if rq_Operation req = OpUpdate then
              (case jc_Unmarshal C (rq_OldObject req) of
                 Inl e \<Rightarrow> ret (Errored 400 e)
               | Inr old \<Rightarrow> handle_object K C h req (request_object req obj) (Some (request_object req old)))
            else handle_object K C h req (request_object req obj) None))"

end
