(* ===== verification/Operator_Workload.thy ===== *)
theory Operator_Workload
  imports Operator_Admission
begin

text \<open>
  Starting, stopping and draining a managed workload (\<open>internal/operator/actions.go\<close> and
  \<open>workload.go\<close>): the fenced patch of the target, the check of its identity, the removal of jobs
  and pods, and the permit that registers a pod in the status of the lease before its scheduling
  gate is removed.
\<close>

section \<open>Actions on the target (actions.go)\<close>

definition targetFieldOwner :: string where
  "targetFieldOwner = ''berth-operator''"

definition stopFence :: string where
  "stopFence = ''berth.skaphos.io/stop-fence''"

text \<open>Each part of an action returns the changed object and whether it differs from the live one.\<close>

definition apply_suspend :: "LeaseAction \<Rightarrow> uobj \<Rightarrow> (uobj \<times> bool) outcome" where
  "apply_suspend action obj =
     (case la_Suspend action of
        None \<Rightarrow> Inr (obj, False)
      | Some s \<Rightarrow>
          (case uo_Suspend obj of
             WrongType e \<Rightarrow> Inl (ErrWrap ''read spec.suspend'' e)
           | cur \<Rightarrow> if cur \<noteq> Present s then Inr (obj\<lparr>uo_Suspend := Present s\<rparr>, True) else Inr (obj, False)))"

definition apply_scale :: "LeaseAction \<Rightarrow> uobj \<Rightarrow> (uobj \<times> bool) outcome" where
  "apply_scale action obj =
     (case la_Scale action of
        None \<Rightarrow> Inr (obj, False)
      | Some s \<Rightarrow>
          (case uo_Replicas obj of
             WrongType e \<Rightarrow> Inl (ErrWrap ''read spec.replicas'' e)
           | cur \<Rightarrow> if cur \<noteq> Present (sint (sc_Replicas s))
                    then Inr (obj\<lparr>uo_Replicas := Present (sint (sc_Replicas s))\<rparr>, True) else Inr (obj, False)))"

definition apply_fence :: "string \<Rightarrow> uobj \<Rightarrow> uobj \<times> bool" where
  "apply_fence fence obj =
     (if fence \<noteq> [] \<and> entry (uo_Annotations obj) stopFence \<noteq> fence
      then (obj\<lparr>uo_Annotations := (uo_Annotations obj)(stopFence \<mapsto> fence)\<rparr>, True) else (obj, False))"

text \<open>The object to write, or nothing when the live object already is as the action wants it.\<close>

definition mutated_target :: "LeaseAction \<Rightarrow> string \<Rightarrow> uobj \<Rightarrow> (uobj \<times> bool) outcome" where
  "mutated_target action fence obj =
     (case apply_suspend action obj of
        Inl e \<Rightarrow> Inl e
      | Inr (obj1, c1) \<Rightarrow>
          (case apply_scale action obj1 of
             Inl e \<Rightarrow> Inl e
           | Inr (obj2, c2) \<Rightarrow>
               if la_Suspend action = None \<and> la_Scale action = None then
                 Inl (ErrText ''apply action: action specifies no mutation'')
               else (case apply_fence fence obj2 of (obj3, c3) \<Rightarrow> Inr (obj3, c1 \<or> c2 \<or> c3))))"

definition applyFencedAction ::
  "'w kube \<Rightarrow> string \<Rightarrow> TargetRef option \<Rightarrow> LeaseAction option \<Rightarrow> string \<Rightarrow> string \<Rightarrow> ('w, goerr option) state" where
  "applyFencedAction K ns ref action uid fence =
     (case (ref, action) of
        (Some t, Some a) \<Rightarrow>
          (case kc_ParseGroupVersion K (tr_APIVersion t) of
             Inl e \<Rightarrow> ret (Some (ErrWrap ''parse target apiVersion'' e))
           | Inr gv \<Rightarrow>
               do {
                 r \<leftarrow> kc_GetObj K gv (tr_Kind t) ns (tr_Name t);
                 (case r of
                    Inl e \<Rightarrow> ret (if errors_Is e ErrNotFound then None else Some (ErrWrap ''get target'' e))
                  | Inr obj \<Rightarrow>
                      if uid \<noteq> [] \<and> uo_UID obj \<noteq> uid then ret (Some (ErrText ''target UID changed''))
                      else (case mutated_target a fence obj of
                          Inl e \<Rightarrow> ret (Some e)
                        | Inr (obj', changed) \<Rightarrow>
                            if \<not> changed then ret None
                            else do {
                              p \<leftarrow> kc_Patch K obj obj' targetFieldOwner;
                              ret (map_option (ErrWrap ''patch target'') p)
                            }))
               })
      | _ \<Rightarrow> ret None)"

definition applyActionForUID ::
  "'w kube \<Rightarrow> string \<Rightarrow> TargetRef option \<Rightarrow> LeaseAction option \<Rightarrow> string \<Rightarrow> ('w, goerr option) state" where
  "applyActionForUID K ns ref action uid = applyFencedAction K ns ref action uid []"

definition applyAction ::
  "'w kube \<Rightarrow> string \<Rightarrow> TargetRef option \<Rightarrow> LeaseAction option \<Rightarrow> ('w, goerr option) state" where
  "applyAction K ns ref action = applyActionForUID K ns ref action []"

section \<open>The target of a lease (workload.go)\<close>

record BerthLeaseReconciler =
  rc_ClusterIdentity :: string
  rc_ManagedWorkloads :: bool
  rc_OperatorNamespace :: string

definition target_name :: "BerthLease \<Rightarrow> string" where
  "target_name l = (case bs_Target (bl_Spec l) of None \<Rightarrow> [] | Some t \<Rightarrow> tr_Name t)"

definition verifyTarget :: "'w kube \<Rightarrow> BerthLeaseReconciler \<Rightarrow> BerthLease \<Rightarrow> ('w, goerr option) state" where
  "verifyTarget K r l =
     (if rc_OperatorNamespace r \<noteq> [] \<and> bl_Namespace l = rc_OperatorNamespace r then
        ret (Some (ErrText ''workloads cannot be managed in the operator namespace''))
      else if \<not> rc_ManagedWorkloads r then
        ret (Some (ErrText ''managed workloads require workload admission; lease-only operation is still available''))
      else (case bt_Workload (bl_Status l) of
          None \<Rightarrow> ret (Some (ErrText ''target has no CREATE admission record''))
        | Some w \<Rightarrow>
            if ws_TargetUID w = [] then ret (Some (ErrText ''target has no CREATE admission record''))
            else (case targetObject K (bs_Target (bl_Spec l)) of (gv, kind) \<Rightarrow>
              do {
                x \<leftarrow> kc_GetObj K gv kind (bl_Namespace l) (target_name l);
                ret (case x of
                    Inl e \<Rightarrow> Some e
                  | Inr obj \<Rightarrow>
                      if uo_UID obj \<noteq> ws_TargetUID w \<or> entry (uo_Annotations obj) ManagedUID \<noteq> bl_UID l \<or>
                         entry (uo_Annotations obj) ManagedLease \<noteq> bl_Name l
                      then Some (ErrText ''target identity does not match admission record'') else None)
              })))"

definition stop_action :: "TargetRef \<Rightarrow> LeaseAction" where
  "stop_action t =
     (if tr_Kind t = ''CronJob'' \<and> tr_APIVersion t = ''batch/v1''
      then \<lparr>la_Suspend = Some True, la_Scale = None\<rparr>
      else \<lparr>la_Suspend = None, la_Scale = Some \<lparr>sc_Replicas = 0\<rparr>\<rparr>)"

definition stopTarget :: "'w kube \<Rightarrow> BerthLease \<Rightarrow> ('w, goerr option) state" where
  "stopTarget K l =
     (case bs_Target (bl_Spec l) of
        None \<Rightarrow> ret None
      | Some t \<Rightarrow>
          (case targetObject K (Some t) of (gv, kind) \<Rightarrow>
            do {
              x \<leftarrow> kc_GetObj K gv kind (bl_Namespace l) (tr_Name t);
              (case x of
                 Inl e \<Rightarrow> ret (IgnoreNotFound e)
               | Inr obj \<Rightarrow>
                   if (case bt_Workload (bl_Status l) of
                         None \<Rightarrow> False | Some w \<Rightarrow> ws_TargetUID w \<noteq> [] \<and> uo_UID obj \<noteq> ws_TargetUID w)
                   then ret None
                   else applyFencedAction K (bl_Namespace l) (Some t) (Some (stop_action t)) (uo_UID obj) (bl_ResourceVersion l))
            }))"

section \<open>Draining jobs and pods\<close>

definition deleted_or_gone :: "goerr option \<Rightarrow> goerr option" where
  "deleted_or_gone e = (case e of None \<Rightarrow> None | Some e' \<Rightarrow> IgnoreNotFound e')"

definition deleteUID_pod :: "'w kube \<Rightarrow> mpod \<Rightarrow> ('w, goerr option) state" where
  "deleteUID_pod K p =
     (if mp_UID p = [] then ret (Some (ErrText ''cannot delete a workload without its UID''))
      else do { e \<leftarrow> kc_DeletePod K p (mp_UID p); ret (deleted_or_gone e) })"

definition deleteUID_job :: "'w kube \<Rightarrow> mjob \<Rightarrow> ('w, goerr option) state" where
  "deleteUID_job K j =
     (if mj_UID j = [] then ret (Some (ErrText ''cannot delete a workload without its UID''))
      else do { e \<leftarrow> kc_DeleteJob K j (mj_UID j); ret (deleted_or_gone e) })"

text \<open>The UID registered last under a name.\<close>

definition registered_uid :: "BerthLease \<Rightarrow> string \<Rightarrow> string" where
  "registered_uid l name =
     (case bt_Workload (bl_Status l) of
        None \<Rightarrow> []
      | Some w \<Rightarrow> fold (\<lambda>p uid. if pp_Name p = name then pp_UID p else uid) (ws_Pods w) [])"

definition terminal :: "mpod \<Rightarrow> bool" where
  "terminal p \<longleftrightarrow> mp_Phase p = ''Succeeded'' \<or> mp_Phase p = ''Failed''"

fun drain_loop :: "'w kube \<Rightarrow> BerthLease \<Rightarrow> mpod list \<Rightarrow> bool \<Rightarrow> ('w, bool outcome) state" where
  "drain_loop K l [] fin = ret (Inr fin)"
| "drain_loop K l (p # ps) fin =
     (if registered_uid l (mp_Name p) \<noteq> mp_UID p \<and> entry (mp_Annotations p) ManagedUID \<noteq> bl_UID l
      then drain_loop K l ps fin
      else do {
        e \<leftarrow> (if mp_DeletionTimestamp p = None then deleteUID_pod K p else ret None);
        (case e of
           Some e' \<Rightarrow> ret (Inl e')
         | None \<Rightarrow> drain_loop K l ps (fin \<and> terminal p))
      })"

definition drainPods :: "'w kube \<Rightarrow> BerthLease \<Rightarrow> ('w, bool outcome) state" where
  "drainPods K l =
     do {
       r \<leftarrow> kc_ListPods K (bl_Namespace l) None;
       (case r of Inl e \<Rightarrow> ret (Inl e) | Inr pods \<Rightarrow> drain_loop K l pods True)
     }"

text \<open>A job is suspended before it is deleted, so that it starts no pods in between.\<close>

definition suspend_job :: "'w kube \<Rightarrow> mjob \<Rightarrow> ('w, goerr option) state" where
  "suspend_job K j =
     (if mj_Suspend j \<noteq> Some True then kc_UpdateJob K (j\<lparr>mj_Suspend := Some True\<rparr>) else ret None)"

fun drain_jobs_loop :: "'w kube \<Rightarrow> mjob list \<Rightarrow> ('w, goerr option) state" where
  "drain_jobs_loop K [] = ret None"
| "drain_jobs_loop K (j # js) =
     (if mj_DeletionTimestamp j \<noteq> None then drain_jobs_loop K js
      else do {
        e \<leftarrow> suspend_job K j;
        (case e of
           Some e' \<Rightarrow> ret (Some e')
         | None \<Rightarrow> do {
             d \<leftarrow> deleteUID_job K j;
             (case d of Some e' \<Rightarrow> ret (Some e') | None \<Rightarrow> drain_jobs_loop K js)
           })
      })"

definition drainJobs :: "'w kube \<Rightarrow> BerthLease \<Rightarrow> ('w, bool outcome) state" where
  "drainJobs K l =
     do {
       r \<leftarrow> kc_ListJobs K (bl_Namespace l) (Some (ManagedUID, bl_UID l));
       (case r of
          Inl e \<Rightarrow> ret (Inl e)
        | Inr jobs \<Rightarrow> do {
            e \<leftarrow> drain_jobs_loop K jobs;
            ret (case e of Some e' \<Rightarrow> Inl e' | None \<Rightarrow> Inr (jobs = []))
          })
     }"

section \<open>Permits\<close>

definition map_workload :: "(WorkloadStatus \<Rightarrow> WorkloadStatus) \<Rightarrow> BerthLease \<Rightarrow> BerthLease" where
  "map_workload f l = l\<lparr>bl_Status := (bl_Status l)\<lparr>bt_Workload := map_option f (bt_Workload (bl_Status l))\<rparr>\<rparr>"

definition workload_pods :: "BerthLease \<Rightarrow> PermittedPod list" where
  "workload_pods l = (case bt_Workload (bl_Status l) of None \<Rightarrow> [] | Some w \<Rightarrow> ws_Pods w)"

definition workload_target :: "BerthLease \<Rightarrow> string" where
  "workload_target l = (case bt_Workload (bl_Status l) of None \<Rightarrow> [] | Some w \<Rightarrow> ws_TargetUID w)"

text \<open>Registers the pod in the status of the lease, by a compare-and-swap on the lease.\<close>

definition register_pod :: "'w kube \<Rightarrow> BerthLease \<Rightarrow> mpod \<Rightarrow> ('w, goerr option \<times> BerthLease) state" where
  "register_pod K l p =
     (if \<not> hasGate p then ret (Some (ErrText ''unregistered managed Pod has no scheduling gate''), l)
      else if length (workload_pods l) \<ge> maxPermittedPods then ret (Some (ErrText ''maximum active Pod registrations reached''), l)
      else let l' = map_workload (\<lambda>w. w\<lparr>ws_Pods := ws_Pods w @ [\<lparr>pp_Name = mp_Name p, pp_UID = mp_UID p\<rparr>]\<rparr>) l
        in do {
          u \<leftarrow> kc_UpdateLeaseStatus K l';
          ret (case u of Inl e \<Rightarrow> (Some (ErrWrap ''register Pod UID'' e), l') | Inr l'' \<Rightarrow> (None, l''))
        })"

definition remove_gate :: "'w kube \<Rightarrow> mpod \<Rightarrow> ('w, goerr option) state" where
  "remove_gate K p =
     (if \<not> hasGate p then ret None
      else do {
        u \<leftarrow> kc_UpdatePod K (p\<lparr>mp_SchedulingGates := filter (\<lambda>g. g \<noteq> SchedulingGate) (mp_SchedulingGates p)\<rparr>);
        ret (map_option (ErrWrap ''remove registered Pod gate'') u)
      })"

definition permit_bound :: "'w kube \<Rightarrow> BerthLease \<Rightarrow> mpod \<Rightarrow> ('w, goerr option \<times> BerthLease) state" where
  "permit_bound K l p =
     do {
       (e, l') \<leftarrow> (if registered l (mp_Name p) (mp_UID p) then ret (None, l) else register_pod K l p);
       (case e of
          Some e' \<Rightarrow> ret (Some e', l')
        | None \<Rightarrow> do { u \<leftarrow> remove_gate K p; ret (u, l') })
     }"

definition permitPod :: "'w kube \<Rightarrow> BerthLease \<Rightarrow> mpod \<Rightarrow> ('w, goerr option \<times> BerthLease) state" where
  "permitPod K l p =
     do {
       now \<leftarrow> kc_Now K;
       if \<not> activeAt l now \<or> mp_DeletionTimestamp p \<noteq> None \<or> mp_UID p = [] then ret (None, l)
       else if entry (mp_Annotations p) ManagedUID \<noteq> bl_UID l \<or> entry (mp_Annotations p) ManagedLease \<noteq> bl_Name l then
         ret (Some (ErrText ''pod binding mismatch''), l)
       else do {
         r \<leftarrow> expectedBinding K (PodObj p);
         (case r of
            Inl e \<Rightarrow> ret (Some e, l)
          | Inr root \<Rightarrow>
              if bd_uid root \<noteq> bl_UID l \<or> bd_targetUID root \<noteq> workload_target l then
                ret (Some (ErrText ''pod ancestry differs from admitted target UID''), l)
              else permit_bound K l p)
       }
     }"

fun permit_loop :: "'w kube \<Rightarrow> BerthLease \<Rightarrow> mpod list \<Rightarrow> ('w, goerr option \<times> BerthLease) state" where
  "permit_loop K l [] = ret (None, l)"
| "permit_loop K l (p # ps) =
     do {
       (e, l') \<leftarrow> permitPod K l p;
       (case e of Some e' \<Rightarrow> ret (Some e', l') | None \<Rightarrow> permit_loop K l' ps)
     }"

definition permitPods :: "'w kube \<Rightarrow> BerthLease \<Rightarrow> ('w, goerr option \<times> BerthLease) state" where
  "permitPods K l =
     do {
       r \<leftarrow> kc_ListPods K (bl_Namespace l) (Some (ManagedUID, bl_UID l));
       (case r of Inl e \<Rightarrow> ret (Some e, l) | Inr pods \<Rightarrow> permit_loop K l pods)
     }"

text \<open>Forgets the registrations of pods that cannot execute again.\<close>

definition pruneCompleted :: "'w kube \<Rightarrow> BerthLease \<Rightarrow> ('w, BerthLease outcome) state" where
  "pruneCompleted K l =
     (if workload_pods l = [] then ret (Inr l)
      else do {
        r \<leftarrow> kc_ListPods K (bl_Namespace l) None;
        ret (case r of
            Inl e \<Rightarrow> Inl e
          | Inr pods \<Rightarrow>
              Inr (map_workload (\<lambda>w. w\<lparr>ws_Pods := filter (\<lambda>q. list_ex (\<lambda>p. mp_UID p = pp_UID q \<and> \<not> terminal p) pods) (ws_Pods w)\<rparr>) l))
      })"

end
