(* ===== verification/Operator_Reconcile.thy ===== *)
theory Operator_Reconcile
  imports Operator_Workload
begin

text \<open>
  The reconcilers of the operator (\<open>internal/operator/reconciler.go\<close> and \<open>pod_controller.go\<close>): one
  round of the \<open>BerthLease\<close> reconciler, with the stop that drains before it releases, and the
  reconcilers of managed pods and jobs.

  Reading the clock has no effect of its own, so the model also reads it where the code's condition
  has already failed.  A result is the requeue delay and the error.  In the code \<open>w\<close> is a pointer to the workload record
  inside the lease; the model reads and writes that record in place.
\<close>

definition FinalizerName :: string where "FinalizerName = ''berth.skaphos.io/lease-release''"
definition StateHeld :: string where "StateHeld = ''held''"
definition StateWaiting :: string where "StateWaiting = ''waiting''"
definition StateReleased :: string where "StateReleased = ''released''"
definition ConditionAcquired :: string where "ConditionAcquired = ''Acquired''"
definition ConditionHeartbeatHealthy :: string where "ConditionHeartbeatHealthy = ''HeartbeatHealthy''"

type_synonym result = "duration \<times> goerr option"

section \<open>Small functions\<close>

definition holderFor :: "BerthLeaseReconciler \<Rightarrow> BerthLease \<Rightarrow> string" where
  "holderFor r l = (if rc_ClusterIdentity r \<noteq> [] then rc_ClusterIdentity r else bs_HolderIdentity (bl_Spec l))"

definition minTime :: "time \<Rightarrow> time \<Rightarrow> time" where
  "minTime a b = (if time_Before a b then a else b)"

definition timePtr :: "time \<Rightarrow> time option" where
  "timePtr t = (if time_IsZero t then None else Some t)"

text \<open>\<open>Truncate\<close> rounds down to a multiple since the zero time.\<close>

definition time_Truncate :: "time \<Rightarrow> duration \<Rightarrow> time" where
  "time_Truncate t d = t - (t - zero_time) mod d"

definition setCondition ::
  "'w kube \<Rightarrow> string \<Rightarrow> bool \<Rightarrow> string \<Rightarrow> goerr \<Rightarrow> BerthLease \<Rightarrow> BerthLease" where
  "setCondition K condType condStatus reason msg l =
     l\<lparr>bl_Status := (bl_Status l)\<lparr>bt_Conditions := kc_SetStatusCondition K (bt_Conditions (bl_Status l))
        \<lparr>cn_Type = condType, cn_Status = condStatus, cn_Reason = reason, cn_Message = msg,
         cn_ObservedGeneration = bl_Generation l\<rparr>\<rparr>\<rparr>"

definition validateSpec :: "BerthLeaseSpec \<Rightarrow> goerr option" where
  "validateSpec spec =
     (if bs_LeaseName spec = [] then Some (ErrText ''spec.leaseName is required'')
      else if bs_HolderIdentity spec = [] then Some (ErrText ''spec.holderIdentity is required'')
      else if sint (bs_TTLSeconds spec) \<le> 0 then Some (ErrText ''spec.ttlSeconds must be positive'')
      else if sint (bs_HeartbeatIntervalSeconds spec) \<le> 0 then Some (ErrText ''spec.heartbeatIntervalSeconds must be positive'')
      else if sint (bs_HeartbeatIntervalSeconds spec) \<ge> sint (bs_TTLSeconds spec) then
        Some (ErrText ''spec.heartbeatIntervalSeconds must be less than spec.ttlSeconds'')
      else workloadSpec spec)"

definition reacquireInterval :: "duration \<Rightarrow> duration \<Rightarrow> duration" where
  "reacquireInterval heartbeat ttl =
     (if heartbeat > 0 \<and> heartbeat < ttl sdiv 3 then heartbeat else ttl sdiv 3)"

definition time_Until :: "'w kube \<Rightarrow> time \<Rightarrow> ('w, duration) state" where
  "time_Until K t = do { now \<leftarrow> kc_Now K; ret (time_Sub t now) }"

definition update_status :: "'w kube \<Rightarrow> BerthLease \<Rightarrow> ('w, goerr option) state" where
  "update_status K l = do { u \<leftarrow> kc_UpdateLeaseStatus K l; ret (case u of Inl e \<Rightarrow> Some e | Inr _ \<Rightarrow> None) }"

definition lease_ttl :: "BerthLease \<Rightarrow> duration" where
  "lease_ttl l = seconds (sint (bs_TTLSeconds (bl_Spec l)))"

definition lease_heartbeat :: "BerthLease \<Rightarrow> duration" where
  "lease_heartbeat l = seconds (sint (bs_HeartbeatIntervalSeconds (bl_Spec l)))"

definition workload_deadline :: "BerthLease \<Rightarrow> time" where
  "workload_deadline l =
     (case bt_Workload (bl_Status l) of None \<Rightarrow> zero_time | Some w \<Rightarrow> (case ws_Deadline w of None \<Rightarrow> zero_time | Some d \<Rightarrow> d))"

section \<open>Stopping\<close>

text \<open>The first write of a stop: no permit is given once it is stored.\<close>

definition close_admission :: "'w kube \<Rightarrow> BerthLease \<Rightarrow> BerthLease" where
  "close_admission K l =
     setCondition K ConditionAcquired False ''Stopping'' (ErrText ''waiting for managed Pods to terminate'')
       (setCondition K ConditionHeartbeatHealthy False ''Stopping'' (ErrText ''workload activation is closed during cleanup'')
         (map_workload (\<lambda>w. w\<lparr>ws_Phase := PhaseStopping\<rparr>) l))"

definition with_workload :: "BerthLease \<Rightarrow> BerthLease" where
  "with_workload l =
     (case bt_Workload (bl_Status l) of
        Some _ \<Rightarrow> l
      | None \<Rightarrow> l\<lparr>bl_Status := (bl_Status l)\<lparr>bt_Workload := Some
          \<lparr>ws_TargetUID = [], ws_Phase = [], ws_Deadline = None, ws_LeaseName = bs_LeaseName (bl_Spec l),
           ws_Holder = bt_CurrentHolder (bl_Status l), ws_Token = bt_FencingToken (bl_Status l), ws_Pods = []\<rparr>\<rparr>\<rparr>)"

definition workload_phase :: "BerthLease \<Rightarrow> string" where
  "workload_phase l = (case bt_Workload (bl_Status l) of None \<Rightarrow> [] | Some w \<Rightarrow> ws_Phase w)"

definition mark_stopping :: "'w kube \<Rightarrow> BerthLease \<Rightarrow> ('w, BerthLease outcome) state" where
  "mark_stopping K l =
     (let l1 = with_workload l
      in if workload_phase l1 \<noteq> PhaseStopping then kc_UpdateLeaseStatus K (close_admission K l1) else ret (Inr l1))"

text \<open>Whether jobs and pods are gone, after the target has been stopped.\<close>

definition drain :: "'w kube \<Rightarrow> BerthLease \<Rightarrow> ('w, bool outcome) state" where
  "drain K l =
     do {
       e \<leftarrow> stopTarget K l;
       (case e of
          Some e' \<Rightarrow> ret (Inl e')
        | None \<Rightarrow> do {
            j \<leftarrow> drainJobs K l;
            (case j of
               Inl e' \<Rightarrow> ret (Inl e')
             | Inr jobsDone \<Rightarrow> do {
                 p \<leftarrow> drainPods K l;
                 ret (case p of Inl e' \<Rightarrow> Inl e' | Inr fin \<Rightarrow> Inr (fin \<and> jobsDone))
               })
          })
     }"

definition release_identity :: "BerthLease \<Rightarrow> string \<times> string \<times> int32" where
  "release_identity l =
     (case bt_Workload (bl_Status l) of
        None \<Rightarrow> (bs_LeaseName (bl_Spec l), bt_CurrentHolder (bl_Status l), bt_FencingToken (bl_Status l))
      | Some w \<Rightarrow> (ws_LeaseName w, ws_Holder w, ws_Token w))"

definition cleared_lease :: "'w kube \<Rightarrow> BerthLease \<Rightarrow> BerthLease" where
  "cleared_lease K l =
     (let l1 = map_workload (\<lambda>w. w\<lparr>ws_Phase := [], ws_Pods := [], ws_Token := 0, ws_Holder := [], ws_LeaseName := [],
                                   ws_Deadline := None\<rparr>) l
      in setCondition K ConditionAcquired False ''Stopped'' (ErrText ''managed Pods stopped'')
           (l1\<lparr>bl_Status := (bl_Status l1)\<lparr>bt_LeaseState := StateWaiting, bt_FencingToken := 0, bt_CurrentHolder := [],
               bt_ExpiresAt := None, bt_AcquiredAt := None\<rparr>\<rparr>))"

definition finish_stop :: "'w kube \<Rightarrow> BerthLease \<Rightarrow> ('w, result) state" where
  "finish_stop K l =
     (if bl_DeletionTimestamp l \<noteq> None then
        do {
          u \<leftarrow> kc_UpdateLease K (l\<lparr>bl_Finalizers := filter (\<lambda>f. f \<noteq> FinalizerName) (bl_Finalizers l)\<rparr>);
          ret (0, case u of Inl e \<Rightarrow> Some e | Inr _ \<Rightarrow> None)
        }
      else do { e \<leftarrow> update_status K (cleared_lease K l); ret (second, e) })"

definition release_and_finish :: "'w kube \<Rightarrow> 'w LeaseClient \<Rightarrow> BerthLease \<Rightarrow> ('w, result) state" where
  "release_and_finish K LC l =
     (case release_identity l of (name, holder, token) \<Rightarrow>
       do {
         e \<leftarrow> (if holder \<noteq> [] \<and> 0 < sint token
               then lc_Release LC (localTimeout sdiv 2) (bl_Namespace l) name holder token else ret None);
         (case e of
            Some e' \<Rightarrow> if errors_Is e' ClientErrConflict then finish_stop K l else ret (second, Some e')
          | None \<Rightarrow> finish_stop K l)
       })"

definition stopAndRelease :: "'w kube \<Rightarrow> 'w LeaseClient \<Rightarrow> BerthLease \<Rightarrow> ('w, result) state" where
  "stopAndRelease K LC l =
     (if bs_Target (bl_Spec l) \<noteq> None then
        do {
          m \<leftarrow> mark_stopping K l;
          (case m of
             Inl e \<Rightarrow> ret (0, Some e)
           | Inr l' \<Rightarrow> do {
               d \<leftarrow> drain K l';
               (case d of
                  Inl e \<Rightarrow> ret (0, Some e)
                | Inr fin \<Rightarrow> if fin then release_and_finish K LC l' else ret (second, None))
             })
        }
      else release_and_finish K LC l)"

section \<open>One round of the lease reconciler\<close>

definition must_stop :: "'w kube \<Rightarrow> BerthLeaseReconciler \<Rightarrow> BerthLease \<Rightarrow> goerr option \<Rightarrow> ('w, bool) state" where
  "must_stop K r l invalid =
     (if bl_DeletionTimestamp l \<noteq> None then ret True
      else (case bt_Workload (bl_Status l) of
          None \<Rightarrow> ret False
        | Some w \<Rightarrow>
            if ws_Phase w = PhaseStopping then ret True
            else if ws_Phase w = PhaseActive then
              do { now \<leftarrow> kc_Now K; ret (\<not> activeAt l now \<or> ws_Holder w \<noteq> holderFor r l \<or> invalid \<noteq> None) }
            else ret False))"

definition on_acquire_error ::
  "'w kube \<Rightarrow> 'w LeaseClient \<Rightarrow> BerthLease \<Rightarrow> goerr \<Rightarrow> ('w, result) state" where
  "on_acquire_error K LC l err =
     do {
       now \<leftarrow> kc_Now K;
       if workload_phase l = PhaseActive \<and> \<not> activeAt l now then stopAndRelease K LC l
       else do {
         now1 \<leftarrow> kc_Now K;
         if bs_Target (bl_Spec l) \<noteq> None \<and> bt_Workload (bl_Status l) = None \<and>
            (case bt_ExpiresAt (bl_Status l) of None \<Rightarrow> False | Some x \<Rightarrow> \<not> time_Before now1 x)
         then stopAndRelease K LC l
         else do {
           now2 \<leftarrow> kc_Now K;
           d \<leftarrow> (if activeAt l now2
                 then do { u \<leftarrow> time_Until K (workload_deadline l); ret (min (min (lease_heartbeat l) second) u) }
                 else ret (min (lease_heartbeat l) second));
           e \<leftarrow> update_status K (setCondition K ConditionHeartbeatHealthy False ''AcquireFailed'' err l);
           ret (d, e)
         }
       }
     }"

definition standby_status :: "'w kube \<Rightarrow> client_result \<Rightarrow> BerthLease \<Rightarrow> BerthLease" where
  "standby_status K res l =
     setCondition K ConditionHeartbeatHealthy True ''Standby'' (ErrText ''monitoring for reacquire'')
       (setCondition K ConditionAcquired False ''HeldByOther'' (ErrText ''lease held by'')
         (l\<lparr>bl_Status := (bl_Status l)\<lparr>bt_LeaseState := StateWaiting, bt_FencingToken := 0, bt_CurrentHolder := cr_Holder res,
            bt_ExpiresAt := timePtr (cr_ExpiresAt res), bt_AcquiredAt := None\<rparr>\<rparr>))"

definition activate :: "client_result \<Rightarrow> time \<Rightarrow> BerthLease \<Rightarrow> BerthLease" where
  "activate res deadline l =
     map_workload (\<lambda>w. w\<lparr>ws_Phase := PhaseActive, ws_LeaseName := bs_LeaseName (bl_Spec l), ws_Holder := cr_Holder res,
                         ws_Token := cr_FencingToken res, ws_Deadline := timePtr deadline\<rparr>) l"

definition held_status :: "'w kube \<Rightarrow> client_result \<Rightarrow> time \<Rightarrow> BerthLease \<Rightarrow> BerthLease" where
  "held_status K res now l =
     setCondition K ConditionHeartbeatHealthy True ''Heartbeating'' (ErrText ''lease renewed'')
       (setCondition K ConditionAcquired True ''Held'' (ErrText ''lease held with fencing token'')
         (l\<lparr>bl_Status := (bl_Status l)\<lparr>bt_LeaseState := StateHeld, bt_CurrentHolder := cr_Holder res,
            bt_FencingToken := cr_FencingToken res, bt_AcquiredAt := timePtr (cr_AcquiredAt res),
            bt_ExpiresAt := timePtr (cr_ExpiresAt res), bt_LastHeartbeat := timePtr now\<rparr>\<rparr>))"

text \<open>Ownership is stored before anything is started.\<close>

definition persist_and_start :: "'w kube \<Rightarrow> BerthLease \<Rightarrow> client_result \<Rightarrow> time \<Rightarrow> ('w, result) state" where
  "persist_and_start K l res deadline =
     do {
       now \<leftarrow> kc_Now K;
       u \<leftarrow> kc_UpdateLeaseStatus K (held_status K res now l);
       (case u of
          Inl e \<Rightarrow> ret (0, Some (ErrWrap ''persist ownership'' e))
        | Inr l1 \<Rightarrow>
            do {
              e \<leftarrow> (if bs_Target (bl_Spec l1) \<noteq> None then
                      do {
                        a \<leftarrow> applyActionForUID K (bl_Namespace l1) (bs_Target (bl_Spec l1)) (bs_AcquireAction (bl_Spec l1))
                              (workload_target l1);
                        (case a of
                           Some e' \<Rightarrow> ret (Some e')
                         | None \<Rightarrow> do { p \<leftarrow> permitPods K l1; ret (fst p) })
                      }
                    else ret None);
              (case e of
                 Some e' \<Rightarrow> ret (0, Some e')
               | None \<Rightarrow> do { d \<leftarrow> time_Until K deadline; ret (min (lease_heartbeat l) d, None) })
            })
     }"

definition on_granted ::
  "'w kube \<Rightarrow> 'w LeaseClient \<Rightarrow> BerthLease \<Rightarrow> client_result \<Rightarrow> time \<Rightarrow> ('w, result) state" where
  "on_granted K LC l res started =
     (let deadline = time_Truncate (minTime (time_Add started (lease_ttl l)) (cr_ExpiresAt res)) second
      in do {
        now \<leftarrow> kc_Now K;
        if \<not> time_Before now deadline then stopAndRelease K LC l
        else if bs_Target (bl_Spec l) \<noteq> None then
          (case bt_Workload (bl_Status l) of
             None \<Rightarrow> ret (0, Some (ErrText ''nil pointer dereference''))
           | Some w \<Rightarrow>
               if ws_Phase w = PhaseActive \<and> ws_Token w \<noteq> cr_FencingToken res then stopAndRelease K LC l
               else do {
                 p \<leftarrow> pruneCompleted K (activate res deadline l);
                 (case p of
                    Inl e \<Rightarrow> ret (0, Some e)
                  | Inr l' \<Rightarrow> persist_and_start K l' res deadline)
               })
        else persist_and_start K l res deadline
      })"

definition on_answer ::
  "'w kube \<Rightarrow> 'w LeaseClient \<Rightarrow> BerthLeaseReconciler \<Rightarrow> BerthLease \<Rightarrow> client_result \<Rightarrow> time \<Rightarrow> ('w, result) state" where
  "on_answer K LC r l res started =
     (if \<not> cr_Acquired res then
        (if bs_Target (bl_Spec l) \<noteq> None then stopAndRelease K LC l
         else do {
           e \<leftarrow> update_status K (standby_status K res l);
           ret (reacquireInterval (lease_heartbeat l) (lease_ttl l), e)
         })
      else do {
        now \<leftarrow> kc_Now K;
        if sint (cr_FencingToken res) \<le> 0 \<or> cr_Holder res \<noteq> holderFor r l \<or> \<not> time_After (cr_ExpiresAt res) now
        then ret (0, Some (ErrText ''invalid central ownership response''))
        else on_granted K LC l res started
      })"

definition acquire_round :: "'w kube \<Rightarrow> 'w LeaseClient \<Rightarrow> BerthLeaseReconciler \<Rightarrow> BerthLease \<Rightarrow> ('w, result) state" where
  "acquire_round K LC r l =
     do {
       started \<leftarrow> kc_Now K;
       budget \<leftarrow> (if activeAt l started
                  then do { u \<leftarrow> time_Until K (workload_deadline l); ret (min (min (lease_heartbeat l) (localTimeout sdiv 2)) u) }
                  else ret (min (lease_heartbeat l) (localTimeout sdiv 2)));
       a \<leftarrow> lc_Acquire LC budget (bl_Namespace l) (bs_LeaseName (bl_Spec l)) (holderFor r l) (lease_ttl l);
       (case a of
          Inl err \<Rightarrow> on_acquire_error K LC l err
        | Inr res \<Rightarrow> on_answer K LC r l res started)
     }"

definition reconcile_valid :: "'w kube \<Rightarrow> 'w LeaseClient \<Rightarrow> BerthLeaseReconciler \<Rightarrow> BerthLease \<Rightarrow> ('w, result) state" where
  "reconcile_valid K LC r l =
     (if bs_Target (bl_Spec l) = None then acquire_round K LC r l
      else do {
        v \<leftarrow> verifyTarget K r l;
        (case v of
           None \<Rightarrow> acquire_round K LC r l
         | Some err \<Rightarrow>
             if workload_phase l = PhaseActive then stopAndRelease K LC l
             else do {
               stopErr \<leftarrow> stopTarget K l;
               e \<leftarrow> update_status K (setCondition K ConditionAcquired False ''AdmissionRequired'' err l);
               ret (second, errors_Join stopErr e)
             })
      })"

definition reconcile_lease :: "'w kube \<Rightarrow> 'w LeaseClient \<Rightarrow> BerthLeaseReconciler \<Rightarrow> BerthLease \<Rightarrow> ('w, result) state" where
  "reconcile_lease K LC r l0 =
     (let l = l0\<lparr>bl_Status := (bl_Status l0)\<lparr>bt_ObservedGeneration := bl_Generation l0\<rparr>\<rparr>;
          invalid = validateSpec (bl_Spec l)
      in do {
        stop \<leftarrow> must_stop K r l invalid;
        if stop then stopAndRelease K LC l
        else (case invalid of
            Some err \<Rightarrow>
              if bs_Target (bl_Spec l) \<noteq> None then stopAndRelease K LC l
              else do {
                e \<leftarrow> update_status K (setCondition K ConditionAcquired False ''InvalidSpec'' err l);
                ret (0, e)
              }
          | None \<Rightarrow> reconcile_valid K LC r l)
      })"

definition Reconcile :: "'w kube \<Rightarrow> 'w LeaseClient \<Rightarrow> BerthLeaseReconciler \<Rightarrow> string \<Rightarrow> string \<Rightarrow> ('w, result) state" where
  "Reconcile K LC r ns name =
     do {
       g \<leftarrow> kc_GetLease K ns name;
       (case g of
          Inl e \<Rightarrow> ret (0, IgnoreNotFound e)
        | Inr l \<Rightarrow>
            if FinalizerName \<notin> set (bl_Finalizers l) then
              (if bl_DeletionTimestamp l \<noteq> None then ret (0, None)
               else do {
                 u \<leftarrow> kc_UpdateLease K (l\<lparr>bl_Finalizers := bl_Finalizers l @ [FinalizerName]\<rparr>);
                 ret (0, case u of Inl e \<Rightarrow> Some e | Inr _ \<Rightarrow> None)
               })
            else reconcile_lease K LC r l)
     }"

section \<open>The reconcilers of managed pods and jobs (pod_controller.go)\<close>

definition stopping :: "BerthLease \<Rightarrow> bool" where
  "stopping l \<longleftrightarrow> bl_DeletionTimestamp l \<noteq> None \<or> workload_phase l = PhaseStopping"

definition pod_Reconcile :: "'w kube \<Rightarrow> string \<Rightarrow> string \<Rightarrow> ('w, result) state" where
  "pod_Reconcile K ns name =
     do {
       g \<leftarrow> kc_GetPod K ns name;
       (case g of
          Inl e \<Rightarrow> ret (0, IgnoreNotFound e)
        | Inr pod \<Rightarrow>
            if entry (mp_Annotations pod) ManagedUID = [] then ret (0, None)
            else do {
              x \<leftarrow> kc_GetLease K (mp_Namespace pod) (entry (mp_Annotations pod) ManagedLease);
              (case x of
                 Inl e \<Rightarrow>
                   if errors_Is e ErrNotFound then do { d \<leftarrow> deleteUID_pod K pod; ret (0, d) } else ret (0, Some e)
               | Inr l \<Rightarrow>
                   if bl_UID l \<noteq> entry (mp_Annotations pod) ManagedUID then do { d \<leftarrow> deleteUID_pod K pod; ret (0, d) }
                   else if stopping l then do { d \<leftarrow> deleteUID_pod K pod; ret (second, d) }
                   else do {
                     now \<leftarrow> kc_Now K;
                     if \<not> activeAt l now then ret (second, None)
                     else do { p \<leftarrow> permitPod K l pod; ret (second, fst p) }
                   })
            })
     }"

definition stop_job :: "'w kube \<Rightarrow> mjob \<Rightarrow> ('w, result) state" where
  "stop_job K job =
     do {
       e \<leftarrow> suspend_job K job;
       (case e of
          Some e' \<Rightarrow> ret (0, Some e')
        | None \<Rightarrow> do { d \<leftarrow> deleteUID_job K job; ret (second, d) })
     }"

definition job_Reconcile :: "'w kube \<Rightarrow> string \<Rightarrow> string \<Rightarrow> ('w, result) state" where
  "job_Reconcile K ns name =
     do {
       g \<leftarrow> kc_GetJob K ns name;
       (case g of
          Inl e \<Rightarrow> ret (0, IgnoreNotFound e)
        | Inr job \<Rightarrow>
            if entry (mj_Annotations job) ManagedUID = [] then ret (0, None)
            else do {
              x \<leftarrow> kc_GetLease K (mj_Namespace job) (entry (mj_Annotations job) ManagedLease);
              (case x of
                 Inl e \<Rightarrow> if errors_Is e ErrNotFound then stop_job K job else ret (0, Some e)
               | Inr l \<Rightarrow>
                   if bl_UID l \<noteq> entry (mj_Annotations job) ManagedUID \<or> stopping l then stop_job K job
                   else ret (second, None))
            })
     }"

section \<open>Registration of the controllers\<close>

text \<open>\<open>register\<close> completes one controller with the manager and may fail.\<close>

definition setupManagedControllers :: "(string \<Rightarrow> goerr option) \<Rightarrow> goerr option" where
  "setupManagedControllers register =
     (case register ''managed-pods'' of Some e \<Rightarrow> Some e | None \<Rightarrow> register ''managed-jobs'')"

definition operator_SetupWithManager :: "'w LeaseClient option \<Rightarrow> BerthLeaseReconciler \<Rightarrow> (string \<Rightarrow> goerr option) \<Rightarrow> goerr option" where
  "operator_SetupWithManager LC r register =
     (if LC = None then Some (ErrText ''BerthLeaseReconciler.LeaseClient is required'')
      else (case (if rc_ManagedWorkloads r then setupManagedControllers register else None) of
          Some e \<Rightarrow> Some e
        | None \<Rightarrow> register ''berthlease''))"

end
