(* ===== verification/Operator_Cluster.thy ===== *)
theory Operator_Cluster
  imports Operator_Reconcile
begin

text \<open>
  The operator inside its cluster.  A \<open>csnap\<close> is what matters of the cluster for one incarnation
  \<open>u\<close> of one lease: the stored lease object, the pods bound to it, and the release requests sent.
  The reconcilers run interleaved with other writers, so the proofs are in the style of rely and
  guarantee: \<open>others\<close> bounds what everybody else may do between two calls, \<open>cluster_inv\<close> is the
  invariant, and an assertion is used only if it is stable under \<open>others\<close>.

  The locale \<open>managed_cluster\<close> lists what the code relies on of the Kubernetes API server (optimistic
  locking by resource versions, complete lists, finalizers, unique UIDs), of the admission of pods
  (a gate removal was checked against the stored lease) and of the lease API.
\<close>

section \<open>The cluster as the operator sees it\<close>

text \<open>
  \<open>cs_live\<close>: the UIDs of the pods bound to the lease that exist and are not terminal;
  \<open>cs_admitted\<close>: the pods (name and UID) whose gate removal has ever passed admission;
  \<open>cs_open\<close>: the bound, live pods without the gate, those that may run;
  \<open>cs_known\<close>: the UIDs that were ever given to a pod;
  \<open>cs_released\<close>: the identities (lease name, holder, token) for which a release was requested and
  which were not granted again since;
  \<open>cs_hist\<close>: the content every resource version of the lease object stands for.
\<close>

record csnap =
  cs_lease :: "BerthLease option"
  cs_live :: "string set"
  cs_admitted :: "(string \<times> string) set"
  cs_open :: "(string \<times> string) set"
  cs_known :: "string set"
  cs_released :: "(string \<times> string \<times> int32) set"
  cs_hist :: "string \<rightharpoonup> BerthLease"

abbreviation workload :: "BerthLease \<Rightarrow> WorkloadStatus option" where
  "workload l \<equiv> bt_Workload (bl_Status l)"

definition busy :: "WorkloadStatus \<Rightarrow> bool" where
  "busy w \<longleftrightarrow> ws_Phase w = PhaseActive \<or> ws_Phase w = PhaseStopping"

definition pods_of :: "WorkloadStatus \<Rightarrow> (string \<times> string) set" where
  "pods_of w = (\<lambda>p. (pp_Name p, pp_UID p)) ` set (ws_Pods w)"

definition identity :: "WorkloadStatus \<Rightarrow> string \<times> string \<times> int32" where
  "identity w = (ws_LeaseName w, ws_Holder w, ws_Token w)"

definition acc :: "string \<Rightarrow> BerthLease \<Rightarrow> WorkloadStatus option" where
  "acc u l = (if bl_UID l = u then workload l else None)"

definition tracked :: "string \<Rightarrow> csnap \<Rightarrow> WorkloadStatus option" where
  "tracked u s = (case cs_lease s of None \<Rightarrow> None | Some l \<Rightarrow> acc u l)"

definition idle :: "WorkloadStatus option \<Rightarrow> bool" where
  "idle wo \<longleftrightarrow> (\<forall>w. wo = Some w \<longrightarrow> \<not> busy w)"

definition accounted :: "string \<Rightarrow> csnap \<Rightarrow> string \<times> string \<Rightarrow> bool" where
  "accounted u s p \<longleftrightarrow> (\<exists>w. tracked u s = Some w \<and> busy w \<and> p \<in> pods_of w)"

definition dry :: "csnap \<Rightarrow> WorkloadStatus \<Rightarrow> bool" where
  "dry s w \<longleftrightarrow> ws_Phase w = PhaseStopping \<and> snd ` pods_of w \<inter> cs_live s = {}"

definition drained :: "string \<Rightarrow> csnap \<Rightarrow> bool" where
  "drained u s \<longleftrightarrow> (\<forall>w. tracked u s = Some w \<longrightarrow> busy w \<longrightarrow> dry s w)"

definition lease_fits :: "string \<Rightarrow> csnap \<Rightarrow> BerthLease \<Rightarrow> bool" where
  "lease_fits u s l \<longleftrightarrow>
     (\<forall>w. acc u l = Some w \<longrightarrow> snd ` pods_of w \<subseteq> cs_known s \<and> bs_Target (bl_Spec l) \<noteq> None \<and>
        (busy w \<or> ws_Pods w = []))"

definition guarded :: "BerthLease option \<Rightarrow> bool" where
  "guarded lo \<longleftrightarrow> (\<exists>l. lo = Some l \<and> FinalizerName \<in> set (bl_Finalizers l))"

text \<open>
  The invariant: every pod that may run was admitted and is live; every admitted pod that is still
  live is registered in the lease; a registered identity for which a release was requested has no
  live pods left and cannot get new ones.
\<close>

definition cluster_inv :: "string \<Rightarrow> csnap \<Rightarrow> bool" where
  "cluster_inv u s \<longleftrightarrow>
     (\<forall>p \<in> cs_open s. p \<in> cs_admitted s \<and> snd p \<in> cs_live s) \<and>
     (\<forall>p \<in> cs_admitted s. snd p \<in> cs_live s \<longrightarrow> accounted u s p) \<and>
     cs_live s \<subseteq> cs_known s \<and> snd ` cs_admitted s \<subseteq> cs_known s \<and>
     (\<forall>v l. cs_hist s v = Some l \<longrightarrow> bl_ResourceVersion l = v \<and> lease_fits u s l) \<and>
     (\<forall>l. cs_lease s = Some l \<longrightarrow> cs_hist s (bl_ResourceVersion l) = Some l) \<and>
     (\<forall>w. tracked u s = Some w \<longrightarrow> busy w \<longrightarrow> identity w \<in> cs_released s \<or> \<not> guarded (cs_lease s) \<longrightarrow> dry s w)"

text \<open>What others may do to the record of a workload: register pods while it is active, and replace it while idle.\<close>

definition wl_step :: "WorkloadStatus option \<Rightarrow> WorkloadStatus option \<Rightarrow> bool" where
  "wl_step wo wo' \<longleftrightarrow>
     (case wo of
        None \<Rightarrow> idle wo'
      | Some w \<Rightarrow>
          if ws_Phase w = PhaseStopping then wo' = Some w
          else if ws_Phase w = PhaseActive then (\<exists>more. wo' = Some (w\<lparr>ws_Pods := ws_Pods w @ more\<rparr>))
          else idle wo')"

definition lease_step :: "string \<Rightarrow> BerthLease option \<Rightarrow> BerthLease option \<Rightarrow> bool" where
  "lease_step u lo lo' \<longleftrightarrow>
     (\<forall>l. lo = Some l \<longrightarrow> FinalizerName \<in> set (bl_Finalizers l) \<longrightarrow>
        (\<exists>l'. lo' = Some l' \<and> bl_UID l' = bl_UID l \<and> FinalizerName \<in> set (bl_Finalizers l') \<and>
           bs_Target (bl_Spec l') = bs_Target (bl_Spec l) \<and> wl_step (workload l) (workload l'))) \<and>
     (\<not> guarded lo \<longrightarrow> (\<forall>l'. lo' = Some l' \<longrightarrow> idle (acc u l') \<or>
        \<not> guarded lo' \<and> (\<exists>l. lo = Some l \<and> bl_UID l' = bl_UID l \<and> workload l' = workload l)))"

definition others :: "string \<Rightarrow> csnap \<Rightarrow> csnap \<Rightarrow> bool" where
  "others u s s' \<longleftrightarrow>
     cs_released s' = cs_released s \<and> cs_known s \<subseteq> cs_known s' \<and> cs_live s' \<inter> cs_known s \<subseteq> cs_live s \<and>
     cs_live s' \<subseteq> cs_known s' \<and>
     (\<forall>p \<in> cs_open s'. snd p \<in> cs_live s' \<and> (p \<in> cs_open s \<or> p \<in> cs_admitted s')) \<and>
     cs_admitted s \<subseteq> cs_admitted s' \<and>
     (\<forall>p \<in> cs_admitted s'. p \<in> cs_admitted s \<or>
        snd p \<in> cs_known s' \<and> (snd p \<in> cs_live s' \<longrightarrow> accounted u s' p)) \<and>
     cs_hist s \<subseteq>\<^sub>m cs_hist s' \<and>
     (\<forall>v l. cs_hist s' v = Some l \<longrightarrow> cs_hist s v = Some l \<or> bl_ResourceVersion l = v \<and> lease_fits u s' l) \<and>
     (\<forall>l. cs_lease s' = Some l \<longrightarrow> cs_hist s' (bl_ResourceVersion l) = Some l) \<and>
     lease_step u (cs_lease s) (cs_lease s')"

section \<open>Steps of others\<close>

lemma invD:
  assumes "cluster_inv u s"
  shows "p \<in> cs_open s \<Longrightarrow> p \<in> cs_admitted s" "p \<in> cs_open s \<Longrightarrow> snd p \<in> cs_live s"
    "p \<in> cs_admitted s \<Longrightarrow> snd p \<in> cs_live s \<Longrightarrow> accounted u s p" "i \<in> cs_live s \<Longrightarrow> i \<in> cs_known s"
    "p \<in> cs_admitted s \<Longrightarrow> snd p \<in> cs_known s"
    "cs_hist s v = Some l \<Longrightarrow> bl_ResourceVersion l = v" "cs_hist s v = Some l \<Longrightarrow> lease_fits u s l"
    "cs_lease s = Some l \<Longrightarrow> cs_hist s (bl_ResourceVersion l) = Some l"
    "tracked u s = Some w \<Longrightarrow> busy w \<Longrightarrow> identity w \<in> cs_released s \<or> \<not> guarded (cs_lease s) \<Longrightarrow> dry s w"
  using assms unfolding cluster_inv_def by blast+

lemma othersD:
  assumes "others u s s'"
  shows "cs_released s' = cs_released s" "i \<in> cs_known s \<Longrightarrow> i \<in> cs_known s'"
    "i \<in> cs_live s' \<Longrightarrow> i \<in> cs_known s \<Longrightarrow> i \<in> cs_live s" "i \<in> cs_live s' \<Longrightarrow> i \<in> cs_known s'"
    "p \<in> cs_open s' \<Longrightarrow> snd p \<in> cs_live s'" "p \<in> cs_open s' \<Longrightarrow> p \<in> cs_open s \<or> p \<in> cs_admitted s'"
    "p \<in> cs_admitted s \<Longrightarrow> p \<in> cs_admitted s'" "p \<in> cs_admitted s' \<Longrightarrow> p \<in> cs_admitted s \<or> snd p \<in> cs_known s' \<and> (snd p \<in> cs_live s' \<longrightarrow> accounted u s' p)"
    "cs_hist s v = Some l \<Longrightarrow> cs_hist s' v = Some l"
    "cs_hist s' v = Some l \<Longrightarrow> cs_hist s v = Some l \<or> bl_ResourceVersion l = v \<and> lease_fits u s' l"
    "cs_lease s' = Some l \<Longrightarrow> cs_hist s' (bl_ResourceVersion l) = Some l" "lease_step u (cs_lease s) (cs_lease s')"
  using assms unfolding others_def by (blast, blast, blast, blast, blast, blast, blast, blast, metis domI map_le_def, blast, blast, blast)

lemma wl_step_refl [simp]: "wl_step wo wo"
  by (auto simp: wl_step_def idle_def busy_def split: option.splits intro: exI [of _ "[]"])

lemma wl_step_trans:
  assumes "wl_step a b" "wl_step b c"
  shows "wl_step a c"
proof (cases a)
  case None
  with assms show ?thesis by (auto simp: wl_step_def idle_def busy_def split: option.splits)
next
  case (Some w)
  with assms show ?thesis
    by (auto simp: wl_step_def idle_def busy_def split: option.splits if_splits)
qed

lemma wl_step_busy:
  assumes "wl_step (Some w) wo'" "busy w"
  shows "\<exists>w'. wo' = Some w' \<and> busy w' \<and> pods_of w \<subseteq> pods_of w' \<and> identity w' = identity w \<and> ws_Phase w' = ws_Phase w \<and>
    (ws_Phase w = PhaseStopping \<longrightarrow> w' = w)"
  using assms by (auto simp: wl_step_def busy_def pods_of_def identity_def split: if_splits)

lemma wl_step_idle: "wl_step wo wo' \<Longrightarrow> idle wo \<Longrightarrow> idle wo'"
  by (auto simp: wl_step_def idle_def busy_def split: option.splits if_splits)

lemma idle_None [simp]: "idle None"
  by (simp add: idle_def)

lemma idle_acc_step:
  "idle (acc u l) \<Longrightarrow> bl_UID l' = bl_UID l \<Longrightarrow> wl_step (workload l) (workload l') \<Longrightarrow> idle (acc u l')"
  by (cases "bl_UID l = u") (simp_all add: acc_def wl_step_idle)

lemma lease_step_refl [simp]: "lease_step u lo lo"
  by (auto simp: lease_step_def)

lemma others_refl [simp]: "cluster_inv u s \<Longrightarrow> others u s s"
  by (auto simp: others_def cluster_inv_def)

lemma lease_step_guarded:
  assumes "lease_step u (Some l) c" "FinalizerName \<in> set (bl_Finalizers l)"
  shows "\<exists>l'. c = Some l' \<and> bl_UID l' = bl_UID l \<and> FinalizerName \<in> set (bl_Finalizers l') \<and>
    bs_Target (bl_Spec l') = bs_Target (bl_Spec l) \<and> wl_step (workload l) (workload l')"
  using assms by (auto simp: lease_step_def)

text \<open>While the object has the finalizer, a busy record stays, and grows at most.\<close>

lemma others_tracked:
  assumes "others u s s'" "tracked u s = Some w" "busy w" "guarded (cs_lease s)"
  shows "guarded (cs_lease s') \<and> (\<exists>w'. tracked u s' = Some w' \<and> busy w' \<and> pods_of w \<subseteq> pods_of w' \<and> identity w' = identity w \<and>
    ws_Phase w' = ws_Phase w \<and> (ws_Phase w = PhaseStopping \<longrightarrow> w' = w))"
proof -
  obtain l where l: "cs_lease s = Some l" "FinalizerName \<in> set (bl_Finalizers l)" "acc u l = Some w"
    using assms(2,4) by (auto simp: tracked_def guarded_def)
  then obtain l' where l': "cs_lease s' = Some l'" "bl_UID l' = bl_UID l" "FinalizerName \<in> set (bl_Finalizers l')"
    "wl_step (workload l) (workload l')"
    using lease_step_guarded [of u l "cs_lease s'"] othersD(12) [OF assms(1)] by auto
  have "bl_UID l = u" "workload l = Some w" using l(3) by (auto simp: acc_def split: if_splits)
  then show ?thesis
    using l' wl_step_busy [OF _ assms(3), of "workload l'"] by (auto simp: tracked_def acc_def guarded_def)
qed

lemma others_tracked_idle:
  assumes "others u s s'" "idle (tracked u s)"
  shows "idle (tracked u s')"
proof (cases "guarded (cs_lease s)")
  case True
  then obtain l where l: "cs_lease s = Some l" "FinalizerName \<in> set (bl_Finalizers l)" by (auto simp: guarded_def)
  then obtain l' where l': "cs_lease s' = Some l'" "bl_UID l' = bl_UID l" "wl_step (workload l) (workload l')"
    using lease_step_guarded [of u l "cs_lease s'"] othersD(12) [OF assms(1)] by auto
  then show ?thesis
    using assms(2) l(1) idle_acc_step [OF _ l'(2,3)] by (simp add: tracked_def)
next
  case False
  then show ?thesis
    using assms(2) othersD(12) [OF assms(1)] by (cases "cs_lease s'") (auto simp: lease_step_def tracked_def acc_def)
qed

text \<open>Without the finalizer, a record that is busy afterwards was so before.\<close>

lemma others_unguarded:
  assumes "others u s s'" "\<not> guarded (cs_lease s)" "tracked u s' = Some w" "busy w"
  shows "tracked u s = Some w \<and> \<not> guarded (cs_lease s')"
  using assms othersD(12) [OF assms(1)]
  by (cases "cs_lease s'") (auto simp: lease_step_def tracked_def acc_def idle_def split: if_splits)

lemma live_guarded:
  assumes "cluster_inv u s" "accounted u s p" "snd p \<in> cs_live s"
  shows "guarded (cs_lease s)"
  using assms invD(9) [OF assms(1)] by (fastforce simp: accounted_def dry_def)

lemma others_accounted:
  assumes "cluster_inv u s" "others u s s'" "accounted u s p" "snd p \<in> cs_live s"
  shows "accounted u s' p"
  using others_tracked [OF assms(2)] live_guarded [OF assms(1,3,4)] assms(3) unfolding accounted_def by blast

lemma lease_fits_mono: "lease_fits u s l \<Longrightarrow> cs_known s \<subseteq> cs_known s' \<Longrightarrow> lease_fits u s' l"
  by (fastforce simp: lease_fits_def)

lemma others_dry:
  assumes "others u s s'" "dry s w" "snd ` pods_of w \<subseteq> cs_known s"
  shows "dry s' w"
  using assms(2,3) othersD(3) [OF assms(1)] by (auto simp: dry_def)

lemma tracked_fits: "cluster_inv u s \<Longrightarrow> tracked u s = Some w \<Longrightarrow> \<exists>l. cs_lease s = Some l \<and> acc u l = Some w \<and> lease_fits u s l"
  by (auto simp: tracked_def dest: invD split: option.splits)

lemma tracked_known: "cluster_inv u s \<Longrightarrow> tracked u s = Some w \<Longrightarrow> snd ` pods_of w \<subseteq> cs_known s"
  using tracked_fits by (fastforce simp: lease_fits_def)

lemma others_fits:
  assumes i: "cluster_inv u s" and o: "others u s s'" and h: "cs_hist s' v = Some l"
  shows "bl_ResourceVersion l = v \<and> lease_fits u s' l"
  using othersD(10) [OF o h] invD(6,7) [OF i] lease_fits_mono [of u s l s'] othersD(2) [OF o] by blast

lemma others_live_accounted:
  assumes i: "cluster_inv u s" and o: "others u s s'" and p: "p \<in> cs_admitted s'" "snd p \<in> cs_live s'"
  shows "accounted u s' p"
  using othersD(8) [OF o p(1)] invD(3,5) [OF i] othersD(3) [OF o p(2)] others_accounted [OF i o] p(2) by blast

lemma others_dry_again:
  assumes i: "cluster_inv u s" and o: "others u s s'"
    and w': "tracked u s' = Some w'" "busy w'" "identity w' \<in> cs_released s' \<or> \<not> guarded (cs_lease s')"
  shows "dry s' w'"
proof -
  have "\<not> idle (tracked u s)"
    using others_tracked_idle [OF o] w'(1,2) by (auto simp: idle_def)
  then obtain w where w: "tracked u s = Some w" "busy w" by (auto simp: idle_def)
  have e: "identity w' = identity w \<and> (ws_Phase w = PhaseStopping \<longrightarrow> w' = w) \<and> (guarded (cs_lease s) \<longrightarrow> guarded (cs_lease s'))"
  proof (cases "guarded (cs_lease s)")
    case True
    then show ?thesis using others_tracked [OF o w] w'(1) by auto
  next
    case False
    then show ?thesis using others_unguarded [OF o _ w'(1,2)] w(1) by auto
  qed
  then have d: "dry s w" using invD(9) [OF i w] w'(3) othersD(1) [OF o] by auto
  with e others_dry [OF o d tracked_known [OF i w(1)]] show ?thesis by (simp add: dry_def)
qed

lemma others_inv:
  assumes i: "cluster_inv u s" and o: "others u s s'"
  shows "cluster_inv u s'"
  unfolding cluster_inv_def
proof (intro conjI ballI allI impI subsetI)
  show "p \<in> cs_admitted s'" if "p \<in> cs_open s'" for p
    using othersD(6) [OF o that] invD(1) [OF i] othersD(7) [OF o] by blast
  show "i \<in> cs_known s'" if "i \<in> snd ` cs_admitted s'" for i
    using that othersD(8) [OF o] invD(5) [OF i] othersD(2) [OF o] by blast
qed (blast dest: othersD(4,5,11) [OF o] others_live_accounted [OF i o] others_fits [OF i o] others_dry_again [OF i o])+

lemma lease_step_trans:
  assumes "lease_step u a b" "lease_step u b c"
  shows "lease_step u a c"
proof -
  have "idle (acc u l'') \<or> \<not> guarded c \<and> (\<exists>l. a = Some l \<and> bl_UID l'' = bl_UID l \<and> workload l'' = workload l)"
    if "\<not> guarded a" "c = Some l''" for l''
  proof (cases "guarded b")
    case True
    then obtain l' where l': "b = Some l'" "FinalizerName \<in> set (bl_Finalizers l')" by (auto simp: guarded_def)
    have "idle (acc u l')" using assms(1) that(1) l' True by (auto simp: lease_step_def)
    moreover have "bl_UID l'' = bl_UID l'" "wl_step (workload l') (workload l'')"
      using lease_step_guarded [of u l' c] assms(2) l' that(2) by auto
    ultimately have "idle (acc u l'')" by (rule idle_acc_step)
    then show ?thesis ..
  next
    case False
    then have "idle (acc u l'') \<or> \<not> guarded c \<and> (\<exists>l'. b = Some l' \<and> bl_UID l'' = bl_UID l' \<and> workload l'' = workload l')"
      using assms(2) that(2) unfolding lease_step_def by blast
    then consider "idle (acc u l'')" | l' where "\<not> guarded c" "b = Some l'" "bl_UID l'' = bl_UID l'" "workload l'' = workload l'"
      by blast
    then show ?thesis
    proof cases
      case 2
      then show ?thesis using assms(1) that(1) by (auto simp: lease_step_def acc_def)
    qed simp
  qed
  moreover have "\<exists>l''. c = Some l'' \<and> bl_UID l'' = bl_UID l \<and> FinalizerName \<in> set (bl_Finalizers l'') \<and>
      bs_Target (bl_Spec l'') = bs_Target (bl_Spec l) \<and> wl_step (workload l) (workload l'')"
    if l: "a = Some l" "FinalizerName \<in> set (bl_Finalizers l)" for l
  proof -
    obtain l' where l': "b = Some l'" "bl_UID l' = bl_UID l" "FinalizerName \<in> set (bl_Finalizers l')"
      "bs_Target (bl_Spec l') = bs_Target (bl_Spec l)" "wl_step (workload l) (workload l')"
      using lease_step_guarded [of u l b] assms(1) l by auto
    obtain l'' where l'': "c = Some l''" "bl_UID l'' = bl_UID l'" "FinalizerName \<in> set (bl_Finalizers l'')"
      "bs_Target (bl_Spec l'') = bs_Target (bl_Spec l')" "wl_step (workload l') (workload l'')"
      using lease_step_guarded [of u l' c] assms(2) l' by auto
    show ?thesis
      using l' l'' wl_step_trans [OF l'(5) l''(5)] by simp
  qed
  ultimately show ?thesis by (simp add: lease_step_def)
qed

lemma others_trans:
  assumes i: "cluster_inv u s" and o: "others u s s'" and o': "others u s' s''"
  shows "others u s s''"
proof -
  have i': "cluster_inv u s'" using others_inv [OF i o] .
  have "cs_hist s \<subseteq>\<^sub>m cs_hist s''"
    using o o' map_le_trans by (auto simp: others_def)
  moreover have "lease_step u (cs_lease s) (cs_lease s'')"
    using lease_step_trans othersD(12) o o' by blast
  moreover have "p \<in> cs_admitted s \<or> snd p \<in> cs_known s'' \<and> (snd p \<in> cs_live s'' \<longrightarrow> accounted u s'' p)" if "p \<in> cs_admitted s''" for p
    using that othersD(8) [OF o] othersD(2) [OF o'] othersD(8) [OF o'] others_live_accounted [OF i' o'] by blast
  moreover have "cs_hist s v = Some l \<or> bl_ResourceVersion l = v \<and> lease_fits u s'' l" if "cs_hist s'' v = Some l" for v l
    using that othersD(10) [OF o] others_fits [OF i' o'] by blast
  moreover have "cs_released s'' = cs_released s" "cs_known s \<subseteq> cs_known s''" "cs_live s'' \<inter> cs_known s \<subseteq> cs_live s"
    "cs_admitted s \<subseteq> cs_admitted s''" "cs_live s'' \<subseteq> cs_known s''"
    using o o' by (auto simp: others_def)
  moreover have "p \<in> cs_open s \<or> p \<in> cs_admitted s''" if "p \<in> cs_open s''" for p
    using that othersD(6) [OF o] othersD(6,7) [OF o'] by blast
  ultimately show ?thesis
    unfolding others_def using othersD(5,11) [OF o'] by (intro conjI ballI allI impI) simp_all
qed

end
