(* ===== verification/Operator_Safety.thy ===== *)
theory Operator_Safety
  imports Operator_Cluster
begin

text \<open>
  The contract between the reconcilers and their cluster, as the locale \<open>managed_cluster\<close>, and the
  proofs inside it: which operations only do what others may do as well (\<open>harmless\<close>), and that a
  round of the lease reconciler keeps the invariant of the cluster (\<open>keeps\<close>).
\<close>

section \<open>Actions on a cluster\<close>

named_theorems harmless_intro \<open>composition of harmless actions\<close>

definition harmless :: "('w \<Rightarrow> csnap) \<Rightarrow> string \<Rightarrow> ('w, 'a) state \<Rightarrow> bool" where
  "harmless snap u m \<longleftrightarrow>
     (\<forall>w a w'. cluster_inv u (snap w) \<longrightarrow> run_state m w = (a, w') \<longrightarrow> others u (snap w) (snap w'))"

definition stable :: "string \<Rightarrow> (csnap \<Rightarrow> bool) \<Rightarrow> bool" where
  "stable u P \<longleftrightarrow> (\<forall>s s'. cluster_inv u s \<longrightarrow> P s \<longrightarrow> others u s s' \<longrightarrow> P s')"

definition keeps :: "('w \<Rightarrow> csnap) \<Rightarrow> string \<Rightarrow> (csnap \<Rightarrow> bool) \<Rightarrow> ('w, 'a) state \<Rightarrow> ('a \<Rightarrow> csnap \<Rightarrow> bool) \<Rightarrow> bool" where
  "keeps snap u P m Q \<longleftrightarrow>
     ensures (\<lambda>w. cluster_inv u (snap w) \<and> P (snap w)) m (\<lambda>a w. cluster_inv u (snap w) \<and> Q a (snap w))"

lemma harmlessD: "harmless snap u m \<Longrightarrow> cluster_inv u (snap w) \<Longrightarrow> run_state m w = (a, w') \<Longrightarrow> others u (snap w) (snap w')"
  by (auto simp: harmless_def)

lemma harmless_ret [harmless_intro]: "harmless snap u (ret x)"
  by (simp add: harmless_def)

lemma harmless_bind [harmless_intro]:
  "harmless snap u m \<Longrightarrow> (\<And>x. harmless snap u (f x)) \<Longrightarrow> harmless snap u (State_Monad.bind m f)"
  unfolding harmless_def by (auto split: prod.splits) (metis others_inv others_trans)

lemma harmless_if [harmless_intro]:
  "(b \<Longrightarrow> harmless snap u m) \<Longrightarrow> (\<not> b \<Longrightarrow> harmless snap u m') \<Longrightarrow> harmless snap u (if b then m else m')"
  by simp

lemma harmless_option [harmless_intro]:
  "(x = None \<Longrightarrow> harmless snap u m) \<Longrightarrow> (\<And>y. x = Some y \<Longrightarrow> harmless snap u (f y)) \<Longrightarrow>
    harmless snap u (case x of None \<Rightarrow> m | Some y \<Rightarrow> f y)"
  by (cases x) simp_all

lemma harmless_sum [harmless_intro]:
  "(\<And>e. x = Inl e \<Longrightarrow> harmless snap u (g e)) \<Longrightarrow> (\<And>y. x = Inr y \<Longrightarrow> harmless snap u (f y)) \<Longrightarrow>
    harmless snap u (case x of Inl e \<Rightarrow> g e | Inr y \<Rightarrow> f y)"
  by (cases x) simp_all

lemma harmless_prod [harmless_intro]:
  "(\<And>a b. x = (a, b) \<Longrightarrow> harmless snap u (f a b)) \<Longrightarrow> harmless snap u (case x of (a, b) \<Rightarrow> f a b)"
  by (cases x) simp

lemma harmless_Let [harmless_intro]: "(\<And>y. y = x \<Longrightarrow> harmless snap u (f y)) \<Longrightarrow> harmless snap u (let y = x in f y)"
  by simp

lemma stable_const [simp]: "stable u (\<lambda>s. A)"
  by (simp add: stable_def)

lemmas stable_True = stable_const [where A = True]

lemma stable_conj: "stable u P \<Longrightarrow> stable u Q \<Longrightarrow> stable u (\<lambda>s. P s \<and> Q s)"
  by (fastforce simp: stable_def)

lemma keeps_ret: "(\<And>s. cluster_inv u s \<Longrightarrow> P s \<Longrightarrow> Q x s) \<Longrightarrow> keeps snap u P (ret x) Q"
  by (simp add: keeps_def ensures_def)

lemma keeps_bind:
  "keeps snap u P m R \<Longrightarrow> (\<And>x. keeps snap u (R x) (f x) Q) \<Longrightarrow> keeps snap u P (State_Monad.bind m f) Q"
  unfolding keeps_def by (rule ensures_bind)

lemma keeps_conseq:
  "keeps snap u P' m Q' \<Longrightarrow> (\<And>s. cluster_inv u s \<Longrightarrow> P s \<Longrightarrow> P' s) \<Longrightarrow>
    (\<And>a s. cluster_inv u s \<Longrightarrow> Q' a s \<Longrightarrow> Q a s) \<Longrightarrow> keeps snap u P m Q"
  unfolding keeps_def by (erule ensures_conseq) auto

lemma keeps_harmless: "harmless snap u m \<Longrightarrow> stable u P \<Longrightarrow> keeps snap u P m (\<lambda>_. P)"
  unfolding keeps_def by (rule ensuresI) (auto dest: harmlessD others_inv simp: stable_def)

lemma keeps_harmless_end: "harmless snap u m \<Longrightarrow> keeps snap u P m (\<lambda>_ _. True)"
  unfolding keeps_def by (rule ensuresI) (auto dest: harmlessD others_inv)

lemma keeps_if:
  "(b \<Longrightarrow> keeps snap u P m Q) \<Longrightarrow> (\<not> b \<Longrightarrow> keeps snap u P m' Q) \<Longrightarrow> keeps snap u P (if b then m else m') Q"
  by simp

lemma keeps_option:
  "(x = None \<Longrightarrow> keeps snap u P m Q) \<Longrightarrow> (\<And>y. x = Some y \<Longrightarrow> keeps snap u P (f y) Q) \<Longrightarrow>
    keeps snap u P (case x of None \<Rightarrow> m | Some y \<Rightarrow> f y) Q"
  by (cases x) simp_all

lemma keeps_sum:
  "(\<And>e. x = Inl e \<Longrightarrow> keeps snap u P (g e) Q) \<Longrightarrow> (\<And>y. x = Inr y \<Longrightarrow> keeps snap u P (f y) Q) \<Longrightarrow>
    keeps snap u P (case x of Inl e \<Rightarrow> g e | Inr y \<Rightarrow> f y) Q"
  by (cases x) simp_all

lemma keeps_prod:
  "(\<And>a b. x = (a, b) \<Longrightarrow> keeps snap u P (f a b) Q) \<Longrightarrow> keeps snap u P (case x of (a, b) \<Rightarrow> f a b) Q"
  by (cases x) simp

lemma keeps_bind_harmless:
  "harmless snap u m \<Longrightarrow> stable u P \<Longrightarrow> (\<And>x. keeps snap u P (f x) Q) \<Longrightarrow> keeps snap u P (State_Monad.bind m f) Q"
  by (rule keeps_bind [OF keeps_harmless])

lemma keeps_assume:
  assumes "\<And>s. cluster_inv u s \<Longrightarrow> P s \<Longrightarrow> A" and "A \<Longrightarrow> keeps snap u P m Q"
  shows "keeps snap u P m Q"
  unfolding keeps_def
proof (rule ensuresI)
  fix w a w'
  assume w: "cluster_inv u (snap w) \<and> P (snap w)" "run_state m w = (a, w')"
  then have "keeps snap u P m Q" using assms by blast
  then show "cluster_inv u (snap w') \<and> Q a (snap w')" unfolding keeps_def using w by (rule ensuresD)
qed

lemma keeps_ex:
  assumes "\<And>x. keeps snap u (P x) m Q"
  shows "keeps snap u (\<lambda>s. \<exists>x. P x s) m Q"
  unfolding keeps_def
proof (rule ensuresI, elim conjE exE)
  fix w a w' x
  assume "cluster_inv u (snap w)" "P x (snap w)" and run: "run_state m w = (a, w')"
  then have "cluster_inv u (snap w) \<and> P x (snap w)" by simp
  then show "cluster_inv u (snap w') \<and> Q a (snap w')"
    by (rule ensuresD [OF assms [of x, unfolded keeps_def] _ run])
qed

lemma keeps_pure: "(A \<Longrightarrow> keeps snap u P m Q) \<Longrightarrow> keeps snap u (\<lambda>s. A \<and> P s) m Q"
  unfolding keeps_def by (auto simp: ensures_def)

section \<open>Writes of the lease object\<close>

definition put_lease :: "csnap \<Rightarrow> BerthLease \<Rightarrow> csnap" where
  "put_lease s l = s\<lparr>cs_lease := Some l, cs_hist := (cs_hist s)(bl_ResourceVersion l \<mapsto> l)\<rparr>"

lemma put_lease_sel [simp]:
  "cs_lease (put_lease s l) = Some l" "cs_live (put_lease s l) = cs_live s" "cs_admitted (put_lease s l) = cs_admitted s"
  "cs_open (put_lease s l) = cs_open s" "cs_known (put_lease s l) = cs_known s" "cs_released (put_lease s l) = cs_released s"
  "cs_hist (put_lease s l) = (cs_hist s)(bl_ResourceVersion l \<mapsto> l)" "tracked u (put_lease s l) = acc u l"
  by (simp_all add: put_lease_def tracked_def)

lemma put_lease_preds [simp]:
  "dry (put_lease s l) w = dry s w" "lease_fits u (put_lease s l) x = lease_fits u s x"
  "accounted u (put_lease s l) p = (\<exists>w. acc u l = Some w \<and> busy w \<and> p \<in> pods_of w)"
  by (simp_all add: dry_def lease_fits_def accounted_def)

lemma put_lease_inv:
  assumes i: "cluster_inv u s" and fits: "lease_fits u s l"
    and A: "\<And>p. p \<in> cs_admitted s \<Longrightarrow> snd p \<in> cs_live s \<Longrightarrow> accounted u s p \<Longrightarrow> \<exists>w. acc u l = Some w \<and> busy w \<and> p \<in> pods_of w"
    and B: "\<And>w. acc u l = Some w \<Longrightarrow> busy w \<Longrightarrow> identity w \<in> cs_released s \<or> FinalizerName \<notin> set (bl_Finalizers l) \<Longrightarrow> dry s w"
  shows "cluster_inv u (put_lease s l)"
  using i fits A B unfolding cluster_inv_def by (auto simp: guarded_def)

text \<open>
  A write of the status under a resource version: it happens on the object that has this version,
  at some moment during the call; the workload record of the written status is stored, under a new
  version.
\<close>

definition wrote_status :: "string \<Rightarrow> csnap \<Rightarrow> BerthLease \<Rightarrow> BerthLease \<Rightarrow> csnap \<Rightarrow> bool" where
  "wrote_status u s l l1 s' \<longleftrightarrow>
     (\<exists>s1 l0 st v. others u s s1 \<and> cs_lease s1 = Some l0 \<and> bl_ResourceVersion l0 = bl_ResourceVersion l \<and>
        bt_Workload st = workload l \<and> cs_hist s1 v = None \<and>
        l1 = l0\<lparr>bl_Status := st, bl_ResourceVersion := v\<rparr> \<and> s' = put_lease s1 l1)"

text \<open>A write of the object itself, which here only changes finalizers and may complete a deletion.\<close>

definition wrote_meta :: "string \<Rightarrow> csnap \<Rightarrow> BerthLease \<Rightarrow> csnap \<Rightarrow> bool" where
  "wrote_meta u s l s' \<longleftrightarrow>
     (\<exists>s1 l0 v. others u s s1 \<and> cs_lease s1 = Some l0 \<and> bl_ResourceVersion l0 = bl_ResourceVersion l \<and> cs_hist s1 v = None \<and>
        (s' = put_lease s1 (l0\<lparr>bl_Finalizers := bl_Finalizers l, bl_ResourceVersion := v\<rparr>) \<or>
         bl_Finalizers l = [] \<and> s' = s1\<lparr>cs_lease := None\<rparr>))"

text \<open>The invariant after a status write, in terms of the old and the new record.\<close>

lemma status_inv:
  assumes i: "cluster_inv u s" and l0: "cs_lease s = Some l0" and wo: "bt_Workload st = wo"
    and fits: "\<And>w. bl_UID l0 = u \<Longrightarrow> wo = Some w \<Longrightarrow> snd ` pods_of w \<subseteq> cs_known s \<and> bs_Target (bl_Spec l0) \<noteq> None \<and> (busy w \<or> ws_Pods w = [])"
    and A: "\<And>w0 p. bl_UID l0 = u \<Longrightarrow> workload l0 = Some w0 \<Longrightarrow> busy w0 \<Longrightarrow> p \<in> pods_of w0 \<Longrightarrow> snd p \<in> cs_live s \<Longrightarrow>
      \<exists>w. wo = Some w \<and> busy w \<and> p \<in> pods_of w"
    and B: "\<And>w. bl_UID l0 = u \<Longrightarrow> wo = Some w \<Longrightarrow> busy w \<Longrightarrow>
      identity w \<in> cs_released s \<or> FinalizerName \<notin> set (bl_Finalizers l0) \<Longrightarrow> dry s w"
  shows "cluster_inv u (put_lease s (l0\<lparr>bl_Status := st, bl_ResourceVersion := v\<rparr>))"
proof (rule put_lease_inv [OF i])
  show "lease_fits u s (l0\<lparr>bl_Status := st, bl_ResourceVersion := v\<rparr>)"
    using fits wo by (auto simp: lease_fits_def acc_def)
  show "\<exists>w. acc u (l0\<lparr>bl_Status := st, bl_ResourceVersion := v\<rparr>) = Some w \<and> busy w \<and> p \<in> pods_of w"
    if "snd p \<in> cs_live s" "accounted u s p" for p
    using that A [of _ p] wo l0 by (auto simp: accounted_def tracked_def acc_def split: if_splits)
  show "dry s w" if "acc u (l0\<lparr>bl_Status := st, bl_ResourceVersion := v\<rparr>) = Some w" "busy w"
    "identity w \<in> cs_released s \<or> FinalizerName \<notin> set (bl_Finalizers (l0\<lparr>bl_Status := st, bl_ResourceVersion := v\<rparr>))" for w
    using that B wo by (auto simp: acc_def split: if_splits)
qed

lemma same_record_inv:
  assumes i: "cluster_inv u s" and l0: "cs_lease s = Some l0" and wo: "bt_Workload st = workload l0"
  shows "cluster_inv u (put_lease s (l0\<lparr>bl_Status := st, bl_ResourceVersion := v\<rparr>))"
proof (rule status_inv [OF i l0 wo])
  show "snd ` pods_of w \<subseteq> cs_known s \<and> bs_Target (bl_Spec l0) \<noteq> None \<and> (busy w \<or> ws_Pods w = [])" if "bl_UID l0 = u" "workload l0 = Some w" for w
    using invD(7) [OF i invD(8) [OF i l0]] that by (auto simp: lease_fits_def acc_def)
  show "dry s w" if "bl_UID l0 = u" "workload l0 = Some w" "busy w" "identity w \<in> cs_released s \<or> FinalizerName \<notin> set (bl_Finalizers l0)" for w
    using invD(9) [OF i, of w] that l0 by (auto simp: tracked_def acc_def guarded_def)
qed blast

text \<open>Once everything is drained, any idle record may replace the present one.\<close>

lemma drained_not_live:
  "drained u s \<Longrightarrow> accounted u s p \<Longrightarrow> snd p \<notin> cs_live s"
  by (auto simp: drained_def accounted_def dry_def)

lemma idle_record_inv:
  assumes i: "cluster_inv u s" and l0: "cs_lease s = Some l0" and d: "drained u s"
    and wo: "bt_Workload st = wo" "idle wo"
    and p: "\<And>w. bl_UID l0 = u \<Longrightarrow> wo = Some w \<Longrightarrow> ws_Pods w = [] \<and> bs_Target (bl_Spec l0) \<noteq> None"
  shows "cluster_inv u (put_lease s (l0\<lparr>bl_Status := st, bl_ResourceVersion := v\<rparr>))"
proof (rule status_inv [OF i l0 wo(1)])
  show "snd ` pods_of w \<subseteq> cs_known s \<and> bs_Target (bl_Spec l0) \<noteq> None \<and> (busy w \<or> ws_Pods w = [])" if "bl_UID l0 = u" "wo = Some w" for w
    using p [OF that] by (simp add: pods_of_def)
  show "\<exists>w. wo = Some w \<and> busy w \<and> q \<in> pods_of w"
    if "bl_UID l0 = u" "workload l0 = Some w0" "busy w0" "q \<in> pods_of w0" "snd q \<in> cs_live s" for w0 q
    using drained_not_live [OF d, of q] that l0 by (auto simp: accounted_def tracked_def acc_def)
qed (use wo(2) in \<open>auto simp: idle_def\<close>)

text \<open>Changes of finalizers, of the set of released identities, and the end of the object.\<close>

lemma meta_inv:
  assumes i: "cluster_inv u s" and l0: "cs_lease s = Some l0" and f: "FinalizerName \<in> set fs \<or> drained u s"
  shows "cluster_inv u (put_lease s (l0\<lparr>bl_Finalizers := fs, bl_ResourceVersion := v\<rparr>))"
proof (rule put_lease_inv [OF i])
  have acc: "acc u (l0\<lparr>bl_Finalizers := fs, bl_ResourceVersion := v\<rparr>) = tracked u s"
    using l0 by (simp add: acc_def tracked_def)
  show "lease_fits u s (l0\<lparr>bl_Finalizers := fs, bl_ResourceVersion := v\<rparr>)"
    using invD(7) [OF i invD(8) [OF i l0]] by (simp add: lease_fits_def acc_def)
  show "\<exists>w. acc u (l0\<lparr>bl_Finalizers := fs, bl_ResourceVersion := v\<rparr>) = Some w \<and> busy w \<and> p \<in> pods_of w"
    if "accounted u s p" for p
    using that acc by (simp add: accounted_def)
  show "dry s w" if "acc u (l0\<lparr>bl_Finalizers := fs, bl_ResourceVersion := v\<rparr>) = Some w" "busy w"
    "identity w \<in> cs_released s \<or> FinalizerName \<notin> set (bl_Finalizers (l0\<lparr>bl_Finalizers := fs, bl_ResourceVersion := v\<rparr>))" for w
    using that acc f invD(9) [OF i, of w] by (auto simp: drained_def)
qed

lemma no_lease_inv:
  assumes i: "cluster_inv u s" and d: "drained u s"
  shows "cluster_inv u (s\<lparr>cs_lease := None\<rparr>)"
proof -
  have "snd p \<notin> cs_live s" if "p \<in> cs_admitted s" for p
    using that invD(3) [OF i] drained_not_live [OF d] by blast
  then show ?thesis
    using i unfolding cluster_inv_def by (auto simp: tracked_def lease_fits_def)
qed

lemma drained_sel: "drained u (s\<lparr>cs_released := R\<rparr>) = drained u s"
  by (simp add: drained_def tracked_def dry_def)

lemma released_sel:
  "tracked u (s\<lparr>cs_released := R\<rparr>) = tracked u s" "dry (s\<lparr>cs_released := R\<rparr>) w = dry s w"
  "accounted u (s\<lparr>cs_released := R\<rparr>) p = accounted u s p" "lease_fits u (s\<lparr>cs_released := R\<rparr>) l = lease_fits u s l"
  by (simp_all add: tracked_def dry_def accounted_def lease_fits_def)

lemma drained_released_inv: "cluster_inv u s \<Longrightarrow> drained u s \<Longrightarrow> cluster_inv u (s\<lparr>cs_released := R\<rparr>)"
  by (simp add: cluster_inv_def released_sel drained_def)

lemma fewer_released_inv: "cluster_inv u s \<Longrightarrow> R \<subseteq> cs_released s \<Longrightarrow> cluster_inv u (s\<lparr>cs_released := R\<rparr>)"
  unfolding cluster_inv_def released_sel by auto

lemma register_inv:
  assumes i: "cluster_inv u s" and l: "cs_lease s = Some l" and w: "workload l = Some w" "ws_Phase w = PhaseActive"
    and k: "pp_UID q \<in> cs_known s" and st: "bt_Workload st = Some (w\<lparr>ws_Pods := ws_Pods w @ [q]\<rparr>)"
  shows "cluster_inv u (put_lease s (l\<lparr>bl_Status := st, bl_ResourceVersion := v\<rparr>))"
proof (rule status_inv [OF i l st])
  let ?w = "w\<lparr>ws_Pods := ws_Pods w @ [q]\<rparr>"
  have pods: "pods_of ?w = insert (pp_Name q, pp_UID q) (pods_of w)" by (auto simp: pods_of_def)
  have b: "busy ?w" "identity ?w = identity w" using w(2) by (simp_all add: busy_def identity_def)
  show "snd ` pods_of x \<subseteq> cs_known s \<and> bs_Target (bl_Spec l) \<noteq> None \<and> (busy x \<or> ws_Pods x = [])"
    if "bl_UID l = u" "Some ?w = Some x" for x
    using that invD(7) [OF i invD(8) [OF i l]] w k b pods by (auto simp: lease_fits_def acc_def)
  show "\<exists>x. Some ?w = Some x \<and> busy x \<and> p \<in> pods_of x" if "workload l = Some w0" "p \<in> pods_of w0" for w0 p
    using that w b pods by auto
  show "dry s x" if "bl_UID l = u" "Some ?w = Some x" "identity x \<in> cs_released s \<or> FinalizerName \<notin> set (bl_Finalizers l)" for x
    using that invD(9) [OF i, of w] w b l by (auto simp: tracked_def acc_def busy_def guarded_def dry_def)
qed

lemma phases_nonempty [simp]: "[] \<noteq> PhaseStopping" "[] \<noteq> PhaseActive"
  by (simp_all add: PhaseStopping_def PhaseActive_def)

lemma stopping_inv:
  assumes i: "cluster_inv u s" and l0: "cs_lease s = Some l0" and fin: "FinalizerName \<in> set (bl_Finalizers l0)"
    and t: "bs_Target (bl_Spec l0) \<noteq> None" and st: "bt_Workload st = Some w'" and w': "ws_Phase w' = PhaseStopping"
    and w: "case workload l0 of None \<Rightarrow> ws_Pods w' = [] | Some w \<Rightarrow> w' = w\<lparr>ws_Phase := PhaseStopping\<rparr>"
  shows "cluster_inv u (put_lease s (l0\<lparr>bl_Status := st, bl_ResourceVersion := v\<rparr>))"
proof (rule status_inv [OF i l0 st])
  have b: "busy w'" using w' by (simp add: busy_def)
  have fits: "lease_fits u s l0" using invD(7) [OF i invD(8) [OF i l0]] .
  have pods: "pods_of w' = pods_of w \<and> identity w' = identity w" if "workload l0 = Some w" for w
    using that w by (simp add: pods_of_def identity_def)
  have no_pods: "pods_of w' = {}" if "workload l0 = None"
    using that w by (simp add: pods_of_def)
  show "snd ` pods_of x \<subseteq> cs_known s \<and> bs_Target (bl_Spec l0) \<noteq> None \<and> (busy x \<or> ws_Pods x = [])"
    if "bl_UID l0 = u" "Some w' = Some x" for x
    using that fits b t pods no_pods by (cases "workload l0") (auto simp: lease_fits_def acc_def)
  show "\<exists>x. Some w' = Some x \<and> busy x \<and> p \<in> pods_of x" if "workload l0 = Some w0" "p \<in> pods_of w0" for w0 p
    using that b pods by auto
  show "dry s x" if x: "bl_UID l0 = u" "Some w' = Some x" "identity x \<in> cs_released s \<or> FinalizerName \<notin> set (bl_Finalizers l0)" for x
  proof (cases "workload l0")
    case None
    then show ?thesis using x w' no_pods by (auto simp: dry_def)
  next
    case (Some w0)
    show ?thesis
    proof (cases "busy w0")
      case True
      then have "dry s w0" using invD(9) [OF i, of w0] x Some l0 fin pods by (auto simp: tracked_def acc_def)
      then show ?thesis using x w' pods Some by (auto simp: dry_def)
    next
      case False
      then have "pods_of w0 = {}" using fits Some x(1) by (auto simp: lease_fits_def acc_def pods_of_def)
      then show ?thesis using x w' pods Some by (auto simp: dry_def)
    qed
  qed
qed

section \<open>What a reader knows\<close>

text \<open>A local copy of an object that was read, with a changed status but the same record.\<close>

definition copy_of :: "BerthLease \<Rightarrow> BerthLease \<Rightarrow> bool" where
  "copy_of l0 l \<longleftrightarrow> bl_ResourceVersion l = bl_ResourceVersion l0 \<and> bl_UID l = bl_UID l0 \<and> bl_Namespace l = bl_Namespace l0 \<and>
     bl_Name l = bl_Name l0 \<and> bl_Spec l = bl_Spec l0 \<and> bl_Finalizers l = bl_Finalizers l0 \<and> workload l = workload l0"

lemma setCondition_sel [simp]:
  "bl_ResourceVersion (setCondition K c b r e l) = bl_ResourceVersion l" "bl_UID (setCondition K c b r e l) = bl_UID l"
  "bl_Namespace (setCondition K c b r e l) = bl_Namespace l" "bl_Name (setCondition K c b r e l) = bl_Name l"
  "bl_Spec (setCondition K c b r e l) = bl_Spec l" "bl_Finalizers (setCondition K c b r e l) = bl_Finalizers l"
  "workload (setCondition K c b r e l) = workload l"
  by (simp_all add: setCondition_def)

lemma map_workload_sel [simp]:
  "bl_ResourceVersion (map_workload f l) = bl_ResourceVersion l" "bl_UID (map_workload f l) = bl_UID l"
  "bl_Namespace (map_workload f l) = bl_Namespace l" "bl_Name (map_workload f l) = bl_Name l"
  "bl_Spec (map_workload f l) = bl_Spec l" "bl_Finalizers (map_workload f l) = bl_Finalizers l"
  "workload (map_workload f l) = map_option f (workload l)"
  by (simp_all add: map_workload_def)

lemma with_workload_sel [simp]:
  "bl_ResourceVersion (with_workload l) = bl_ResourceVersion l" "bl_UID (with_workload l) = bl_UID l"
  "bl_Namespace (with_workload l) = bl_Namespace l" "bl_Name (with_workload l) = bl_Name l"
  "bl_Spec (with_workload l) = bl_Spec l" "bl_Finalizers (with_workload l) = bl_Finalizers l"
  "workload l = Some w \<Longrightarrow> with_workload l = l"
  by (simp_all add: with_workload_def split: option.splits)

definition seen :: "BerthLease \<Rightarrow> csnap \<Rightarrow> bool" where
  "seen l s \<longleftrightarrow> cs_hist s (bl_ResourceVersion l) = Some l"

definition follows :: "BerthLease \<Rightarrow> csnap \<Rightarrow> bool" where
  "follows l s \<longleftrightarrow>
     (\<exists>l'. cs_lease s = Some l' \<and> bl_UID l' = bl_UID l \<and> FinalizerName \<in> set (bl_Finalizers l') \<and>
        bs_Target (bl_Spec l') = bs_Target (bl_Spec l) \<and> wl_step (workload l) (workload l'))"

definition gone :: "string set \<Rightarrow> csnap \<Rightarrow> bool" where
  "gone I s \<longleftrightarrow> I \<subseteq> cs_known s \<and> I \<inter> cs_live s = {}"

definition based :: "BerthLease \<Rightarrow> csnap \<Rightarrow> bool" where
  "based l s \<longleftrightarrow>
     (\<exists>lb. cs_hist s (bl_ResourceVersion l) = Some lb \<and> bl_UID lb = bl_UID l \<and> bs_Target (bl_Spec lb) = bs_Target (bl_Spec l))"

definition ready :: "BerthLease \<Rightarrow> csnap \<Rightarrow> bool" where
  "ready l s \<longleftrightarrow> follows l s \<and> based l s"

lemma stable_hist: "stable u (\<lambda>s. cs_hist s v = Some l)"
  by (auto simp: stable_def dest: othersD)

lemma stable_seen: "stable u (seen l)"
  unfolding seen_def by (rule stable_hist)

lemma stable_known: "stable u (\<lambda>s. i \<in> cs_known s)"
  by (auto simp: stable_def dest: othersD)

lemma stable_knowns: "stable u (\<lambda>s. I \<subseteq> cs_known s)"
  unfolding stable_def using othersD(2) by blast

lemma stable_imp: "(A \<Longrightarrow> stable u P) \<Longrightarrow> stable u (\<lambda>s. A \<longrightarrow> P s)"
  by (auto simp: stable_def)

lemma stable_gone: "stable u (gone I)"
  unfolding stable_def gone_def using othersD(2,3) by blast

lemma stable_unreleased: "stable u (\<lambda>s. x \<notin> cs_released s)"
  by (auto simp: stable_def dest: othersD)

lemma stable_follows: "stable u (follows l)"
  unfolding stable_def
proof (intro allI impI)
  fix s s'
  assume i: "cluster_inv u s" and f: "follows l s" and o: "others u s s'"
  obtain l' where l': "cs_lease s = Some l'" "bl_UID l' = bl_UID l" "FinalizerName \<in> set (bl_Finalizers l')"
    "bs_Target (bl_Spec l') = bs_Target (bl_Spec l)" "wl_step (workload l) (workload l')"
    using f by (auto simp: follows_def)
  then obtain l'' where "cs_lease s' = Some l''" "bl_UID l'' = bl_UID l'" "FinalizerName \<in> set (bl_Finalizers l'')"
    "bs_Target (bl_Spec l'') = bs_Target (bl_Spec l')" "wl_step (workload l') (workload l'')"
    using lease_step_guarded [of u l' "cs_lease s'"] othersD(12) [OF o] by auto
  then show "follows l s'"
    using l' wl_step_trans [of "workload l" "workload l'" "workload l''"] by (simp add: follows_def)
qed

lemma stable_based: "stable u (based l)"
  unfolding stable_def based_def using othersD(9) by blast

lemma stable_ready: "stable u (ready l)"
  using stable_follows [of u l] stable_based [of u l] unfolding stable_def ready_def by blast

lemma stable_drained: "stable u (drained u)"
  unfolding stable_def drained_def
proof (intro allI impI)
  fix s s' w'
  assume i: "cluster_inv u s" and d: "\<forall>w. tracked u s = Some w \<longrightarrow> busy w \<longrightarrow> dry s w" and o: "others u s s'"
    and w': "tracked u s' = Some w'" "busy w'"
  obtain w where w: "tracked u s = Some w" "busy w"
    using others_tracked_idle [OF o] w' by (auto simp: idle_def)
  have "w' = w"
    using others_tracked [OF o w] others_unguarded [OF o _ w'] w' w d by (cases "guarded (cs_lease s)") (auto simp: dry_def)
  then show "dry s' w'"
    using d w others_dry [OF o _ tracked_known [OF i w(1)]] by blast
qed

lemmas stable_facts = stable_knowns stable_imp stable_hist stable_seen stable_known stable_gone stable_unreleased stable_follows stable_drained stable_based stable_ready
  stable_conj stable_const

lemma activeAt_workload: "activeAt l now \<Longrightarrow> \<exists>w. workload l = Some w \<and> ws_Phase w = PhaseActive"
  by (auto simp: activeAt_def split: option.splits)

section \<open>The contract\<close>

locale managed_cluster =
  fixes K :: "'w kube" and LC :: "'w LeaseClient" and snap :: "'w \<Rightarrow> csnap" and ns nm u :: string
  assumes now_harmless [harmless_intro]: "harmless snap u (kc_Now K)"
    and get_lease_harmless [harmless_intro]: "harmless snap u (kc_GetLease K a b)"
    and list_leases_harmless [harmless_intro]: "harmless snap u (kc_ListLeases K a)"
    and get_obj_harmless [harmless_intro]: "harmless snap u (kc_GetObj K gv kind a b)"
    and patch_harmless [harmless_intro]: "harmless snap u (kc_Patch K ob ob' owner)"
    and get_pod_harmless [harmless_intro]: "harmless snap u (kc_GetPod K a b)"
    and list_pods_harmless [harmless_intro]: "harmless snap u (kc_ListPods K a sel)"
    and update_pod_harmless [harmless_intro]: "harmless snap u (kc_UpdatePod K p)"
    and delete_pod_harmless [harmless_intro]: "harmless snap u (kc_DeletePod K p uid)"
    and get_job_harmless [harmless_intro]: "harmless snap u (kc_GetJob K a b)"
    and list_jobs_harmless [harmless_intro]: "harmless snap u (kc_ListJobs K a sel)"
    and update_job_harmless [harmless_intro]: "harmless snap u (kc_UpdateJob K j)"
    and delete_job_harmless [harmless_intro]: "harmless snap u (kc_DeleteJob K j uid)"
    and get_lease: "cluster_inv u (snap w) \<Longrightarrow> run_state (kc_GetLease K a b) w = (Inr l, w') \<Longrightarrow>
      bl_Namespace l = a \<and> bl_Name l = b \<and> ((a, b) = (ns, nm) \<longrightarrow> cs_lease (snap w') = Some l)"
    and get_pod: "cluster_inv u (snap w) \<Longrightarrow> run_state (kc_GetPod K ns b) w = (Inr p, w') \<Longrightarrow>
      mp_UID p \<in> cs_known (snap w')"
    and get_pod_namespace: "cluster_inv u (snap w) \<Longrightarrow> run_state (kc_GetPod K a b) w = (Inr p, w') \<Longrightarrow> mp_Namespace p = a"
    and list_pods: "cluster_inv u (snap w) \<Longrightarrow> run_state (kc_ListPods K ns sel) w = (Inr ps, w') \<Longrightarrow>
      mp_UID ` set ps \<subseteq> cs_known (snap w') \<and>
      (sel = None \<longrightarrow> (\<forall>i \<in> cs_live (snap w'). \<exists>p \<in> set ps. mp_UID p = i \<and> \<not> terminal p \<and> entry (mp_Annotations p) ManagedUID = u))"
    and update_status_other: "cluster_inv u (snap w) \<Longrightarrow> run_state (kc_UpdateLeaseStatus K l) w = (x, w') \<Longrightarrow>
      (bl_Namespace l, bl_Name l) \<noteq> (ns, nm) \<Longrightarrow> others u (snap w) (snap w')"
    and update_status: "cluster_inv u (snap w) \<Longrightarrow> run_state (kc_UpdateLeaseStatus K l) w = (x, w') \<Longrightarrow>
      bl_Namespace l = ns \<Longrightarrow> bl_Name l = nm \<Longrightarrow>
      (case x of Inr l1 \<Rightarrow> wrote_status u (snap w) l l1 (snap w')
               | Inl e \<Rightarrow> others u (snap w) (snap w') \<or> (\<exists>l1. wrote_status u (snap w) l l1 (snap w')))"
    and update_meta: "cluster_inv u (snap w) \<Longrightarrow> run_state (kc_UpdateLease K l) w = (y, w') \<Longrightarrow>
      bl_Namespace l = ns \<Longrightarrow> bl_Name l = nm \<Longrightarrow> others u (snap w) (snap w') \<or> wrote_meta u (snap w) l (snap w')"
    and acquire: "cluster_inv u (snap w) \<Longrightarrow> run_state (lc_Acquire LC budget a name holder ttl) w = (z, w') \<Longrightarrow>
      \<exists>s R. others u (snap w) s \<and> R \<subseteq> cs_released s \<and> snap w' = s\<lparr>cs_released := R\<rparr> \<and>
        (\<forall>res. z = Inr res \<longrightarrow> cr_Acquired res \<longrightarrow> (name, cr_Holder res, cr_FencingToken res) \<notin> R)"
    and release: "cluster_inv u (snap w) \<Longrightarrow> run_state (lc_Release LC budget a name holder token) w = (e, w') \<Longrightarrow>
      \<exists>s R. others u (snap w) s \<and> R \<subseteq> insert (name, holder, token) (cs_released s) \<and> snap w' = s\<lparr>cs_released := R\<rparr>"
begin

section \<open>Passive parts of the operator\<close>

lemma applyFencedAction_harmless [harmless_intro]: "harmless snap u (applyFencedAction K a t action uid fence)"
  unfolding applyFencedAction_def by (intro harmless_intro)

lemma applyActionForUID_harmless [harmless_intro]: "harmless snap u (applyActionForUID K a t action uid)"
  unfolding applyActionForUID_def by (rule applyFencedAction_harmless)

lemma verifyTarget_harmless [harmless_intro]: "harmless snap u (verifyTarget K r l)"
  unfolding verifyTarget_def by (intro harmless_intro)

lemma stopTarget_harmless [harmless_intro]: "harmless snap u (stopTarget K l)"
  unfolding stopTarget_def by (intro harmless_intro)

lemma deleteUID_harmless [harmless_intro]: "harmless snap u (deleteUID_pod K p)" "harmless snap u (deleteUID_job K j)"
  unfolding deleteUID_pod_def deleteUID_job_def by (intro harmless_intro)+

lemma drain_loop_harmless [harmless_intro]: "harmless snap u (drain_loop K l ps fin)"
  by (induction ps arbitrary: fin) (auto intro!: harmless_intro)

lemma suspend_job_harmless [harmless_intro]: "harmless snap u (suspend_job K j)"
  unfolding suspend_job_def by (intro harmless_intro)

lemma drain_jobs_loop_harmless [harmless_intro]: "harmless snap u (drain_jobs_loop K js)"
  by (induction js) (auto intro!: harmless_intro)

lemma drainJobs_harmless [harmless_intro]: "harmless snap u (drainJobs K l)"
  unfolding drainJobs_def by (intro harmless_intro)

lemma root_binding_harmless [harmless_intro]: "harmless snap u (root_binding K ob)"
  unfolding root_binding_def by (intro harmless_intro)

lemma resolveBinding_harmless [harmless_intro]: "harmless snap u (resolveBinding K ob depth)"
proof (induction "5 - depth" arbitrary: ob depth rule: less_induct)
  case less
  then show ?case
    by (subst resolveBinding.simps) (intro harmless_intro less; simp)
qed

lemma expectedBinding_harmless [harmless_intro]: "harmless snap u (expectedBinding K ob)"
  unfolding expectedBinding_def by (rule resolveBinding_harmless)

lemma remove_gate_harmless [harmless_intro]: "harmless snap u (remove_gate K p)"
  unfolding remove_gate_def by (intro harmless_intro)

lemma time_Until_harmless [harmless_intro]: "harmless snap u (time_Until K d)"
  unfolding time_Until_def by (intro harmless_intro)

lemma must_stop_harmless [harmless_intro]: "harmless snap u (must_stop K r l x)"
  unfolding must_stop_def by (intro harmless_intro)

section \<open>The writes\<close>

lemma status_write:
  assumes "bl_Namespace l = ns" "bl_Name l = nm" and P: "stable u P"
    and F: "stable u F" "\<And>s x. F s \<Longrightarrow> F (put_lease s x)"
    and T: "\<And>s st v. cluster_inv u s \<Longrightarrow> P s \<Longrightarrow> cs_lease s = Some l0 \<Longrightarrow> bt_Workload st = workload l \<Longrightarrow>
      cluster_inv u (put_lease s (l0\<lparr>bl_Status := st, bl_ResourceVersion := v\<rparr>))"
  shows "keeps snap u (\<lambda>s. cs_hist s (bl_ResourceVersion l) = Some l0 \<and> P s \<and> F s) (kc_UpdateLeaseStatus K l)
    (\<lambda>x s. F s \<and> (\<forall>l1. x = Inr l1 \<longrightarrow> seen l1 s \<and> cs_lease s = Some l1 \<and>
       (\<exists>st v. l1 = l0\<lparr>bl_Status := st, bl_ResourceVersion := v\<rparr> \<and> bt_Workload st = workload l)))"
  unfolding keeps_def
proof (rule ensuresI, elim conjE)
  fix w x w'
  assume i: "cluster_inv u (snap w)" and h: "cs_hist (snap w) (bl_ResourceVersion l) = Some l0" and p: "P (snap w)" and f: "F (snap w)"
    and run: "run_state (kc_UpdateLeaseStatus K l) w = (x, w')"
  have wrote: "cluster_inv u (snap w') \<and> F (snap w') \<and> seen l1 (snap w') \<and> cs_lease (snap w') = Some l1 \<and>
      (\<exists>st v. l1 = l0\<lparr>bl_Status := st, bl_ResourceVersion := v\<rparr> \<and> bt_Workload st = workload l)"
    if wr: "wrote_status u (snap w) l l1 (snap w')" for l1
  proof -
    obtain s1 lb st v where s1: "others u (snap w) s1" "cs_lease s1 = Some lb" "bl_ResourceVersion lb = bl_ResourceVersion l"
      "bt_Workload st = workload l" "l1 = lb\<lparr>bl_Status := st, bl_ResourceVersion := v\<rparr>" "snap w' = put_lease s1 l1"
      using wr unfolding wrote_status_def by blast
    have i1: "cluster_inv u s1" using others_inv [OF i s1(1)] .
    have "cs_hist s1 (bl_ResourceVersion l) = Some l0" using othersD(9) [OF s1(1) h] .
    moreover have "cs_hist s1 (bl_ResourceVersion l) = Some lb" using invD(8) [OF i1 s1(2)] s1(3) by simp
    ultimately have "lb = l0" by simp
    moreover have "P s1" "F s1" using P F(1) i p f s1(1) unfolding stable_def by blast+
    ultimately show ?thesis
      using T [OF i1] F(2) [of s1 l1] s1 by (auto simp: seen_def)
  qed
  have "F (snap w')" if "others u (snap w) (snap w')"
    using F(1) i f that unfolding stable_def by blast
  with update_status [OF i run assms(1,2)] wrote others_inv [OF i]
  show "cluster_inv u (snap w') \<and> F (snap w') \<and> (\<forall>l1. x = Inr l1 \<longrightarrow> seen l1 (snap w') \<and> cs_lease (snap w') = Some l1 \<and>
      (\<exists>st v. l1 = l0\<lparr>bl_Status := st, bl_ResourceVersion := v\<rparr> \<and> bt_Workload st = workload l))"
    by (cases x) auto
qed

text \<open>A status write that leaves the workload record alone is always safe.\<close>

lemma update_status_same:
  assumes "bl_Namespace l = ns" "bl_Name l = nm" "workload l = workload l0"
  shows "keeps snap u (\<lambda>s. cs_hist s (bl_ResourceVersion l) = Some l0) (update_status K l) (\<lambda>_ _. True)"
  unfolding update_status_def
proof (rule keeps_bind)
  show "keeps snap u (\<lambda>s. cs_hist s (bl_ResourceVersion l) = Some l0) (kc_UpdateLeaseStatus K l) (\<lambda>_ _. True)"
    by (rule keeps_conseq [OF status_write [OF assms(1,2) stable_True stable_True TrueI, of l0]])
      (use assms(3) in \<open>auto intro!: same_record_inv\<close>)
qed (rule keeps_ret, simp)

lemma update_lease_finalizers:
  assumes "bl_Namespace l = ns" "bl_Name l = nm"
  shows "keeps snap u (\<lambda>s. cs_hist s (bl_ResourceVersion l) = Some l0 \<and> (FinalizerName \<in> set (bl_Finalizers l) \<or> drained u s))
    (kc_UpdateLease K l) (\<lambda>_ _. True)"
  unfolding keeps_def
proof (rule ensuresI, elim conjE)
  fix w x w'
  assume i: "cluster_inv u (snap w)" and d: "FinalizerName \<in> set (bl_Finalizers l) \<or> drained u (snap w)"
    and run: "run_state (kc_UpdateLease K l) w = (x, w')"
  have "cluster_inv u (snap w')" if wr: "wrote_meta u (snap w) l (snap w')"
  proof -
    obtain s1 lb v where s1: "others u (snap w) s1" "cs_lease s1 = Some lb"
      "snap w' = put_lease s1 (lb\<lparr>bl_Finalizers := bl_Finalizers l, bl_ResourceVersion := v\<rparr>) \<or>
       bl_Finalizers l = [] \<and> snap w' = s1\<lparr>cs_lease := None\<rparr>"
      using wr unfolding wrote_meta_def by blast
    have i1: "cluster_inv u s1" using others_inv [OF i s1(1)] .
    have d1: "FinalizerName \<in> set (bl_Finalizers l) \<or> drained u s1"
      using d stable_drained i s1(1) unfolding stable_def by blast
    from s1(3) show ?thesis
      using meta_inv [OF i1 s1(2) d1] no_lease_inv [OF i1] d1 by auto
  qed
  then show "cluster_inv u (snap w') \<and> True"
    using update_meta [OF i run assms] others_inv [OF i] by blast
qed

lemma release_keeps:
  assumes P: "stable u P" "\<And>s R. P (s\<lparr>cs_released := R\<rparr>) = P s"
  shows "keeps snap u (\<lambda>s. drained u s \<and> P s) (lc_Release LC budget a name holder token) (\<lambda>_ s. drained u s \<and> P s)"
  unfolding keeps_def
proof (rule ensuresI, elim conjE)
  fix w x w'
  assume i: "cluster_inv u (snap w)" and d: "drained u (snap w)" and p: "P (snap w)"
    and run: "run_state (lc_Release LC budget a name holder token) w = (x, w')"
  obtain s R where s: "others u (snap w) s" "snap w' = s\<lparr>cs_released := R\<rparr>" using release [OF i run] by blast
  have "cluster_inv u s" "drained u s" "P s"
    using others_inv [OF i s(1)] stable_drained i d p s(1) P(1) unfolding stable_def by blast+
  then show "cluster_inv u (snap w') \<and> drained u (snap w') \<and> P (snap w')"
    using drained_released_inv P(2) s(2) by (simp add: drained_sel)
qed

lemma acquire_keeps:
  assumes P: "stable u P" "\<And>s R. P (s\<lparr>cs_released := R\<rparr>) = P s"
  shows "keeps snap u P (lc_Acquire LC budget a name holder ttl)
    (\<lambda>z s. P s \<and> (\<forall>res. z = Inr res \<longrightarrow> cr_Acquired res \<longrightarrow> (name, cr_Holder res, cr_FencingToken res) \<notin> cs_released s))"
  unfolding keeps_def
proof (rule ensuresI, elim conjE)
  fix w z w'
  assume i: "cluster_inv u (snap w)" and p: "P (snap w)"
    and run: "run_state (lc_Acquire LC budget a name holder ttl) w = (z, w')"
  obtain s R where s: "others u (snap w) s" "R \<subseteq> cs_released s" "snap w' = s\<lparr>cs_released := R\<rparr>"
    "\<forall>res. z = Inr res \<longrightarrow> cr_Acquired res \<longrightarrow> (name, cr_Holder res, cr_FencingToken res) \<notin> R"
    using acquire [OF i run] by blast
  have "cluster_inv u s" "P s"
    using others_inv [OF i s(1)] i p s(1) P(1) unfolding stable_def by blast+
  then show "cluster_inv u (snap w') \<and> P (snap w') \<and>
      (\<forall>res. z = Inr res \<longrightarrow> cr_Acquired res \<longrightarrow> (name, cr_Holder res, cr_FencingToken res) \<notin> cs_released (snap w'))"
    using fewer_released_inv [OF _ s(2)] s(3,4) P(2) by simp
qed

section \<open>Permits\<close>

lemma register_pod_keeps:
  assumes "bl_Namespace l = ns" "bl_Name l = nm" "workload l = Some w" "ws_Phase w = PhaseActive" "mp_UID p \<in> I"
  shows "keeps snap u (\<lambda>s. seen l s \<and> I \<subseteq> cs_known s) (register_pod K l p)
    (\<lambda>x s. I \<subseteq> cs_known s \<and> (fst x = None \<longrightarrow> seen (snd x) s \<and> bl_Namespace (snd x) = ns \<and> bl_Name (snd x) = nm))"
proof -
  let ?q = "\<lparr>pp_Name = mp_Name p, pp_UID = mp_UID p\<rparr>"
  let ?l = "map_workload (\<lambda>w. w\<lparr>ws_Pods := ws_Pods w @ [?q]\<rparr>) l"
  have l: "bl_Namespace ?l = ns" "bl_Name ?l = nm" "bl_ResourceVersion ?l = bl_ResourceVersion l"
    "workload ?l = Some (w\<lparr>ws_Pods := ws_Pods w @ [?q]\<rparr>)"
    using assms(1-3) by (simp_all add: map_workload_def)
  have "keeps snap u (\<lambda>s. cs_hist s (bl_ResourceVersion ?l) = Some l \<and> I \<subseteq> cs_known s \<and> I \<subseteq> cs_known s) (kc_UpdateLeaseStatus K ?l)
    (\<lambda>x s. I \<subseteq> cs_known s \<and> (\<forall>l1. x = Inr l1 \<longrightarrow> seen l1 s \<and> cs_lease s = Some l1 \<and>
       (\<exists>st v. l1 = l\<lparr>bl_Status := st, bl_ResourceVersion := v\<rparr> \<and> bt_Workload st = workload ?l)))"
    by (rule status_write [OF l(1,2) stable_knowns stable_knowns]) (use assms(3-5) l(4) in \<open>auto intro!: register_inv\<close>)
  note wr = keeps_conseq [OF this, where P = "\<lambda>s. seen l s \<and> I \<subseteq> cs_known s"]
  show ?thesis
    unfolding register_pod_def Let_def
    by (intro keeps_if keeps_ret keeps_bind [OF wr])
      (use assms(1,2) l(3) in \<open>auto simp: seen_def split: sum.splits\<close>)
qed

lemma permit_bound_keeps:
  assumes "bl_Namespace l = ns" "bl_Name l = nm" "workload l = Some w" "ws_Phase w = PhaseActive" "mp_UID p \<in> I"
  shows "keeps snap u (\<lambda>s. seen l s \<and> I \<subseteq> cs_known s) (permit_bound K l p)
    (\<lambda>x s. I \<subseteq> cs_known s \<and> (fst x = None \<longrightarrow> seen (snd x) s \<and> bl_Namespace (snd x) = ns \<and> bl_Name (snd x) = nm))"
  unfolding permit_bound_def
proof (rule keeps_bind)
  show "keeps snap u (\<lambda>s. seen l s \<and> I \<subseteq> cs_known s) (if registered l (mp_Name p) (mp_UID p) then ret (None, l) else register_pod K l p)
    (\<lambda>x s. I \<subseteq> cs_known s \<and> (fst x = None \<longrightarrow> seen (snd x) s \<and> bl_Namespace (snd x) = ns \<and> bl_Name (snd x) = nm))"
    using register_pod_keeps [OF assms] assms(1,2) by (intro keeps_if keeps_ret) auto
qed (intro keeps_prod keeps_option keeps_ret keeps_bind_harmless harmless_intro stable_facts; auto)

lemma permitPod_keeps:
  assumes "bl_Namespace l = ns" "bl_Name l = nm" "mp_UID p \<in> I"
  shows "keeps snap u (\<lambda>s. seen l s \<and> I \<subseteq> cs_known s) (permitPod K l p)
    (\<lambda>x s. I \<subseteq> cs_known s \<and> (fst x = None \<longrightarrow> seen (snd x) s \<and> bl_Namespace (snd x) = ns \<and> bl_Name (snd x) = nm))"
  unfolding permitPod_def
  by (intro keeps_bind_harmless keeps_if keeps_sum keeps_ret harmless_intro stable_facts)
    (use assms permit_bound_keeps activeAt_workload in \<open>auto dest!: activeAt_workload\<close>)

lemma permit_loop_keeps:
  assumes "bl_Namespace l = ns" "bl_Name l = nm" "mp_UID ` set ps \<subseteq> I"
  shows "keeps snap u (\<lambda>s. seen l s \<and> I \<subseteq> cs_known s) (permit_loop K l ps) (\<lambda>_ _. True)"
  using assms
proof (induction ps arbitrary: l)
  case Nil
  then show ?case by (auto intro: keeps_ret)
next
  case (Cons p ps)
  have one: "keeps snap u (\<lambda>s. seen l s \<and> I \<subseteq> cs_known s) (permitPod K l p)
    (\<lambda>x s. I \<subseteq> cs_known s \<and> (fst x = None \<longrightarrow> seen (snd x) s \<and> bl_Namespace (snd x) = ns \<and> bl_Name (snd x) = nm))"
    using Cons.prems by (intro permitPod_keeps) auto
  have rest: "keeps snap u (\<lambda>s. I \<subseteq> cs_known s \<and> (seen l' s \<and> bl_Namespace l' = ns \<and> bl_Name l' = nm)) (permit_loop K l' ps) (\<lambda>_ _. True)" for l'
    by (rule keeps_assume [of _ _ "bl_Namespace l' = ns \<and> bl_Name l' = nm"])
      (use Cons.prems Cons.IH [of l'] in \<open>auto elim!: keeps_conseq\<close>)
  show ?case
    by (auto intro!: keeps_bind [OF one] keeps_prod keeps_option keeps_ret rest)
qed

lemma permitPods_keeps:
  assumes "bl_Namespace l = ns" "bl_Name l = nm"
  shows "keeps snap u (seen l) (permitPods K l) (\<lambda>_ _. True)"
proof -
  have "keeps snap u (seen l) (kc_ListPods K ns (Some (ManagedUID, bl_UID l)))
      (\<lambda>x s. seen l s \<and> (\<forall>ps. x = Inr ps \<longrightarrow> mp_UID ` set ps \<subseteq> cs_known s))"
    unfolding keeps_def using keeps_harmless [OF list_pods_harmless stable_seen, of l ns]
    by (intro ensuresI) (use list_pods in \<open>fastforce simp: keeps_def dest: ensuresD\<close>)
  then show ?thesis
    unfolding permitPods_def assms
    by (rule keeps_bind)
      (auto intro!: keeps_sum keeps_ret keeps_conseq [OF permit_loop_keeps [OF assms, where I = "mp_UID ` set _"]])
qed

section \<open>Stopping\<close>


lemma follows_stopping:
  assumes "follows l s" "workload l = Some w" "ws_Phase w = PhaseStopping"
  shows "tracked u s = acc u l"
  using assms by (auto simp: follows_def wl_step_def tracked_def acc_def)

lemma mark_stopping_keeps:
  assumes c: "copy_of l0 l" and names: "bl_Namespace l0 = ns" "bl_Name l0 = nm"
    and fin: "FinalizerName \<in> set (bl_Finalizers l0)" and t: "bs_Target (bl_Spec l0) \<noteq> None"
  shows "keeps snap u (\<lambda>s. seen l0 s \<and> follows l0 s) (mark_stopping K l)
    (\<lambda>x s. \<forall>l'. x = Inr l' \<longrightarrow> ready l' s \<and> workload_phase l' = PhaseStopping \<and> bl_Namespace l' = ns \<and> bl_Name l' = nm \<and>
       bs_Target (bl_Spec l') \<noteq> None)"
proof (cases "workload_phase (with_workload l) = PhaseStopping")
  case True
  then obtain w where w: "workload l = Some w" "ws_Phase w = PhaseStopping" "with_workload l = l"
    by (cases "workload l") (auto simp: with_workload_def workload_phase_def)
  then have "ready l s" if "seen l0 s" "follows l0 s" for s
    using that c by (auto simp: ready_def based_def seen_def follows_def copy_of_def)
  moreover have "mark_stopping K l = ret (Inr l)" using True w(3) by (simp add: mark_stopping_def)
  ultimately show ?thesis
    using True w(3) c names t by (auto intro!: keeps_ret simp: copy_of_def)
next
  case False
  let ?l = "close_admission K (with_workload l)"
  obtain w' where w': "workload ?l = Some w'" "ws_Phase w' = PhaseStopping"
    "case workload l0 of None \<Rightarrow> ws_Pods w' = [] | Some w \<Rightarrow> w' = w\<lparr>ws_Phase := PhaseStopping\<rparr>"
    using c by (cases "workload l0") (auto simp: close_admission_def with_workload_def copy_of_def)
  have l: "bl_Namespace ?l = ns" "bl_Name ?l = nm" "bl_ResourceVersion ?l = bl_ResourceVersion l0"
    using c names by (simp_all add: close_admission_def copy_of_def)
  have "keeps snap u (\<lambda>s. cs_hist s (bl_ResourceVersion ?l) = Some l0 \<and> True \<and> True) (kc_UpdateLeaseStatus K ?l)
      (\<lambda>x s. True \<and> (\<forall>l1. x = Inr l1 \<longrightarrow> seen l1 s \<and> cs_lease s = Some l1 \<and>
        (\<exists>st v. l1 = l0\<lparr>bl_Status := st, bl_ResourceVersion := v\<rparr> \<and> bt_Workload st = workload ?l)))"
    by (rule status_write [OF l(1,2) stable_const stable_const])
      (use fin t w' in \<open>auto intro!: stopping_inv [of u _ l0 _ w']\<close>)
  then show ?thesis
    unfolding mark_stopping_def Let_def using False
    by (simp, elim keeps_conseq)
      (use l names w' t fin in \<open>auto simp: seen_def ready_def based_def follows_def workload_phase_def\<close>)
qed

text \<open>The pods that the loop has passed over are terminal when it reports that it is finished.\<close>

lemma drain_loop_result:
  "ensures (\<lambda>_. True) (drain_loop K l ps fin)
    (\<lambda>x _. x = Inr True \<longrightarrow> fin \<and> (\<forall>p \<in> set ps. entry (mp_Annotations p) ManagedUID = bl_UID l \<longrightarrow> terminal p))"
proof (induction ps arbitrary: fin)
  case Nil
  then show ?case by (auto intro: ensures_return)
next
  case (Cons p ps)
  have rest: "ensures (\<lambda>_. True) (drain_loop K l ps fin') (\<lambda>x _. x = Inr True \<longrightarrow> Q)"
    if "fin' \<and> (\<forall>p \<in> set ps. entry (mp_Annotations p) ManagedUID = bl_UID l \<longrightarrow> terminal p) \<Longrightarrow> Q" for fin' Q
    by (rule ensures_conseq [OF Cons.IH [of fin']]) (use that in auto)
  have any: "ensures (\<lambda>_. True) m (\<lambda>_ _. True)" for m :: "('w, goerr option) state"
    by (simp add: ensures_def split: prod.splits)
  show ?case
    unfolding drain_loop.simps by (intro ensures_if ensures_bind [OF any] ensures_option ensures_return rest) auto
qed

lemma keeps_result:
  assumes "harmless snap u m" "stable u P" "ensures (\<lambda>_. True) m (\<lambda>x _. R x)"
  shows "keeps snap u P m (\<lambda>x s. P s \<and> R x)"
  unfolding keeps_def
proof (rule ensuresI)
  fix w a w'
  assume w: "cluster_inv u (snap w) \<and> P (snap w)" and run: "run_state m w = (a, w')"
  show "cluster_inv u (snap w') \<and> P (snap w') \<and> R a"
    using ensuresD [OF keeps_harmless [OF assms(1,2), unfolded keeps_def] w run] ensuresD [OF assms(3) TrueI run] by simp
qed

lemma drainPods_keeps:
  assumes ns: "bl_Namespace l = ns" and w: "workload l = Some w" "ws_Phase w = PhaseStopping"
  shows "keeps snap u (ready l) (drainPods K l) (\<lambda>x s. ready l s \<and> (x = Inr True \<longrightarrow> drained u s))"
proof -
  let ?C = "\<lambda>ps. \<forall>p \<in> set ps. entry (mp_Annotations p) ManagedUID = bl_UID l \<longrightarrow> terminal p"
  have listed: "keeps snap u (ready l) (kc_ListPods K ns None) (\<lambda>_. ready l)"
    by (rule keeps_harmless [OF list_pods_harmless stable_ready])
  let ?gone = "\<lambda>ps s. ?C ps \<longrightarrow> bl_UID l = u \<longrightarrow> gone (snd ` pods_of w) s"
  have first: "keeps snap u (ready l) (kc_ListPods K ns None) (\<lambda>x s. ready l s \<and> (\<forall>ps. x = Inr ps \<longrightarrow> ?gone ps s))"
    unfolding keeps_def
  proof (rule ensuresI, elim conjE)
    fix x y x'
    assume i: "cluster_inv u (snap x)" and r: "ready l (snap x)" and run: "run_state (kc_ListPods K ns None) x = (y, x')"
    have "cluster_inv u (snap x') \<and> ready l (snap x')"
      using listed i r run by (auto simp: keeps_def ensures_def)
    moreover have "?gone ps (snap x')" if y: "y = Inr ps" for ps
    proof (intro impI)
      assume C: "?C ps" and u: "bl_UID l = u"
      then have "cs_live (snap x') = {}" using list_pods [OF i, of None ps x'] run y by fastforce
      moreover have "tracked u (snap x') = Some w"
        using follows_stopping [OF _ w] calculation u w(1) \<open>cluster_inv u (snap x') \<and> ready l (snap x')\<close>
        by (auto simp: ready_def acc_def)
      ultimately show "gone (snd ` pods_of w) (snap x')"
        using tracked_known [of u "snap x'" w] \<open>cluster_inv u (snap x') \<and> ready l (snap x')\<close> by (auto simp: gone_def)
    qed
    ultimately show "cluster_inv u (snap x') \<and> ready l (snap x') \<and> (\<forall>ps. y = Inr ps \<longrightarrow> ?gone ps (snap x'))" by blast
  qed
  have second: "keeps snap u (\<lambda>s. ready l s \<and> ?gone ps s) (drain_loop K l ps True)
      (\<lambda>x s. ready l s \<and> (x = Inr True \<longrightarrow> drained u s))" for ps
  proof (rule keeps_conseq [OF keeps_result [OF drain_loop_harmless _ drain_loop_result]])
    show "stable u (\<lambda>s. ready l s \<and> ?gone ps s)" by (intro stable_facts)
    show "ready l s \<and> (x = Inr True \<longrightarrow> drained u s)"
      if "(ready l s \<and> ?gone ps s) \<and> (x = Inr True \<longrightarrow> True \<and> ?C ps)" for x s
      using that follows_stopping [of l s w] w by (auto simp: ready_def drained_def dry_def gone_def acc_def split: if_splits)
  qed
  show ?thesis
    unfolding drainPods_def ns
  proof (rule keeps_bind [OF first], rule keeps_sum)
    fix x :: "mpod list outcome" and ps
    assume "x = Inr ps"
    then show "keeps snap u (\<lambda>s. ready l s \<and> (\<forall>ps. x = Inr ps \<longrightarrow> ?gone ps s)) (drain_loop K l ps True)
        (\<lambda>x s. ready l s \<and> (x = Inr True \<longrightarrow> drained u s))"
      by (intro keeps_conseq [OF second]) simp_all
  qed (auto intro: keeps_ret)
qed

lemma drain_keeps:
  assumes "bl_Namespace l = ns" "workload l = Some w" "ws_Phase w = PhaseStopping"
  shows "keeps snap u (ready l) (drain K l) (\<lambda>x s. ready l s \<and> (x = Inr True \<longrightarrow> drained u s))"
  unfolding drain_def
  by (intro keeps_bind_harmless keeps_option keeps_sum keeps_ret keeps_bind [OF drainPods_keeps [OF assms]] harmless_intro stable_facts)
    (auto split: sum.splits)

lemma cleared_sel [simp]:
  "bl_ResourceVersion (cleared_lease K l) = bl_ResourceVersion l" "bl_UID (cleared_lease K l) = bl_UID l"
  "bl_Namespace (cleared_lease K l) = bl_Namespace l" "bl_Name (cleared_lease K l) = bl_Name l"
  "workload (cleared_lease K l) = map_option (\<lambda>w. w\<lparr>ws_Phase := [], ws_Pods := [], ws_Token := 0, ws_Holder := [],
     ws_LeaseName := [], ws_Deadline := None\<rparr>) (workload l)"
  by (simp_all add: cleared_lease_def Let_def)

lemma clear_keeps:
  assumes "bl_Namespace l = ns" "bl_Name l = nm" and tw: "bl_UID l = u \<Longrightarrow> workload l \<noteq> None \<Longrightarrow> bs_Target (bl_Spec l) \<noteq> None"
  shows "keeps snap u (\<lambda>s. drained u s \<and> based l s) (update_status K (cleared_lease K l)) (\<lambda>_ _. True)"
proof -
  let ?l = "cleared_lease K l"
  have "keeps snap u (\<lambda>s. drained u s \<and> cs_hist s (bl_ResourceVersion l) = Some lb \<and> bl_UID lb = bl_UID l \<and>
      bs_Target (bl_Spec lb) = bs_Target (bl_Spec l)) (kc_UpdateLeaseStatus K ?l) (\<lambda>_ _. True)" for lb
  proof (rule keeps_assume [of _ _ "bl_UID lb = bl_UID l \<and> bs_Target (bl_Spec lb) = bs_Target (bl_Spec l)"])
    assume lb: "bl_UID lb = bl_UID l \<and> bs_Target (bl_Spec lb) = bs_Target (bl_Spec l)"
    have "cluster_inv u (put_lease s (lb\<lparr>bl_Status := st, bl_ResourceVersion := v\<rparr>))"
      if "cluster_inv u s" "drained u s" "cs_lease s = Some lb" "bt_Workload st = workload ?l" for s st v
      by (rule idle_record_inv [OF that(1,3,2,4)]) (use lb tw in \<open>auto simp: idle_def busy_def\<close>)
    then show "keeps snap u (\<lambda>s. drained u s \<and> cs_hist s (bl_ResourceVersion l) = Some lb \<and> bl_UID lb = bl_UID l \<and>
      bs_Target (bl_Spec lb) = bs_Target (bl_Spec l)) (kc_UpdateLeaseStatus K ?l) (\<lambda>_ _. True)"
      using assms(1,2) by (intro keeps_conseq [OF status_write [of ?l "drained u" "\<lambda>_. True" lb]] stable_facts) simp_all
  qed simp
  note ex = keeps_ex [OF this]
  have "keeps snap u (\<lambda>s. drained u s \<and> based l s) (kc_UpdateLeaseStatus K ?l) (\<lambda>_ _. True)"
    by (rule keeps_conseq [OF ex]) (auto simp: based_def)
  then show ?thesis
    unfolding update_status_def by (rule keeps_bind) (simp add: keeps_ret)
qed

lemma finish_stop_keeps:
  assumes "bl_Namespace l = ns" "bl_Name l = nm" "bl_UID l = u \<Longrightarrow> workload l \<noteq> None \<Longrightarrow> bs_Target (bl_Spec l) \<noteq> None"
  shows "keeps snap u (\<lambda>s. drained u s \<and> based l s) (finish_stop K l) (\<lambda>_ _. True)"
proof -
  let ?l = "l\<lparr>bl_Finalizers := filter (\<lambda>f. f \<noteq> FinalizerName) (bl_Finalizers l)\<rparr>"
  have "keeps snap u (\<lambda>s. drained u s \<and> based l s) (kc_UpdateLease K ?l) (\<lambda>_ _. True)"
    using assms(1,2) by (intro keeps_conseq [OF keeps_ex [OF update_lease_finalizers [of ?l]]]) (auto simp: based_def)
  note meta = keeps_bind [OF this]
  show ?thesis
    unfolding finish_stop_def
    by (intro keeps_if meta keeps_bind [OF clear_keeps [OF assms]] keeps_ret) simp_all
qed

lemma release_and_finish_keeps:
  assumes "bl_Namespace l = ns" "bl_Name l = nm" "bl_UID l = u \<Longrightarrow> workload l \<noteq> None \<Longrightarrow> bs_Target (bl_Spec l) \<noteq> None"
  shows "keeps snap u (\<lambda>s. drained u s \<and> based l s) (release_and_finish K LC l) (\<lambda>_ _. True)"
proof -
  have rel: "keeps snap u (\<lambda>s. drained u s \<and> based l s) (lc_Release LC budget a name holder token) (\<lambda>_ s. drained u s \<and> based l s)"
    for budget a name holder token
    by (rule release_keeps [OF stable_based]) (simp add: based_def)
  have first: "keeps snap u (\<lambda>s. drained u s \<and> based l s)
      (if holder \<noteq> [] \<and> 0 < sint token then lc_Release LC budget a name holder token else ret None)
      (\<lambda>_ s. drained u s \<and> based l s)" for budget a name holder token
    by (intro keeps_if rel keeps_ret)
  show ?thesis
    unfolding release_and_finish_def
    by (intro keeps_prod keeps_bind [OF first] keeps_option keeps_if keeps_ret finish_stop_keeps assms) simp_all
qed

lemma stopAndRelease_keeps:
  assumes c: "copy_of l0 l" and names: "bl_Namespace l0 = ns" "bl_Name l0 = nm" and fin: "FinalizerName \<in> set (bl_Finalizers l0)"
  shows "keeps snap u (\<lambda>s. seen l0 s \<and> follows l0 s) (stopAndRelease K LC l) (\<lambda>_ _. True)"
proof (cases "bs_Target (bl_Spec l) = None")
  case True
  have l: "bl_Namespace l = ns" "bl_Name l = nm" "bs_Target (bl_Spec l0) = None" "bl_UID l = bl_UID l0" "workload l = workload l0"
    using c names True by (simp_all add: copy_of_def)
  have none: "bl_UID l0 = u \<Longrightarrow> workload l0 = None" if "cluster_inv u s" "seen l0 s" for s
    using invD(7) [OF that(1), of "bl_ResourceVersion l0" l0] that(2) l(3)
    by (cases "workload l0") (auto simp: seen_def lease_fits_def acc_def)
  have dr: "drained u s" if i: "cluster_inv u s" and f: "follows l0 s" for s
  proof -
    obtain l' where l': "cs_lease s = Some l'" "bs_Target (bl_Spec l') = None" using f l(3) by (auto simp: follows_def)
    then show ?thesis using invD(7) [OF i invD(8) [OF i l'(1)]] by (auto simp: drained_def tracked_def lease_fits_def)
  qed
  show ?thesis
  proof (rule keeps_assume [of _ _ "bl_UID l0 = u \<longrightarrow> workload l0 = None"])
    assume "bl_UID l0 = u \<longrightarrow> workload l0 = None"
    then have "keeps snap u (\<lambda>s. drained u s \<and> based l s) (release_and_finish K LC l) (\<lambda>_ _. True)"
      using l by (intro release_and_finish_keeps) auto
    then show "keeps snap u (\<lambda>s. seen l0 s \<and> follows l0 s) (stopAndRelease K LC l) (\<lambda>_ _. True)"
      unfolding stopAndRelease_def using True dr c by (auto elim!: keeps_conseq simp: seen_def based_def copy_of_def)
  qed (use none in blast)
next
  case False
  then have t: "bs_Target (bl_Spec l0) \<noteq> None" using c by (simp add: copy_of_def)
  have stop: "keeps snap u (\<lambda>s. ready l' s \<and> workload_phase l' = PhaseStopping \<and> bl_Namespace l' = ns \<and> bl_Name l' = nm \<and>
       bs_Target (bl_Spec l') \<noteq> None)
     (State_Monad.bind (drain K l') (\<lambda>d. case d of Inl e \<Rightarrow> ret (0, Some e)
        | Inr fin \<Rightarrow> if fin then release_and_finish K LC l' else ret (second, None))) (\<lambda>_ _. True)" for l'
  proof (rule keeps_assume [of _ _ "workload_phase l' = PhaseStopping \<and> bl_Namespace l' = ns \<and> bl_Name l' = nm \<and> bs_Target (bl_Spec l') \<noteq> None"])
    assume l': "workload_phase l' = PhaseStopping \<and> bl_Namespace l' = ns \<and> bl_Name l' = nm \<and> bs_Target (bl_Spec l') \<noteq> None"
    then obtain w where w: "workload l' = Some w" "ws_Phase w = PhaseStopping"
      by (cases "workload l'") (auto simp: workload_phase_def)
    have "keeps snap u (\<lambda>s. drained u s \<and> based l' s) (release_and_finish K LC l') (\<lambda>_ _. True)"
      using l' by (intro release_and_finish_keeps) auto
    then have "keeps snap u (ready l')
       (State_Monad.bind (drain K l') (\<lambda>d. case d of Inl e \<Rightarrow> ret (0, Some e)
          | Inr fin \<Rightarrow> if fin then release_and_finish K LC l' else ret (second, None))) (\<lambda>_ _. True)"
      using l' w by (intro keeps_bind [OF drain_keeps] keeps_sum keeps_if keeps_ret) (auto elim!: keeps_conseq simp: ready_def)
    then show "keeps snap u (\<lambda>s. ready l' s \<and> workload_phase l' = PhaseStopping \<and> bl_Namespace l' = ns \<and> bl_Name l' = nm \<and>
         bs_Target (bl_Spec l') \<noteq> None)
       (State_Monad.bind (drain K l') (\<lambda>d. case d of Inl e \<Rightarrow> ret (0, Some e)
          | Inr fin \<Rightarrow> if fin then release_and_finish K LC l' else ret (second, None))) (\<lambda>_ _. True)"
      by (rule keeps_conseq) simp_all
  qed simp
  show ?thesis
    unfolding stopAndRelease_def using False
    by (auto intro!: keeps_bind [OF mark_stopping_keeps [OF c names fin t]] keeps_sum keeps_ret keeps_conseq [OF stop])
qed

end

end
