(* ===== verification/Operator_Rounds.thy ===== *)
theory Operator_Rounds
  imports Operator_Safety
begin

text \<open>
  The rounds of the reconcilers inside the contract: the lease reconciler keeps the invariant of the
  cluster, and everything else that runs beside it (the reconcilers of pods and jobs, the admission
  of workloads) only takes steps that the invariant allows others.
\<close>

section \<open>Granting\<close>

lemma activate_inv:
  assumes i: "cluster_inv u s" and l0: "cs_lease s = Some l0" and fin: "FinalizerName \<in> set (bl_Finalizers l0)"
    and w: "workload l0 = Some w" and st: "bt_Workload st = Some w'"
    and w': "ws_Phase w' = PhaseActive" "ws_Pods w' = filter f (ws_Pods w)" "identity w' \<notin> cs_released s"
    and g: "bl_UID l0 = u \<longrightarrow> gone (pp_UID ` {q \<in> set (ws_Pods w). \<not> f q}) s"
  shows "cluster_inv u (put_lease s (l0\<lparr>bl_Status := st, bl_ResourceVersion := v\<rparr>))"
proof (rule status_inv [OF i l0 st])
  have b: "busy w'" using w'(1) by (simp add: busy_def)
  have fits: "lease_fits u s l0" using invD(7) [OF i invD(8) [OF i l0]] .
  show "snd ` pods_of x \<subseteq> cs_known s \<and> bs_Target (bl_Spec l0) \<noteq> None \<and> (busy x \<or> ws_Pods x = [])"
    if "bl_UID l0 = u" "Some w' = Some x" for x
    using that fits b w w'(2) by (auto simp: lease_fits_def acc_def pods_of_def)
  show "\<exists>x. Some w' = Some x \<and> busy x \<and> p \<in> pods_of x"
    if p: "bl_UID l0 = u" "workload l0 = Some w0" "p \<in> pods_of w0" "snd p \<in> cs_live s" for w0 p
  proof -
    obtain q where q: "q \<in> set (ws_Pods w)" "p = (pp_Name q, pp_UID q)" using p(2,3) w by (auto simp: pods_of_def)
    then have "f q" using g p(1,4) by (auto simp: gone_def)
    then show ?thesis using q b w'(2) by (auto simp: pods_of_def)
  qed
qed (use w'(3) fin in auto)

context managed_cluster
begin

lemma copy_status_keeps:
  assumes "copy_of l0 l" "bl_Namespace l0 = ns" "bl_Name l0 = nm" "workload l' = workload l" "bl_ResourceVersion l' = bl_ResourceVersion l"
    "bl_Namespace l' = bl_Namespace l" "bl_Name l' = bl_Name l"
  shows "keeps snap u (\<lambda>s. seen l0 s \<and> follows l0 s) (update_status K l') (\<lambda>_ _. True)"
  using assms by (intro keeps_conseq [OF update_status_same [of l' l0]]) (auto simp: copy_of_def seen_def)

lemma held_sel [simp]:
  "bl_ResourceVersion (held_status K res now l) = bl_ResourceVersion l" "bl_Namespace (held_status K res now l) = bl_Namespace l"
  "bl_Name (held_status K res now l) = bl_Name l" "workload (held_status K res now l) = workload l"
  by (simp_all add: held_status_def)

lemma persist_keeps:
  assumes l: "bl_Namespace l = ns" "bl_Name l = nm" "bl_ResourceVersion l = bl_ResourceVersion l0"
    "bl_Namespace l0 = ns" "bl_Name l0 = nm" and P: "stable u P"
    and T: "\<And>s st v. cluster_inv u s \<Longrightarrow> P s \<Longrightarrow> cs_lease s = Some l0 \<Longrightarrow> bt_Workload st = workload l \<Longrightarrow>
      cluster_inv u (put_lease s (l0\<lparr>bl_Status := st, bl_ResourceVersion := v\<rparr>))"
  shows "keeps snap u (\<lambda>s. seen l0 s \<and> P s) (persist_and_start K l res deadline) (\<lambda>_ _. True)"
proof -
  have wr: "keeps snap u (\<lambda>s. seen l0 s \<and> P s) (kc_UpdateLeaseStatus K (held_status K res now l))
      (\<lambda>x s. \<forall>l1. x = Inr l1 \<longrightarrow> seen l1 s \<and> bl_Namespace l1 = ns \<and> bl_Name l1 = nm)" for now
    by (rule keeps_conseq [OF status_write [of "held_status K res now l" P "\<lambda>_. True" l0]])
      (use l P T in \<open>auto simp: seen_def\<close>)
  have permits: "keeps snap u (\<lambda>s. seen l1 s \<and> bl_Namespace l1 = ns \<and> bl_Name l1 = nm) (permitPods K l1) (\<lambda>_ _. True)" for l1
    by (rule keeps_assume [of _ _ "bl_Namespace l1 = ns \<and> bl_Name l1 = nm"])
      (auto intro: keeps_conseq [OF permitPods_keeps [of l1]])
  have after: "keeps snap u (\<lambda>s. seen l1 s \<and> bl_Namespace l1 = ns \<and> bl_Name l1 = nm)
     (do {
        e \<leftarrow> (if bs_Target (bl_Spec l1) \<noteq> None then
                do {
                  a \<leftarrow> applyActionForUID K (bl_Namespace l1) (bs_Target (bl_Spec l1)) (bs_AcquireAction (bl_Spec l1)) (workload_target l1);
                  (case a of Some e' \<Rightarrow> ret (Some e') | None \<Rightarrow> do { p \<leftarrow> permitPods K l1; ret (fst p) })
                }
              else ret None);
        (case e of
           Some e' \<Rightarrow> ret (0, Some e')
         | None \<Rightarrow> do { d \<leftarrow> time_Until K deadline; ret (min (lease_heartbeat l) d, None) })
      }) (\<lambda>_ _. True)" for l1
    by (rule keeps_bind [where R = "\<lambda>_ _. True"];
        intro keeps_if keeps_bind_harmless keeps_bind [OF permits] keeps_option keeps_ret harmless_intro stable_facts) simp_all
  show ?thesis
    unfolding persist_and_start_def
    by (intro keeps_bind_harmless keeps_bind [OF wr] keeps_sum keeps_ret keeps_conseq [OF after] harmless_intro stable_facts P) simp_all
qed

text \<open>What is forgotten by the pruning can never run again.\<close>

lemma prune_keeps:
  assumes l: "bl_Namespace l = ns" and w: "workload l0 = Some w" "workload_pods l = ws_Pods w" and P: "stable u P"
  shows "keeps snap u (\<lambda>s. seen l0 s \<and> P s) (pruneCompleted K l)
    (\<lambda>x s. (seen l0 s \<and> P s) \<and> (\<forall>l'. x = Inr l' \<longrightarrow> (\<exists>f. l' = map_workload (\<lambda>w. w\<lparr>ws_Pods := filter f (ws_Pods w)\<rparr>) l \<and>
       (bl_UID l0 = u \<longrightarrow> gone (pp_UID ` {q \<in> set (ws_Pods w). \<not> f q}) s))))"
proof (cases "ws_Pods w = []")
  case True
  have "map_workload (\<lambda>w. w\<lparr>ws_Pods := filter (\<lambda>_. True) (ws_Pods w)\<rparr>) l = l"
    by (cases "workload l") (simp_all add: map_workload_def)
  with True w show ?thesis
    unfolding pruneCompleted_def by (auto intro!: keeps_ret exI [of _ "\<lambda>_. True"] simp: gone_def)
next
  case False
  let ?f = "\<lambda>ps q. list_ex (\<lambda>p. mp_UID p = pp_UID q \<and> \<not> terminal p) ps"
  have listed: "keeps snap u (\<lambda>s. seen l0 s \<and> P s) (kc_ListPods K ns None)
      (\<lambda>x s. (seen l0 s \<and> P s) \<and> (\<forall>ps. x = Inr ps \<longrightarrow> bl_UID l0 = u \<longrightarrow>
         gone (pp_UID ` {q \<in> set (ws_Pods w). \<not> ?f ps q}) s))"
    unfolding keeps_def
  proof (rule ensuresI)
    fix x y x'
    assume pre: "cluster_inv u (snap x) \<and> seen l0 (snap x) \<and> P (snap x)" and run: "run_state (kc_ListPods K ns None) x = (y, x')"
    have post: "cluster_inv u (snap x') \<and> seen l0 (snap x') \<and> P (snap x')"
      by (rule ensuresD [OF keeps_harmless [where P = "\<lambda>s. seen l0 s \<and> P s", OF list_pods_harmless, unfolded keeps_def] pre run]) (intro stable_facts P)
    have "gone (pp_UID ` {q \<in> set (ws_Pods w). \<not> ?f ps q}) (snap x')" if y: "y = Inr ps" and u: "bl_UID l0 = u" for ps
    proof -
      have "lease_fits u (snap x') l0" using post invD(7) [of u "snap x'" "bl_ResourceVersion l0" l0] by (auto simp: seen_def)
      then have "pp_UID ` set (ws_Pods w) \<subseteq> cs_known (snap x')" using u w(1) by (auto simp: lease_fits_def acc_def pods_of_def image_image)
      moreover have "?f ps q" if "pp_UID q \<in> cs_live (snap x')" for q
        using list_pods [of x None ps x'] pre run y that by (auto simp: list_ex_iff)
      ultimately show ?thesis by (auto simp: gone_def)
    qed
    with post show "cluster_inv u (snap x') \<and> (seen l0 (snap x') \<and> P (snap x')) \<and>
        (\<forall>ps. y = Inr ps \<longrightarrow> bl_UID l0 = u \<longrightarrow> gone (pp_UID ` {q \<in> set (ws_Pods w). \<not> ?f ps q}) (snap x'))"
      by blast
  qed
  show ?thesis
    unfolding pruneCompleted_def l using False w
    by (simp, intro keeps_bind [OF listed] keeps_ret) (auto split: sum.splits)
qed

lemma activate_sel [simp]:
  "bl_ResourceVersion (activate res d l) = bl_ResourceVersion l" "bl_Namespace (activate res d l) = bl_Namespace l"
  "bl_Name (activate res d l) = bl_Name l" "bl_Spec (activate res d l) = bl_Spec l"
  "workload (activate res d l) = map_option (\<lambda>w. w\<lparr>ws_Phase := PhaseActive, ws_LeaseName := bs_LeaseName (bl_Spec l),
     ws_Holder := cr_Holder res, ws_Token := cr_FencingToken res, ws_Deadline := timePtr d\<rparr>) (workload l)"
  by (simp_all add: activate_def)

lemma start_keeps:
  assumes c: "copy_of l0 l" and names: "bl_Namespace l0 = ns" "bl_Name l0 = nm" and fin: "FinalizerName \<in> set (bl_Finalizers l0)"
    and w: "workload l0 = Some w"
  shows "keeps snap u (\<lambda>s. seen l0 s \<and> (bs_LeaseName (bl_Spec l0), cr_Holder res, cr_FencingToken res) \<notin> cs_released s)
    (State_Monad.bind (pruneCompleted K (activate res d l)) (\<lambda>p. case p of Inl e \<Rightarrow> ret (0, Some e) | Inr l' \<Rightarrow> persist_and_start K l' res d))
    (\<lambda>_ _. True)"
proof -
  let ?unrel = "\<lambda>s. (bs_LeaseName (bl_Spec l0), cr_Holder res, cr_FencingToken res) \<notin> cs_released s"
  let ?l = "\<lambda>f. map_workload (\<lambda>w. w\<lparr>ws_Pods := filter f (ws_Pods w)\<rparr>) (activate res d l)"
  have l: "bl_Namespace l = ns" "bl_Name l = nm" "bl_ResourceVersion l = bl_ResourceVersion l0" "bl_Spec l = bl_Spec l0" "workload l = Some w"
    using c names w by (simp_all add: copy_of_def)
  have persist: "keeps snap u (\<lambda>s. seen l0 s \<and> ?unrel s \<and> (bl_UID l0 = u \<longrightarrow> gone (pp_UID ` {q \<in> set (ws_Pods w). \<not> f q}) s))
      (persist_and_start K (?l f) res d) (\<lambda>_ _. True)" for f
  proof (rule persist_keeps [OF _ _ _ names])
    show "cluster_inv u (put_lease s (l0\<lparr>bl_Status := st, bl_ResourceVersion := v\<rparr>))"
      if "cluster_inv u s" "?unrel s \<and> (bl_UID l0 = u \<longrightarrow> gone (pp_UID ` {q \<in> set (ws_Pods w). \<not> f q}) s)"
        "cs_lease s = Some l0" "bt_Workload st = workload (?l f)" for s st v
      by (rule activate_inv [OF that(1,3) fin w, of st _ f]) (use that l in \<open>auto simp: identity_def\<close>)
  qed (use l in \<open>auto intro!: stable_facts\<close>)
  show ?thesis
  proof (rule keeps_bind [OF prune_keeps [OF _ w _ stable_unreleased]], goal_cases)
    case (3 x)
    show ?case
    proof (rule keeps_sum)
      fix l'
      assume x: "x = Inr l'"
      have "keeps snap u (\<lambda>s. \<exists>f. l' = ?l f \<and> seen l0 s \<and> ?unrel s \<and>
          (bl_UID l0 = u \<longrightarrow> gone (pp_UID ` {q \<in> set (ws_Pods w). \<not> f q}) s)) (persist_and_start K l' res d) (\<lambda>_ _. True)"
        by (rule keeps_ex, rule keeps_pure) (simp add: persist)
      then show "keeps snap u (\<lambda>s. (seen l0 s \<and> ?unrel s) \<and> (\<forall>l'. x = Inr l' \<longrightarrow> (\<exists>f. l' = ?l f \<and>
          (bl_UID l0 = u \<longrightarrow> gone (pp_UID ` {q \<in> set (ws_Pods w). \<not> f q}) s)))) (persist_and_start K l' res d) (\<lambda>_ _. True)"
        by (rule keeps_conseq) (use x in auto)
    qed (auto intro: keeps_ret)
  qed (use l in \<open>auto simp: workload_pods_def\<close>)
qed

section \<open>One round\<close>

lemma granted_keeps:
  assumes c: "copy_of l0 l" and names: "bl_Namespace l0 = ns" "bl_Name l0 = nm" and fin: "FinalizerName \<in> set (bl_Finalizers l0)"
  shows "keeps snap u (\<lambda>s. (seen l0 s \<and> follows l0 s) \<and> (bs_LeaseName (bl_Spec l0), cr_Holder res, cr_FencingToken res) \<notin> cs_released s)
    (on_granted K LC l res started) (\<lambda>_ _. True)"
proof -
  have l: "bl_Namespace l = ns" "bl_Name l = nm" "bl_ResourceVersion l = bl_ResourceVersion l0" "workload l = workload l0"
    using c names by (simp_all add: copy_of_def)
  have stop: "keeps snap u (\<lambda>s. (seen l0 s \<and> follows l0 s) \<and> X s) (stopAndRelease K LC l) (\<lambda>_ _. True)" for X
    by (rule keeps_conseq [OF stopAndRelease_keeps [OF assms]]) simp_all
  have plain: "keeps snap u (\<lambda>s. (seen l0 s \<and> follows l0 s) \<and> X s) (persist_and_start K l res d) (\<lambda>_ _. True)" for X d
    by (rule keeps_conseq [OF persist_keeps [OF l(1-3) names stable_True]]) (use l(4) in \<open>auto intro: same_record_inv\<close>)
  have start: "keeps snap u (\<lambda>s. (seen l0 s \<and> follows l0 s) \<and> (bs_LeaseName (bl_Spec l0), cr_Holder res, cr_FencingToken res) \<notin> cs_released s)
      (State_Monad.bind (pruneCompleted K (activate res d l)) (\<lambda>p. case p of Inl e \<Rightarrow> ret (0, Some e) | Inr l' \<Rightarrow> persist_and_start K l' res d))
      (\<lambda>_ _. True)" if "workload l = Some w" for w d
    by (rule keeps_conseq [OF start_keeps [OF assms, of w]]) (use that l(4) in auto)
  show ?thesis
    unfolding on_granted_def Let_def
    by (intro keeps_bind_harmless [OF now_harmless] keeps_if keeps_option keeps_ret stop plain start stable_facts) simp_all
qed

lemma answer_keeps:
  assumes c: "copy_of l0 l" and names: "bl_Namespace l0 = ns" "bl_Name l0 = nm" and fin: "FinalizerName \<in> set (bl_Finalizers l0)"
  shows "keeps snap u (\<lambda>s. (seen l0 s \<and> follows l0 s) \<and>
      (cr_Acquired res \<longrightarrow> (bs_LeaseName (bl_Spec l0), cr_Holder res, cr_FencingToken res) \<notin> cs_released s))
    (on_answer K LC r l res started) (\<lambda>_ _. True)"
proof (cases "cr_Acquired res")
  case True
  then show ?thesis
    unfolding on_answer_def
    by (simp del: not_le) (intro keeps_bind_harmless [OF now_harmless] keeps_if keeps_ret
        keeps_conseq [OF granted_keeps [OF assms, of res started]] stable_facts; simp)
next
  case False
  have status: "keeps snap u (\<lambda>s. seen l0 s \<and> follows l0 s) (update_status K (standby_status K res l)) (\<lambda>_ _. True)"
    by (rule copy_status_keeps [OF c names]) (simp_all add: standby_status_def)
  show ?thesis
    unfolding on_answer_def using False
    by (auto intro!: keeps_bind [OF status] keeps_ret stopAndRelease_keeps assms)
qed

lemma acquire_error_keeps:
  assumes c: "copy_of l0 l" and names: "bl_Namespace l0 = ns" "bl_Name l0 = nm" and fin: "FinalizerName \<in> set (bl_Finalizers l0)"
  shows "keeps snap u (\<lambda>s. seen l0 s \<and> follows l0 s) (on_acquire_error K LC l err) (\<lambda>_ _. True)"
proof -
  have status: "keeps snap u (\<lambda>s. seen l0 s \<and> follows l0 s)
      (update_status K (setCondition K ConditionHeartbeatHealthy False ''AcquireFailed'' err l)) (\<lambda>_ _. True)"
    by (rule copy_status_keeps [OF c names]) simp_all
  show ?thesis
    unfolding on_acquire_error_def
    by (intro keeps_bind_harmless [OF now_harmless] keeps_bind_harmless [OF harmless_if] keeps_if stopAndRelease_keeps [OF assms]
        harmless_intro keeps_bind [OF status] keeps_ret stable_facts) simp_all
qed

lemma acquire_round_keeps:
  assumes c: "copy_of l0 l" and names: "bl_Namespace l0 = ns" "bl_Name l0 = nm" and fin: "FinalizerName \<in> set (bl_Finalizers l0)"
  shows "keeps snap u (\<lambda>s. seen l0 s \<and> follows l0 s) (acquire_round K LC r l) (\<lambda>_ _. True)"
proof -
  have spec: "bl_Spec l = bl_Spec l0" using c by (simp add: copy_of_def)
  have acq: "keeps snap u (\<lambda>s. seen l0 s \<and> follows l0 s) (lc_Acquire LC b a name holder ttl)
     (\<lambda>z s. (seen l0 s \<and> follows l0 s) \<and> (\<forall>res. z = Inr res \<longrightarrow> cr_Acquired res \<longrightarrow> (name, cr_Holder res, cr_FencingToken res) \<notin> cs_released s))"
    for b a name holder ttl
    by (rule acquire_keeps, intro stable_facts) (simp add: seen_def follows_def)
  show ?thesis
    unfolding acquire_round_def spec
  proof (intro keeps_bind_harmless [OF now_harmless] keeps_bind_harmless [OF harmless_if] harmless_intro keeps_bind [OF acq] keeps_sum)
    fix z :: "goerr + client_result" and err
    show "keeps snap u (\<lambda>s. (seen l0 s \<and> follows l0 s) \<and> (\<forall>res. z = Inr res \<longrightarrow> cr_Acquired res \<longrightarrow>
        (bs_LeaseName (bl_Spec l0), cr_Holder res, cr_FencingToken res) \<notin> cs_released s)) (on_acquire_error K LC l err) (\<lambda>_ _. True)"
      by (rule keeps_conseq [OF acquire_error_keeps [OF assms]]) simp_all
  next
    fix z :: "goerr + client_result" and res started
    assume "z = Inr res"
    then show "keeps snap u (\<lambda>s. (seen l0 s \<and> follows l0 s) \<and> (\<forall>res. z = Inr res \<longrightarrow> cr_Acquired res \<longrightarrow>
        (bs_LeaseName (bl_Spec l0), cr_Holder res, cr_FencingToken res) \<notin> cs_released s)) (on_answer K LC r l res started) (\<lambda>_ _. True)"
      by (intro keeps_conseq [OF answer_keeps [OF assms]]) simp_all
  qed (intro stable_facts)+
qed

lemma reconcile_valid_keeps:
  assumes c: "copy_of l0 l" and names: "bl_Namespace l0 = ns" "bl_Name l0 = nm" and fin: "FinalizerName \<in> set (bl_Finalizers l0)"
  shows "keeps snap u (\<lambda>s. seen l0 s \<and> follows l0 s) (reconcile_valid K LC r l) (\<lambda>_ _. True)"
proof -
  have status: "keeps snap u (\<lambda>s. seen l0 s \<and> follows l0 s)
      (update_status K (setCondition K ConditionAcquired False ''AdmissionRequired'' err l)) (\<lambda>_ _. True)" for err
    by (rule copy_status_keeps [OF c names]) simp_all
  show ?thesis
    unfolding reconcile_valid_def
    by (intro keeps_if acquire_round_keeps [OF assms] keeps_bind_harmless [OF verifyTarget_harmless] keeps_option
        stopAndRelease_keeps [OF assms] keeps_bind_harmless [OF stopTarget_harmless] keeps_bind [OF status] keeps_ret stable_facts) simp
qed

lemma reconcile_lease_keeps:
  assumes names: "bl_Namespace l0 = ns" "bl_Name l0 = nm" and fin: "FinalizerName \<in> set (bl_Finalizers l0)"
  shows "keeps snap u (\<lambda>s. seen l0 s \<and> follows l0 s) (reconcile_lease K LC r l0) (\<lambda>_ _. True)"
proof -
  have c: "copy_of l0 (l0\<lparr>bl_Status := (bl_Status l0)\<lparr>bt_ObservedGeneration := bl_Generation l0\<rparr>\<rparr>)"
    by (simp add: copy_of_def)
  have status: "keeps snap u (\<lambda>s. seen l0 s \<and> follows l0 s)
      (update_status K (setCondition K ConditionAcquired False ''InvalidSpec'' err
         (l0\<lparr>bl_Status := (bl_Status l0)\<lparr>bt_ObservedGeneration := bl_Generation l0\<rparr>\<rparr>))) (\<lambda>_ _. True)" for err
    by (rule copy_status_keeps [OF c names]) simp_all
  show ?thesis
    unfolding reconcile_lease_def Let_def
    by (intro keeps_bind_harmless [OF must_stop_harmless] keeps_if keeps_option stopAndRelease_keeps [OF c assms]
        reconcile_valid_keeps [OF c assms] keeps_bind [OF status] keeps_ret stable_facts) simp
qed

text \<open>A lease that was read is the stored one, and is what its version stands for.\<close>

lemma get_lease_keeps:
  "keeps snap u (\<lambda>_. True) (kc_GetLease K ns nm) (\<lambda>g s. \<forall>l. g = Inr l \<longrightarrow> bl_Namespace l = ns \<and> bl_Name l = nm \<and> seen l s \<and>
     cs_lease s = Some l)"
  unfolding keeps_def
proof (rule ensuresI)
  fix x g x'
  assume i: "cluster_inv u (snap x) \<and> True" and run: "run_state (kc_GetLease K ns nm) x = (g, x')"
  have i': "cluster_inv u (snap x')"
    using others_inv [OF _ harmlessD [OF get_lease_harmless _ run]] i by blast
  then show "cluster_inv u (snap x') \<and> (\<forall>l. g = Inr l \<longrightarrow> bl_Namespace l = ns \<and> bl_Name l = nm \<and> seen l (snap x') \<and> cs_lease (snap x') = Some l)"
    using get_lease [of x ns nm _ x'] i run invD(8) [OF i'] by (auto simp: seen_def)
qed

lemma Reconcile_keeps: "keeps snap u (\<lambda>_. True) (Reconcile K LC r ns nm) (\<lambda>_ _. True)"
  unfolding Reconcile_def
proof (rule keeps_bind [OF get_lease_keeps], rule keeps_sum)
  fix g and l :: BerthLease
  assume g: "g = Inr l"
  let ?pre = "\<lambda>s. \<forall>l. g = Inr l \<longrightarrow> bl_Namespace l = ns \<and> bl_Name l = nm \<and> seen l s \<and> cs_lease s = Some l"
  let ?l = "l\<lparr>bl_Finalizers := bl_Finalizers l @ [FinalizerName]\<rparr>"
  show "keeps snap u ?pre (if FinalizerName \<notin> set (bl_Finalizers l) then
              (if bl_DeletionTimestamp l \<noteq> None then ret (0, None)
               else State_Monad.bind (kc_UpdateLease K ?l) (\<lambda>x. ret (0, case x of Inl e \<Rightarrow> Some e | Inr _ \<Rightarrow> None)))
            else reconcile_lease K LC r l) (\<lambda>_ _. True)"
  proof (rule keeps_assume [of _ _ "bl_Namespace l = ns \<and> bl_Name l = nm"])
    assume n: "bl_Namespace l = ns \<and> bl_Name l = nm"
    have "keeps snap u (\<lambda>s. cs_hist s (bl_ResourceVersion ?l) = Some l \<and> (FinalizerName \<in> set (bl_Finalizers ?l) \<or> drained u s))
        (kc_UpdateLease K ?l) (\<lambda>_ _. True)"
      using n by (intro update_lease_finalizers) simp_all
    then have add: "keeps snap u ?pre (kc_UpdateLease K ?l) (\<lambda>_ _. True)"
      by (rule keeps_conseq) (use g in \<open>auto simp: seen_def\<close>)
    have round: "keeps snap u ?pre (reconcile_lease K LC r l) (\<lambda>_ _. True)" if "FinalizerName \<in> set (bl_Finalizers l)"
      by (rule keeps_conseq [OF reconcile_lease_keeps [of l]]) (use n g that in \<open>auto simp: follows_def\<close>)
    show ?thesis
      by (intro keeps_if keeps_bind [OF add] keeps_ret round) auto
  qed (use g in auto)
qed (auto intro: keeps_ret)

end

end
