(* ===== verification/Operator_Peers.thy ===== *)
theory Operator_Peers
  imports Operator_Rounds
begin

text \<open>
  What runs beside the lease reconciler: the reconcilers of managed pods and jobs and the admission
  webhook.  They write to the same lease objects, and only in ways that the invariant of the cluster
  allows everybody; this closes the rely of the lease reconciler over the operator's own parts.
\<close>

section \<open>Actions that read before they write\<close>

text \<open>
  The reconcilers of pods and jobs and the admission write to the lease as well.  They read it
  first: \<open>conforms\<close> is the triple for actions that only take steps the invariant allows others.
\<close>

definition conforms :: "('w \<Rightarrow> csnap) \<Rightarrow> string \<Rightarrow> (csnap \<Rightarrow> bool) \<Rightarrow> ('w, 'a) state \<Rightarrow> ('a \<Rightarrow> csnap \<Rightarrow> bool) \<Rightarrow> bool" where
  "conforms snap u P m Q \<longleftrightarrow>
     (\<forall>w a w'. cluster_inv u (snap w) \<longrightarrow> P (snap w) \<longrightarrow> run_state m w = (a, w') \<longrightarrow> others u (snap w) (snap w') \<and> Q a (snap w'))"

lemma conformsD:
  "conforms snap u P m Q \<Longrightarrow> cluster_inv u (snap w) \<Longrightarrow> P (snap w) \<Longrightarrow> run_state m w = (a, w') \<Longrightarrow> others u (snap w) (snap w') \<and> Q a (snap w')"
  by (simp add: conforms_def)

lemma conforms_harmless: "harmless snap u m \<Longrightarrow> conforms snap u P m (\<lambda>_ _. True)"
  by (auto simp: conforms_def harmless_def)

lemma conforms_stable: "harmless snap u m \<Longrightarrow> stable u P \<Longrightarrow> conforms snap u P m (\<lambda>_. P)"
  unfolding conforms_def harmless_def stable_def by blast

lemma harmless_conforms: "conforms snap u (\<lambda>_. True) m Q \<Longrightarrow> harmless snap u m"
  by (auto simp: conforms_def harmless_def)

lemma conforms_ret: "conforms snap u P (ret x) (\<lambda>_ _. True)"
  by (rule conforms_harmless [OF harmless_ret])

lemma conforms_bind:
  assumes "conforms snap u P m R" "\<And>x. conforms snap u (R x) (f x) Q"
  shows "conforms snap u P (State_Monad.bind m f) Q"
  unfolding conforms_def
proof (intro allI impI)
  fix w a w'
  assume i: "cluster_inv u (snap w)" and p: "P (snap w)" and run: "run_state (State_Monad.bind m f) w = (a, w')"
  obtain x w1 where x: "run_state m w = (x, w1)" "run_state (f x) w1 = (a, w')"
    using run by (auto split: prod.splits)
  have 1: "others u (snap w) (snap w1)" "R x (snap w1)" using conformsD [OF assms(1) i p x(1)] by simp_all
  have 2: "others u (snap w1) (snap w')" "Q a (snap w')" using conformsD [OF assms(2) others_inv [OF i 1(1)] 1(2) x(2)] by simp_all
  show "others u (snap w) (snap w') \<and> Q a (snap w')" using others_trans [OF i 1(1) 2(1)] 2(2) by simp
qed

lemma conforms_conseq:
  "conforms snap u P' m Q' \<Longrightarrow> (\<And>s. cluster_inv u s \<Longrightarrow> P s \<Longrightarrow> P' s) \<Longrightarrow> (\<And>a s. Q' a s \<Longrightarrow> Q a s) \<Longrightarrow> conforms snap u P m Q"
  unfolding conforms_def by blast

lemma conforms_if: "(b \<Longrightarrow> conforms snap u P m Q) \<Longrightarrow> (\<not> b \<Longrightarrow> conforms snap u P m' Q) \<Longrightarrow> conforms snap u P (if b then m else m') Q"
  by simp

lemma conforms_sum:
  "(\<And>e. x = Inl e \<Longrightarrow> conforms snap u P (g e) Q) \<Longrightarrow> (\<And>y. x = Inr y \<Longrightarrow> conforms snap u P (f y) Q) \<Longrightarrow>
    conforms snap u P (case x of Inl e \<Rightarrow> g e | Inr y \<Rightarrow> f y) Q"
  by (cases x) simp_all

lemma conforms_assume:
  "(\<And>s. cluster_inv u s \<Longrightarrow> P s \<Longrightarrow> A) \<Longrightarrow> (A \<Longrightarrow> conforms snap u P m Q) \<Longrightarrow> conforms snap u P m Q"
  unfolding conforms_def by blast

lemma conforms_prod: "(\<And>a b. x = (a, b) \<Longrightarrow> conforms snap u P (f a b) Q) \<Longrightarrow> conforms snap u P (case x of (a, b) \<Rightarrow> f a b) Q"
  by (cases x) simp

lemma conforms_option:
  "(x = None \<Longrightarrow> conforms snap u P m Q) \<Longrightarrow> (\<And>y. x = Some y \<Longrightarrow> conforms snap u P (f y) Q) \<Longrightarrow>
    conforms snap u P (case x of None \<Rightarrow> m | Some y \<Rightarrow> f y) Q"
  by (cases x) simp_all

lemma conforms_bind_harmless:
  "harmless snap u m \<Longrightarrow> stable u P \<Longrightarrow> (\<And>x. conforms snap u P (f x) Q) \<Longrightarrow> conforms snap u P (State_Monad.bind m f) Q"
  by (rule conforms_bind [OF conforms_stable])

section \<open>Writes that are allowed to everybody\<close>

lemma record_step:
  assumes i: "cluster_inv u s" and l0: "cs_lease s = Some l0" and wo: "bt_Workload st = wo" and step: "wl_step (workload l0) wo"
    and fits: "\<And>w. bl_UID l0 = u \<Longrightarrow> wo = Some w \<Longrightarrow> snd ` pods_of w \<subseteq> cs_known s \<and> bs_Target (bl_Spec l0) \<noteq> None \<and> (busy w \<or> ws_Pods w = [])"
    and fresh: "cs_hist s v = None"
    and unguarded: "bl_UID l0 = u \<Longrightarrow> FinalizerName \<notin> set (bl_Finalizers l0) \<Longrightarrow> idle wo"
  shows "others u s (put_lease s (l0\<lparr>bl_Status := st, bl_ResourceVersion := v\<rparr>))"
proof -
  let ?l = "l0\<lparr>bl_Status := st, bl_ResourceVersion := v\<rparr>"
  have "lease_fits u s ?l" using fits wo by (auto simp: lease_fits_def acc_def)
  moreover have "lease_step u (Some l0) (Some ?l)"
    using step wo unguarded by (auto simp: lease_step_def guarded_def acc_def)
  moreover have "cs_hist s \<subseteq>\<^sub>m (cs_hist s)(v \<mapsto> ?l)" using fresh by (auto simp: map_le_def)
  ultimately show ?thesis
    using i l0 invD(1,2,4) [OF i] by (auto simp: others_def cluster_inv_def)
qed

lemma register_step:
  assumes i: "cluster_inv u s" and l: "cs_lease s = Some l" and w: "workload l = Some w" "ws_Phase w = PhaseActive"
    and st: "bt_Workload st = Some (w\<lparr>ws_Pods := ws_Pods w @ [\<lparr>pp_Name = n, pp_UID = x\<rparr>]\<rparr>)" and x: "x \<in> cs_known s" and v: "cs_hist s v = None"
  shows "others u s (put_lease s (l\<lparr>bl_Status := st, bl_ResourceVersion := v\<rparr>))"
proof (rule record_step [OF i l st _ _ v])
  have fits: "lease_fits u s l" using invD(7) [OF i invD(8) [OF i l]] .
  have active: "busy w" using w(2) by (simp add: busy_def)
  show "wl_step (workload l) (Some (w\<lparr>ws_Pods := ws_Pods w @ [\<lparr>pp_Name = n, pp_UID = x\<rparr>]\<rparr>))"
    using w by (auto simp: wl_step_def)
  show "snd ` pods_of w' \<subseteq> cs_known s \<and> bs_Target (bl_Spec l) \<noteq> None \<and> (busy w' \<or> ws_Pods w' = [])"
    if "bl_UID l = u" "Some (w\<lparr>ws_Pods := ws_Pods w @ [\<lparr>pp_Name = n, pp_UID = x\<rparr>]\<rparr>) = Some w'" for w'
    using that fits w active x by (force simp: lease_fits_def acc_def pods_of_def busy_def image_image)
  show "idle (Some (w\<lparr>ws_Pods := ws_Pods w @ [\<lparr>pp_Name = n, pp_UID = x\<rparr>]\<rparr>))"
    if "bl_UID l = u" "FinalizerName \<notin> set (bl_Finalizers l)"
    using invD(9) [OF i, of w] that l w active by (auto simp: tracked_def acc_def guarded_def dry_def)
qed

lemma retarget_step:
  assumes i: "cluster_inv u s" and l: "cs_lease s = Some l" and old: "\<not> cleanup_active l" and t: "bs_Target (bl_Spec l) \<noteq> None"
    and st: "bt_Workload st = Some w" and w: "ws_Phase w = []" "ws_Pods w = []" and v: "cs_hist s v = None"
  shows "others u s (put_lease s (l\<lparr>bl_Status := st, bl_ResourceVersion := v\<rparr>))"
  by (rule record_step [OF i l st _ _ v])
    (use old t w in \<open>auto simp: wl_step_def idle_def busy_def cleanup_active_def pods_of_def split: option.splits\<close>)

context managed_cluster
begin

text \<open>A status write conforms if on the object that was read it is such a step.\<close>

lemma status_conforms:
  assumes P: "stable u P"
    and T: "\<And>s st v. cluster_inv u s \<Longrightarrow> P s \<Longrightarrow> cs_lease s = Some l0 \<Longrightarrow> bt_Workload st = workload l \<Longrightarrow> cs_hist s v = None \<Longrightarrow>
      others u s (put_lease s (l0\<lparr>bl_Status := st, bl_ResourceVersion := v\<rparr>))"
  shows "conforms snap u (\<lambda>s. ((bl_Namespace l, bl_Name l) = (ns, nm) \<longrightarrow> cs_hist s (bl_ResourceVersion l) = Some l0) \<and> P s)
    (kc_UpdateLeaseStatus K l) (\<lambda>_ _. True)"
  unfolding conforms_def
proof (intro allI impI, elim conjE)
  fix w x w'
  assume i: "cluster_inv u (snap w)" and h: "(bl_Namespace l, bl_Name l) = (ns, nm) \<longrightarrow> cs_hist (snap w) (bl_ResourceVersion l) = Some l0"
    and p: "P (snap w)" and run: "run_state (kc_UpdateLeaseStatus K l) w = (x, w')"
  have wrote: "others u (snap w) (snap w')" if wr: "wrote_status u (snap w) l l1 (snap w')" and n: "(bl_Namespace l, bl_Name l) = (ns, nm)" for l1
  proof -
    obtain s1 lb st v where s1: "others u (snap w) s1" "cs_lease s1 = Some lb" "bl_ResourceVersion lb = bl_ResourceVersion l"
      "bt_Workload st = workload l" "cs_hist s1 v = None" "snap w' = put_lease s1 (lb\<lparr>bl_Status := st, bl_ResourceVersion := v\<rparr>)"
      using wr unfolding wrote_status_def by blast
    have i1: "cluster_inv u s1" using others_inv [OF i s1(1)] .
    have "cs_hist s1 (bl_ResourceVersion l) = Some l0" using othersD(9) [OF s1(1)] h n by simp
    then have "lb = l0" using invD(8) [OF i1 s1(2)] s1(3) by simp
    moreover have "P s1" using P i p s1(1) unfolding stable_def by blast
    ultimately have "others u s1 (snap w')" using T [OF i1] s1 by simp
    then show ?thesis using others_trans [OF i s1(1)] by blast
  qed
  show "others u (snap w) (snap w') \<and> True"
    using update_status_other [OF i run] update_status [OF i run] wrote
    by (cases "(bl_Namespace l, bl_Name l) = (ns, nm)") (auto split: sum.splits)
qed

section \<open>The reconcilers of pods and jobs\<close>

lemma get_lease_conforms:
  assumes P: "stable u P"
  shows "conforms snap u P (kc_GetLease K a b)
    (\<lambda>g s. P s \<and> (\<forall>l. g = Inr l \<longrightarrow> bl_Namespace l = a \<and> bl_Name l = b \<and> ((a, b) = (ns, nm) \<longrightarrow> seen l s)))"
  unfolding conforms_def
proof (intro allI impI)
  fix w g w'
  assume i: "cluster_inv u (snap w)" and p: "P (snap w)" and run: "run_state (kc_GetLease K a b) w = (g, w')"
  have o: "others u (snap w) (snap w')" using harmlessD [OF get_lease_harmless i run] .
  have i': "cluster_inv u (snap w')" using others_inv [OF i o] .
  have "P (snap w')" using P i p o unfolding stable_def by blast
  then show "others u (snap w) (snap w') \<and> P (snap w') \<and>
      (\<forall>l. g = Inr l \<longrightarrow> bl_Namespace l = a \<and> bl_Name l = b \<and> ((a, b) = (ns, nm) \<longrightarrow> seen l (snap w')))"
    using o get_lease [OF i, of a b _ w'] run invD(8) [OF i'] by (auto simp: seen_def)
qed

lemma register_pod_conforms:
  assumes "workload l = Some w" "ws_Phase w = PhaseActive"
  shows "conforms snap u (\<lambda>s. ((bl_Namespace l, bl_Name l) = (ns, nm) \<longrightarrow> seen l s \<and> mp_UID p \<in> cs_known s)) (register_pod K l p) (\<lambda>_ _. True)"
proof -
  let ?l = "map_workload (\<lambda>w. w\<lparr>ws_Pods := ws_Pods w @ [\<lparr>pp_Name = mp_Name p, pp_UID = mp_UID p\<rparr>]\<rparr>) l"
  have "conforms snap u (\<lambda>s. ((bl_Namespace ?l, bl_Name ?l) = (ns, nm) \<longrightarrow> cs_hist s (bl_ResourceVersion ?l) = Some l) \<and>
      ((bl_Namespace l, bl_Name l) = (ns, nm) \<longrightarrow> mp_UID p \<in> cs_known s)) (kc_UpdateLeaseStatus K ?l) (\<lambda>_ _. True)"
  proof (cases "(bl_Namespace l, bl_Name l) = (ns, nm)")
    case True
    show ?thesis
      by (rule status_conforms, intro stable_facts)
        (use True assms in \<open>auto intro!: register_step\<close>)
  next
    case False
    then show ?thesis
      unfolding conforms_def by (auto dest: update_status_other)
  qed
  then have wr: "conforms snap u (\<lambda>s. ((bl_Namespace l, bl_Name l) = (ns, nm) \<longrightarrow> seen l s \<and> mp_UID p \<in> cs_known s))
      (kc_UpdateLeaseStatus K ?l) (\<lambda>_ _. True)"
    by (rule conforms_conseq) (auto simp: seen_def)
  show ?thesis
    unfolding register_pod_def Let_def by (intro conforms_if conforms_ret conforms_bind [OF wr])
qed

lemma permitPod_conforms:
  "conforms snap u (\<lambda>s. ((bl_Namespace l, bl_Name l) = (ns, nm) \<longrightarrow> seen l s \<and> mp_UID p \<in> cs_known s)) (permitPod K l p) (\<lambda>_ _. True)"
proof -
  have bound: "conforms snap u (\<lambda>s. ((bl_Namespace l, bl_Name l) = (ns, nm) \<longrightarrow> seen l s \<and> mp_UID p \<in> cs_known s)) (permit_bound K l p) (\<lambda>_ _. True)"
    if act: "activeAt l now" for now
  proof -
    obtain w where w: "workload l = Some w" "ws_Phase w = PhaseActive" using activeAt_workload [OF act] by blast
    have first: "conforms snap u (\<lambda>s. ((bl_Namespace l, bl_Name l) = (ns, nm) \<longrightarrow> seen l s \<and> mp_UID p \<in> cs_known s))
        (if registered l (mp_Name p) (mp_UID p) then ret (None, l) else register_pod K l p) (\<lambda>_ _. True)"
      by (intro conforms_if conforms_ret register_pod_conforms [OF w])
    show ?thesis
      unfolding permit_bound_def
      by (rule conforms_bind [OF first]) (intro conforms_harmless harmless_intro)
  qed
  show ?thesis
    unfolding permitPod_def
    by (intro conforms_bind_harmless [OF now_harmless] conforms_if conforms_ret conforms_bind_harmless [OF expectedBinding_harmless]
        conforms_sum bound stable_facts) blast
qed

lemma pod_Reconcile_harmless: "harmless snap u (pod_Reconcile K a b)"
proof -
  have got: "conforms snap u (\<lambda>_. True) (kc_GetPod K a b)
      (\<lambda>g s. \<forall>p. g = Inr p \<longrightarrow> mp_Namespace p = a \<and> (a = ns \<longrightarrow> mp_UID p \<in> cs_known s))"
    unfolding conforms_def using harmlessD [OF get_pod_harmless] get_pod get_pod_namespace by blast
  have rest: "conforms snap u (\<lambda>s. mp_Namespace p = a \<and> (a = ns \<longrightarrow> mp_UID p \<in> cs_known s))
    (State_Monad.bind (kc_GetLease K (mp_Namespace p) n) (\<lambda>x. case x of
       Inl e \<Rightarrow> if errors_Is e ErrNotFound then State_Monad.bind (deleteUID_pod K p) (\<lambda>d. ret (0, d)) else ret (0, Some e)
     | Inr l \<Rightarrow> if bl_UID l \<noteq> uid then State_Monad.bind (deleteUID_pod K p) (\<lambda>d. ret (0, d))
         else if stopping l then State_Monad.bind (deleteUID_pod K p) (\<lambda>d. ret (second, d))
         else State_Monad.bind (kc_Now K) (\<lambda>now. if \<not> activeAt l now then ret (second, None)
           else State_Monad.bind (permitPod K l p) (\<lambda>x. ret (second, fst x))))) (\<lambda>_ _. True)" for p n uid
  proof (rule conforms_bind [OF get_lease_conforms], intro stable_facts, rule conforms_sum)
    fix x and l :: BerthLease
    assume x: "x = Inr l"
    let ?P = "\<lambda>s. (mp_Namespace p = a \<and> (a = ns \<longrightarrow> mp_UID p \<in> cs_known s)) \<and> (\<forall>l. x = Inr l \<longrightarrow> bl_Namespace l = mp_Namespace p \<and>
        bl_Name l = n \<and> ((mp_Namespace p, n) = (ns, nm) \<longrightarrow> seen l s))"
    have st: "stable u ?P" using x by (auto intro!: stable_facts)
    have permit: "conforms snap u ?P (permitPod K l p) (\<lambda>_ _. True)"
      by (rule conforms_conseq [OF permitPod_conforms]) (use x in auto)
    show "conforms snap u ?P (if bl_UID l \<noteq> uid then State_Monad.bind (deleteUID_pod K p) (\<lambda>d. ret (0, d))
         else if stopping l then State_Monad.bind (deleteUID_pod K p) (\<lambda>d. ret (second, d))
         else State_Monad.bind (kc_Now K) (\<lambda>now. if \<not> activeAt l now then ret (second, None)
           else State_Monad.bind (permitPod K l p) (\<lambda>x. ret (second, fst x)))) (\<lambda>_ _. True)"
      by (intro conforms_if conforms_bind_harmless [OF now_harmless st] conforms_bind [OF permit] conforms_ret)
        (intro conforms_harmless harmless_intro)+
  qed (intro conforms_harmless harmless_intro)
  have all: "conforms snap u (\<lambda>_. True) (pod_Reconcile K a b) (\<lambda>_ _. True)"
    unfolding pod_Reconcile_def
    by (rule conforms_bind [OF got], intro conforms_sum conforms_if conforms_ret) (rule conforms_conseq [OF rest], auto)
  then show ?thesis by (rule harmless_conforms)
qed

lemma job_Reconcile_harmless: "harmless snap u (job_Reconcile K a b)"
  unfolding job_Reconcile_def stop_job_def by (intro harmless_intro)

section \<open>Admission\<close>

lemma recordTarget_harmless: "harmless snap u (recordTarget K obj b dryRun)"
proof -
  have wr: "conforms snap u (\<lambda>s. (bl_Namespace l, bl_Name l) = (ns, nm) \<longrightarrow> seen l s) (record_new_target K obj l dryRun) (\<lambda>_ _. True)"
    if l: "\<not> cleanup_active l" "bs_Target (bl_Spec l) \<noteq> None" for l
  proof -
    let ?l = "l\<lparr>bl_Status := (bl_Status l)\<lparr>bt_Workload := Some \<lparr>ws_TargetUID = uo_UID obj, ws_Phase = [], ws_Deadline = None,
       ws_LeaseName = [], ws_Holder = [], ws_Token = 0, ws_Pods = []\<rparr>\<rparr>\<rparr>"
    have "conforms snap u (\<lambda>s. ((bl_Namespace ?l, bl_Name ?l) = (ns, nm) \<longrightarrow> cs_hist s (bl_ResourceVersion ?l) = Some l) \<and> True)
        (kc_UpdateLeaseStatus K ?l) (\<lambda>_ _. True)"
      by (rule status_conforms, rule stable_const) (rule retarget_step, use l in auto)
    then have "conforms snap u (\<lambda>s. (bl_Namespace l, bl_Name l) = (ns, nm) \<longrightarrow> seen l s) (kc_UpdateLeaseStatus K ?l) (\<lambda>_ _. True)"
      by (rule conforms_conseq) (auto simp: seen_def)
    note stored = this
    show ?thesis
      unfolding record_new_target_def
      by (intro conforms_prod conforms_bind_harmless [OF get_obj_harmless] conforms_sum conforms_if conforms_ret conforms_bind [OF stored]
          stable_facts)
  qed
  have rest: "conforms snap u (\<lambda>s. True \<and> (\<forall>l. x = Inr l \<longrightarrow> bl_Namespace l = n \<and> bl_Name l = m \<and> ((n, m) = (ns, nm) \<longrightarrow> seen l s)))
      (record_new_target K obj l dryRun) (\<lambda>_ _. True)"
    if "x = Inr l" "\<not> cleanup_active l" "bs_Target (bl_Spec l) \<noteq> None" for x l n m
    by (rule conforms_conseq [OF wr]) (use that in auto)
  show ?thesis
    unfolding recordTarget_def
    by (rule harmless_conforms [where Q = "\<lambda>_ _. True"], rule conforms_bind [OF get_lease_conforms [OF stable_True]], intro conforms_sum conforms_if conforms_option conforms_ret rest)
      (auto split: option.splits)
qed

lemma handle_validate_harmless: "harmless snap u (handle_validate K h req obj old b)"
  unfolding handle_validate_def validatePermit_def activation_allowed_def
  by (intro harmless_intro recordTarget_harmless)

lemma Handle_harmless: "harmless snap u (Handle K C h req)"
  unfolding Handle_def validateBinding_def handle_object_def handle_bound_def
  by (intro harmless_intro handle_validate_harmless)

end

end
