(* ===== verification/Operator_Reference.thy ===== *)
theory Operator_Reference
  imports Operator_Peers
begin

text \<open>
  A reference cluster on which the contract of \<open>managed_cluster\<close> holds.  It
  has one lease object with resource versions and finalizers, pods with scheduling gates whose updates pass
  the operator's own admission, a central lease served by the lease manager on the memory store,
  and a script of events (pods that are created, finish or disappear, a deletion of the lease, the
  passing of time) of which one happens before every call.  It shows that the contract can be met;
  the properties hold for every cluster that meets it.
\<close>

section \<open>A reference cluster\<close>

datatype event =
    Tick duration
  | CreatePod string "owner_reference list"
  | Finish string
  | Vanish string
  | RequestDeletion

record rworld =
  rw_now :: time
  rw_script :: "event list"
  rw_lease :: "BerthLease option"
  rw_hist :: "(string \<times> BerthLease) list"
  rw_pods :: "mpod list"
  rw_jobs :: "mjob list"
  rw_objs :: "uobj list"
  rw_uids :: "string list"
  rw_bound :: "string list"
  rw_admitted :: "(string \<times> string) list"
  rw_released :: "(string \<times> string \<times> int32) list"
  rw_store :: MemStore

text \<open>A string that is longer than all of a list is new to it.\<close>

definition fresh :: "string list \<Rightarrow> string" where
  "fresh xs = replicate (Suc (foldr (\<lambda>x n. max (length x) n) xs 0)) CHR ''v''"

lemma fresh_new: "fresh xs \<notin> set xs"
proof
  assume "fresh xs \<in> set xs"
  moreover have "x \<in> set xs \<Longrightarrow> length x \<le> foldr (\<lambda>x n. max (length x) n) xs 0" for x
    by (induction xs) auto
  ultimately show False by (fastforce simp: fresh_def)
qed

definition pod_uobj :: "mpod \<Rightarrow> uobj" where
  "pod_uobj p =
     \<lparr>uo_APIVersion = ''v1'', uo_Kind = ''Pod'', uo_Namespace = mp_Namespace p, uo_Name = mp_Name p, uo_UID = mp_UID p,
      uo_ResourceVersion = mp_ResourceVersion p, uo_Labels = mp_Labels p, uo_Annotations = mp_Annotations p,
      uo_OwnerReferences = mp_OwnerReferences p, uo_Suspend = Absent, uo_Replicas = Absent,
      uo_Body = \<lparr>pb_Gates = Present (map Some (mp_SchedulingGates p)), pb_NodeName = Absent, pb_Rest = []\<rparr>,
      uo_Template = Absent, uo_JobTemplate = Absent\<rparr>"

definition live_pods :: "rworld \<Rightarrow> mpod set" where
  "live_pods w = {p \<in> set (rw_pods w). mp_UID p \<in> set (rw_bound w) \<and> \<not> terminal p}"

definition ref_wf :: "string \<Rightarrow> string \<Rightarrow> string \<Rightarrow> rworld \<Rightarrow> bool" where
  "ref_wf ns nm u w \<longleftrightarrow>
     distinct (map mp_UID (rw_pods w)) \<and>
     (\<forall>p \<in> set (rw_pods w). mp_UID p \<in> set (rw_uids w) \<and>
        (mp_UID p \<in> set (rw_bound w) \<longrightarrow> mp_Namespace p = ns \<and> entry (mp_Annotations p) ManagedUID = u)) \<and>
     (case rw_lease w of None \<Rightarrow> True | Some l \<Rightarrow> bl_Namespace l = ns \<and> bl_Name l = nm) \<and> u \<noteq> []"

text \<open>The snapshot; a world that is not well-formed has one that no invariant holds of.\<close>

definition ref_snap :: "string \<Rightarrow> string \<Rightarrow> string \<Rightarrow> rworld \<Rightarrow> csnap" where
  "ref_snap ns nm u w =
     (if ref_wf ns nm u w then
        \<lparr>cs_lease = rw_lease w, cs_live = mp_UID ` live_pods w, cs_admitted = set (rw_admitted w),
         cs_open = (\<lambda>p. (mp_Name p, mp_UID p)) ` {p \<in> live_pods w. \<not> hasGate p},
         cs_known = set (rw_uids w), cs_released = set (rw_released w), cs_hist = map_of (rw_hist w)\<rparr>
      else \<lparr>cs_lease = None, cs_live = {[]}, cs_admitted = {}, cs_open = {}, cs_known = {}, cs_released = {}, cs_hist = Map.empty\<rparr>)"

lemma ref_snap_sel [simp]:
  assumes "ref_wf ns nm u w"
  shows "cs_lease (ref_snap ns nm u w) = rw_lease w" "cs_live (ref_snap ns nm u w) = mp_UID ` live_pods w"
    "cs_admitted (ref_snap ns nm u w) = set (rw_admitted w)"
    "cs_open (ref_snap ns nm u w) = (\<lambda>p. (mp_Name p, mp_UID p)) ` {p \<in> live_pods w. \<not> hasGate p}"
    "cs_known (ref_snap ns nm u w) = set (rw_uids w)" "cs_released (ref_snap ns nm u w) = set (rw_released w)"
    "cs_hist (ref_snap ns nm u w) = map_of (rw_hist w)"
  using assms by (simp_all add: ref_snap_def)

lemma ref_inv_wf: "cluster_inv u (ref_snap ns nm u w) \<Longrightarrow> ref_wf ns nm u w"
  by (rule ccontr) (auto simp: ref_snap_def cluster_inv_def)

section \<open>Events\<close>

definition put_version :: "BerthLease \<Rightarrow> rworld \<Rightarrow> BerthLease \<times> rworld" where
  "put_version l w =
     (let l' = l\<lparr>bl_ResourceVersion := fresh (map fst (rw_hist w))\<rparr>
      in (l', w\<lparr>rw_lease := Some l', rw_hist := (bl_ResourceVersion l', l') # rw_hist w\<rparr>))"

definition created_pod :: "string \<Rightarrow> string \<Rightarrow> string \<Rightarrow> string \<Rightarrow> owner_reference list \<Rightarrow> rworld \<Rightarrow> mpod" where
  "created_pod ns nm u name owners w =
     (case stamp \<lparr>bd_name = nm, bd_uid = u, bd_targetUID = []\<rparr> (Map.empty, Map.empty) of (ls, as) \<Rightarrow>
       \<lparr>mp_Namespace = ns, mp_Name = name, mp_UID = fresh (rw_uids w), mp_ResourceVersion = [], mp_Labels = ls, mp_Annotations = as,
        mp_OwnerReferences = owners, mp_SchedulingGates = [SchedulingGate], mp_Phase = ''Pending'', mp_DeletionTimestamp = None\<rparr>)"

fun happen :: "string \<Rightarrow> string \<Rightarrow> string \<Rightarrow> event \<Rightarrow> rworld \<Rightarrow> rworld" where
  "happen ns nm u (Tick d) w = w\<lparr>rw_now := rw_now w + d\<rparr>"
| "happen ns nm u (CreatePod name owners) w =
     (let p = created_pod ns nm u name owners w
      in w\<lparr>rw_pods := rw_pods w @ [p], rw_uids := mp_UID p # rw_uids w, rw_bound := mp_UID p # rw_bound w\<rparr>)"
| "happen ns nm u (Finish name) w =
     w\<lparr>rw_pods := map (\<lambda>p. if mp_Name p = name then p\<lparr>mp_Phase := ''Succeeded''\<rparr> else p) (rw_pods w)\<rparr>"
| "happen ns nm u (Vanish name) w =
     w\<lparr>rw_pods := filter (\<lambda>p. \<not> (mp_Name p = name \<and> (terminal p \<or> mp_DeletionTimestamp p \<noteq> None))) (rw_pods w)\<rparr>"
| "happen ns nm u RequestDeletion w =
     (case rw_lease w of
        None \<Rightarrow> w
      | Some l \<Rightarrow>
          if bl_Finalizers l = [] then w\<lparr>rw_lease := None\<rparr>
          else snd (put_version (l\<lparr>bl_DeletionTimestamp := Some (rw_now w)\<rparr>) w))"

definition surroundings :: "string \<Rightarrow> string \<Rightarrow> string \<Rightarrow> (rworld, unit) state" where
  "surroundings ns nm u = State (\<lambda>w. ((), case rw_script w of [] \<Rightarrow> w | e # es \<Rightarrow> happen ns nm u e (w\<lparr>rw_script := es\<rparr>)))"

text \<open>Steps that leave the lease object alone.\<close>

lemma ref_pods_step:
  assumes i: "cluster_inv u (ref_snap ns nm u w)" and wf: "ref_wf ns nm u w'"
    and same: "rw_lease w' = rw_lease w" "rw_hist w' = rw_hist w" "rw_released w' = rw_released w" "rw_admitted w' = rw_admitted w"
    and known: "set (rw_uids w) \<subseteq> set (rw_uids w')"
    and live: "\<And>p. p \<in> live_pods w' \<Longrightarrow> mp_UID p \<in> set (rw_uids w) \<Longrightarrow> \<exists>q. q \<in> live_pods w \<and> mp_UID q = mp_UID p"
    and opened: "\<And>p. p \<in> live_pods w' \<Longrightarrow> \<not> hasGate p \<Longrightarrow>
      (\<exists>q. q \<in> live_pods w \<and> \<not> hasGate q \<and> mp_Name q = mp_Name p \<and> mp_UID q = mp_UID p) \<or> (mp_Name p, mp_UID p) \<in> set (rw_admitted w)"
  shows "others u (ref_snap ns nm u w) (ref_snap ns nm u w')"
proof -
  have wf0: "ref_wf ns nm u w" using ref_inv_wf [OF i] .
  have k: "mp_UID p \<in> set (rw_uids w')" if "p \<in> live_pods w'" for p using that wf by (auto simp: ref_wf_def live_pods_def)
  have step: "lease_step u (cs_lease (ref_snap ns nm u w)) (cs_lease (ref_snap ns nm u w'))" using wf wf0 same by simp
  have acc: "tracked u (ref_snap ns nm u w') = tracked u (ref_snap ns nm u w)" using wf wf0 same by (simp add: tracked_def)
  show ?thesis
    unfolding others_def
  proof (intro conjI ballI allI impI)
    show "cs_live (ref_snap ns nm u w') \<inter> cs_known (ref_snap ns nm u w) \<subseteq> cs_live (ref_snap ns nm u w)"
    proof
      fix x
      assume "x \<in> cs_live (ref_snap ns nm u w') \<inter> cs_known (ref_snap ns nm u w)"
      then obtain p where "p \<in> live_pods w'" "mp_UID p \<in> set (rw_uids w)" "x = mp_UID p" using wf wf0 by auto
      then show "x \<in> cs_live (ref_snap ns nm u w)" using live [of p] wf0 by (auto intro: rev_image_eqI)
    qed
    show "p \<in> cs_open (ref_snap ns nm u w) \<or> p \<in> cs_admitted (ref_snap ns nm u w')" if o: "p \<in> cs_open (ref_snap ns nm u w')" for p
    proof -
      obtain q where q: "q \<in> live_pods w'" "\<not> hasGate q" "p = (mp_Name q, mp_UID q)" using o wf by auto
      then show ?thesis using opened [OF q(1,2)] wf wf0 same by (auto intro: rev_image_eqI)
    qed
    show "cs_hist (ref_snap ns nm u w') (bl_ResourceVersion l) = Some l" if "cs_lease (ref_snap ns nm u w') = Some l" for l
      using that invD(8) [OF i] wf wf0 same by simp
  qed (use wf wf0 same known k step in auto)
qed

lemma ref_wf_cong:
  "rw_pods w' = rw_pods w \<Longrightarrow> rw_uids w' = rw_uids w \<Longrightarrow> rw_bound w' = rw_bound w \<Longrightarrow> rw_lease w' = rw_lease w \<Longrightarrow>
    ref_wf ns nm u w' = ref_wf ns nm u w"
  by (simp add: ref_wf_def)

lemma ref_same_step:
  assumes "cluster_inv u (ref_snap ns nm u w)" "rw_pods w' = rw_pods w" "rw_uids w' = rw_uids w" "rw_bound w' = rw_bound w"
    "rw_lease w' = rw_lease w" "rw_hist w' = rw_hist w" "rw_released w' = rw_released w" "rw_admitted w' = rw_admitted w"
  shows "others u (ref_snap ns nm u w) (ref_snap ns nm u w')"
proof -
  have "ref_snap ns nm u w' = ref_snap ns nm u w"
    using assms ref_wf_cong [OF assms(2-5)] by (simp add: ref_snap_def live_pods_def)
  then show ?thesis using assms(1) by simp
qed

text \<open>A write of the lease object is \<open>put_lease\<close> under a version that was never used.\<close>

lemma ref_put_version:
  assumes "ref_wf ns nm u w" "bl_Namespace l = ns" "bl_Name l = nm" "put_version l w = (l', w')"
  shows "ref_wf ns nm u w' \<and> l' = l\<lparr>bl_ResourceVersion := fresh (map fst (rw_hist w))\<rparr> \<and>
    cs_hist (ref_snap ns nm u w) (bl_ResourceVersion l') = None \<and> ref_snap ns nm u w' = put_lease (ref_snap ns nm u w) l'"
proof -
  have l': "l' = l\<lparr>bl_ResourceVersion := fresh (map fst (rw_hist w))\<rparr>"
    "w' = w\<lparr>rw_lease := Some l', rw_hist := (bl_ResourceVersion l', l') # rw_hist w\<rparr>"
    using assms(4) by (auto simp: put_version_def Let_def)
  have wf': "ref_wf ns nm u w'" using assms(1-3) l' by (simp add: ref_wf_def)
  have "map_of (rw_hist w) (bl_ResourceVersion l') = None"
    using fresh_new [of "map fst (rw_hist w)"] l'(1) by (simp add: map_of_eq_None_iff)
  then show ?thesis
    using assms(1) wf' l' by (simp add: ref_snap_def put_lease_def live_pods_def)
qed

lemma deletion_step:
  assumes i: "cluster_inv u s" and l: "cs_lease s = Some l" and fresh: "cs_hist s v = None"
  shows "others u s (put_lease s (l\<lparr>bl_DeletionTimestamp := t, bl_ResourceVersion := v\<rparr>))"
proof -
  let ?l = "l\<lparr>bl_DeletionTimestamp := t, bl_ResourceVersion := v\<rparr>"
  have "lease_fits u s ?l" using invD(7) [OF i invD(8) [OF i l]] by (simp add: lease_fits_def acc_def)
  moreover have "lease_step u (Some l) (Some ?l)" by (auto simp: lease_step_def guarded_def)
  moreover have "cs_hist s \<subseteq>\<^sub>m (cs_hist s)(v \<mapsto> ?l)" using fresh by (auto simp: map_le_def)
  ultimately show ?thesis using i l invD(1,2,4) [OF i] by (auto simp: others_def cluster_inv_def)
qed

lemma removal_step:
  assumes i: "cluster_inv u s" and l: "cs_lease s = Some l" and f: "FinalizerName \<notin> set (bl_Finalizers l)"
  shows "others u s (s\<lparr>cs_lease := None\<rparr>)"
  using i l f unfolding others_def
  by (auto simp: cluster_inv_def lease_step_def guarded_def lease_fits_def)

lemma happen_step:
  assumes i: "cluster_inv u (ref_snap ns nm u w)"
  shows "others u (ref_snap ns nm u w) (ref_snap ns nm u (happen ns nm u e w))"
proof (cases e)
  case (Tick d)
  then show ?thesis by (intro ref_same_step [OF i]) simp_all
next
  case (CreatePod name owners)
  have wf: "ref_wf ns nm u w" using ref_inv_wf [OF i] .
  let ?p = "created_pod ns nm u name owners w"
  have p: "mp_UID ?p \<notin> set (rw_uids w)" "mp_Namespace ?p = ns" "entry (mp_Annotations ?p) ManagedUID = u" "hasGate ?p"
    using fresh_new by (simp_all add: created_pod_def stamp_def hasGate_def)
  have new: "\<forall>q \<in> set (rw_pods w). mp_UID q \<noteq> mp_UID ?p" using p(1) wf by (auto simp: ref_wf_def)
  have "ref_wf ns nm u (happen ns nm u e w)"
    using wf p new CreatePod by (auto simp: ref_wf_def Let_def)
  then show ?thesis
    by (rule ref_pods_step [OF i]) (use CreatePod p new in \<open>auto simp: live_pods_def Let_def\<close>)
next
  case (Finish name)
  have wf: "ref_wf ns nm u w" using ref_inv_wf [OF i] .
  have "ref_wf ns nm u (happen ns nm u e w)"
    using wf Finish by (auto simp: ref_wf_def comp_def if_distrib [of mp_UID] cong: if_cong)
  then show ?thesis
    by (rule ref_pods_step [OF i]) (use Finish in \<open>auto simp: live_pods_def terminal_def hasGate_def split: if_splits\<close>)
next
  case (Vanish name)
  have wf: "ref_wf ns nm u w" using ref_inv_wf [OF i] .
  have "ref_wf ns nm u (happen ns nm u e w)"
    using wf Vanish by (auto simp: ref_wf_def distinct_map inj_on_def)
  then show ?thesis
    by (rule ref_pods_step [OF i]) (use Vanish in \<open>auto simp: live_pods_def\<close>)
next
  case RequestDeletion
  have wf: "ref_wf ns nm u w" using ref_inv_wf [OF i] .
  show ?thesis
  proof (cases "rw_lease w")
    case None
    then show ?thesis using RequestDeletion i by simp
  next
    case (Some l)
    have s: "cs_lease (ref_snap ns nm u w) = Some l" using Some wf by (simp add: ref_snap_def)
    show ?thesis
    proof (cases "bl_Finalizers l = []")
      case True
      have "ref_snap ns nm u (happen ns nm u e w) = (ref_snap ns nm u w)\<lparr>cs_lease := None\<rparr>"
        using wf RequestDeletion Some True by (simp add: ref_snap_def ref_wf_def live_pods_def)
      then show ?thesis using removal_step [OF i s] True by simp
    next
      case False
      obtain l' w' where w': "put_version (l\<lparr>bl_DeletionTimestamp := Some (rw_now w)\<rparr>) w = (l', w')" by fastforce
      have "bl_Namespace l = ns" "bl_Name l = nm" using wf Some by (simp_all add: ref_wf_def)
      then show ?thesis
        using ref_put_version [OF wf _ _ w'] deletion_step [OF i s] RequestDeletion Some False w' by auto
    qed
  qed
qed

lemma surroundings_harmless: "harmless (ref_snap ns nm u) u (surroundings ns nm u)"
  unfolding harmless_def surroundings_def
proof (intro allI impI)
  fix w a w'
  assume i: "cluster_inv u (ref_snap ns nm u w)"
    and run: "run_state (State (\<lambda>w. ((), case rw_script w of [] \<Rightarrow> w | e # es \<Rightarrow> happen ns nm u e (w\<lparr>rw_script := es\<rparr>)))) w = (a, w')"
  show "others u (ref_snap ns nm u w) (ref_snap ns nm u w')"
  proof (cases "rw_script w")
    case Nil
    then show ?thesis using run i by simp
  next
    case (Cons e es)
    have o: "others u (ref_snap ns nm u w) (ref_snap ns nm u (w\<lparr>rw_script := es\<rparr>))" by (rule ref_same_step [OF i]) simp_all
    show ?thesis
      using others_trans [OF i o happen_step [OF others_inv [OF i o]], of e] run Cons by simp
  qed
qed

section \<open>The operations of the API server\<close>

definition perform :: "string \<Rightarrow> string \<Rightarrow> string \<Rightarrow> (rworld \<Rightarrow> 'a \<times> rworld) \<Rightarrow> (rworld, 'a) state" where
  "perform ns nm u f = do { x \<leftarrow> surroundings ns nm u; State f }"

definition ref_reads :: "string \<Rightarrow> string \<Rightarrow> string \<Rightarrow> (rworld \<Rightarrow> 'a) \<Rightarrow> (rworld, 'a) state" where
  "ref_reads ns nm u f = perform ns nm u (\<lambda>w. (f w, w))"

definition found :: "'a option \<Rightarrow> 'a outcome" where
  "found x = (case x of None \<Rightarrow> Inl ErrNotFound | Some y \<Rightarrow> Inr y)"

definition lease_named :: "string \<Rightarrow> string \<Rightarrow> rworld \<Rightarrow> BerthLease option" where
  "lease_named a b w = (case rw_lease w of None \<Rightarrow> None | Some l \<Rightarrow> if bl_Namespace l = a \<and> bl_Name l = b then Some l else None)"

definition pod_named :: "string \<Rightarrow> string \<Rightarrow> rworld \<Rightarrow> mpod option" where
  "pod_named a b w = find (\<lambda>p. mp_Namespace p = a \<and> mp_Name p = b) (rw_pods w)"

definition pods_in :: "string \<Rightarrow> (string \<times> string) option \<Rightarrow> rworld \<Rightarrow> mpod list" where
  "pods_in a sel w =
     filter (\<lambda>p. mp_Namespace p = a \<and> (case sel of None \<Rightarrow> True | Some (k, v) \<Rightarrow> entry (mp_Labels p) k = v)) (rw_pods w)"

definition ref_UpdateLeaseStatus :: "BerthLease \<Rightarrow> rworld \<Rightarrow> BerthLease outcome \<times> rworld" where
  "ref_UpdateLeaseStatus l w =
     (case lease_named (bl_Namespace l) (bl_Name l) w of
        None \<Rightarrow> (Inl ErrNotFound, w)
      | Some l0 \<Rightarrow>
          if bl_ResourceVersion l0 \<noteq> bl_ResourceVersion l then (Inl ErrConflict, w)
          else (case put_version (l0\<lparr>bl_Status := bl_Status l\<rparr>) w of (l1, w') \<Rightarrow> (Inr l1, w')))"

definition ref_UpdateLease :: "BerthLease \<Rightarrow> rworld \<Rightarrow> BerthLease outcome \<times> rworld" where
  "ref_UpdateLease l w =
     (case lease_named (bl_Namespace l) (bl_Name l) w of
        None \<Rightarrow> (Inl ErrNotFound, w)
      | Some l0 \<Rightarrow>
          if bl_ResourceVersion l0 \<noteq> bl_ResourceVersion l then (Inl ErrConflict, w)
          else if bl_DeletionTimestamp l0 \<noteq> None \<and> bl_Finalizers l = [] then (Inr l, w\<lparr>rw_lease := None\<rparr>)
          else (case put_version (l0\<lparr>bl_Finalizers := bl_Finalizers l\<rparr>) w of (l1, w') \<Rightarrow> (Inr l1, w')))"

definition ref_Patch :: "uobj \<Rightarrow> uobj \<Rightarrow> rworld \<Rightarrow> goerr option \<times> rworld" where
  "ref_Patch orig obj w = (None, w\<lparr>rw_objs := map (\<lambda>x. if uo_UID x = uo_UID orig then obj else x) (rw_objs w)\<rparr>)"

definition ref_DeletePod :: "mpod \<Rightarrow> string \<Rightarrow> rworld \<Rightarrow> goerr option \<times> rworld" where
  "ref_DeletePod p uid w =
     (case pod_named (mp_Namespace p) (mp_Name p) w of
        None \<Rightarrow> (Some ErrNotFound, w)
      | Some q \<Rightarrow>
          if mp_UID q \<noteq> uid then (Some ErrConflict, w)
          else (None, w\<lparr>rw_pods := map (\<lambda>x. if mp_UID x = uid then x\<lparr>mp_DeletionTimestamp := Some (rw_now w)\<rparr> else x) (rw_pods w)\<rparr>))"

definition ref_UpdateJob :: "mjob \<Rightarrow> rworld \<Rightarrow> goerr option \<times> rworld" where
  "ref_UpdateJob j w = (None, w\<lparr>rw_jobs := map (\<lambda>x. if mj_UID x = mj_UID j then j else x) (rw_jobs w)\<rparr>)"

definition ref_DeleteJob :: "mjob \<Rightarrow> string \<Rightarrow> rworld \<Rightarrow> goerr option \<times> rworld" where
  "ref_DeleteJob j uid w = (None, w\<lparr>rw_jobs := filter (\<lambda>x. mj_UID x \<noteq> uid) (rw_jobs w)\<rparr>)"

definition ref_SetStatusCondition :: "Condition list \<Rightarrow> Condition \<Rightarrow> Condition list" where
  "ref_SetStatusCondition cs c = filter (\<lambda>x. cn_Type x \<noteq> cn_Type c) cs @ [c]"

text \<open>
  The update of a pod: the validating webhook decides, and the pod is stored if it is still the one
  that was validated.  Things may happen in between.
\<close>

definition ref_base :: "string \<Rightarrow> string \<Rightarrow> string \<Rightarrow> rworld kube" where
  "ref_base ns nm u =
     \<lparr>kc_Now = ref_reads ns nm u rw_now,
      kc_GetLease = (\<lambda>a b. ref_reads ns nm u (\<lambda>w. found (lease_named a b w))),
      kc_ListLeases = (\<lambda>a. ref_reads ns nm u (\<lambda>w. Inr (filter (\<lambda>l. bl_Namespace l = a) (case rw_lease w of None \<Rightarrow> [] | Some l \<Rightarrow> [l])))),
      kc_UpdateLease = (\<lambda>l. perform ns nm u (ref_UpdateLease l)),
      kc_UpdateLeaseStatus = (\<lambda>l. perform ns nm u (ref_UpdateLeaseStatus l)),
      kc_GetObj = (\<lambda>gv kind a b. ref_reads ns nm u (\<lambda>w. found (find (\<lambda>x. uo_APIVersion x = gv \<and> uo_Kind x = kind \<and>
          uo_Namespace x = a \<and> uo_Name x = b) (rw_objs w)))),
      kc_Patch = (\<lambda>orig obj owner. perform ns nm u (ref_Patch orig obj)),
      kc_GetPod = (\<lambda>a b. ref_reads ns nm u (\<lambda>w. found (pod_named a b w))),
      kc_ListPods = (\<lambda>a sel. ref_reads ns nm u (\<lambda>w. Inr (pods_in a sel w))),
      kc_UpdatePod = (\<lambda>p. ret (Some (ErrText ''read only''))),
      kc_DeletePod = (\<lambda>p uid. perform ns nm u (ref_DeletePod p uid)),
      kc_GetJob = (\<lambda>a b. ref_reads ns nm u (\<lambda>w. found (find (\<lambda>j. mj_Namespace j = a \<and> mj_Name j = b) (rw_jobs w)))),
      kc_ListJobs = (\<lambda>a sel. ref_reads ns nm u (\<lambda>w. Inr (filter (\<lambda>j. mj_Namespace j = a \<and>
          (case sel of None \<Rightarrow> True | Some (k, v) \<Rightarrow> entry (mj_Annotations j) k = v)) (rw_jobs w)))),
      kc_UpdateJob = (\<lambda>j. perform ns nm u (ref_UpdateJob j)),
      kc_DeleteJob = (\<lambda>j uid. perform ns nm u (ref_DeleteJob j uid)),
      kc_ParseGroupVersion = Inr,
      kc_SetStatusCondition = ref_SetStatusCondition\<rparr>"

definition ref_webhook :: WorkloadAdmission where
  "ref_webhook = \<lparr>wa_OperatorUser = ''system:serviceaccount:berth:operator'', wa_Mutate = False\<rparr>"

definition ref_review :: "mpod \<Rightarrow> admission_review" where
  "ref_review p =
     \<lparr>rq_SubResource = [], rq_Operation = OpUpdate, rq_Namespace = mp_Namespace p, rq_Name = mp_Name p, rq_APIVersion = ''v1'',
      rq_Kind = ''Pod'', rq_Object = [], rq_OldObject = [], rq_Username = wa_OperatorUser ref_webhook, rq_DryRun = None\<rparr>"

definition ref_validate :: "string \<Rightarrow> string \<Rightarrow> string \<Rightarrow> mpod \<Rightarrow> mpod \<Rightarrow> (rworld, response) state" where
  "ref_validate ns nm u p q =
     (if entry (mp_Annotations q) ManagedUID = [] then
        ret (if entry (mp_Annotations p) ManagedUID = [] then Allowed [] else Denied (ErrText ''managed binding has no matching live target lease''))
      else handle_validate (ref_base ns nm u) ref_webhook (ref_review p) (pod_uobj p) (Some (pod_uobj q))
        \<lparr>bd_name = entry (mp_Annotations q) ManagedLease, bd_uid = entry (mp_Annotations q) ManagedUID, bd_targetUID = mp_UID q\<rparr>)"

definition ref_admit :: "mpod \<Rightarrow> mpod \<Rightarrow> rworld \<Rightarrow> rworld" where
  "ref_admit p q w = (if hasGate q \<and> \<not> hasGate p then w\<lparr>rw_admitted := (mp_Name p, mp_UID p) # rw_admitted w\<rparr> else w)"

definition same_pod :: "mpod \<Rightarrow> mpod \<Rightarrow> bool" where
  "same_pod q x \<longleftrightarrow> mp_UID x = mp_UID q \<and> mp_Namespace x = mp_Namespace q \<and> mp_Name x = mp_Name q \<and>
     mp_SchedulingGates x = mp_SchedulingGates q \<and> entry (mp_Annotations x) ManagedUID = entry (mp_Annotations q) ManagedUID"

definition ref_store :: "mpod \<Rightarrow> mpod \<Rightarrow> rworld \<Rightarrow> goerr option \<times> rworld" where
  "ref_store p q w =
     (if list_ex (same_pod q) (rw_pods w)
      then (None, w\<lparr>rw_pods := map (\<lambda>x. if same_pod q x then p\<lparr>mp_Phase := mp_Phase x, mp_DeletionTimestamp := mp_DeletionTimestamp x\<rparr> else x) (rw_pods w)\<rparr>)
      else (Some ErrConflict, w))"

definition ref_UpdatePod :: "string \<Rightarrow> string \<Rightarrow> string \<Rightarrow> mpod \<Rightarrow> (rworld, goerr option) state" where
  "ref_UpdatePod ns nm u p =
     do {
       x \<leftarrow> ref_reads ns nm u (pod_named (mp_Namespace p) (mp_Name p));
       (case x of
          None \<Rightarrow> ret (Some ErrNotFound)
        | Some q \<Rightarrow>
            if mp_UID q \<noteq> mp_UID p then ret (Some ErrConflict)
            else do {
              v \<leftarrow> ref_validate ns nm u p q;
              (case v of
                 Allowed m \<Rightarrow> do { y \<leftarrow> State (\<lambda>w. ((), ref_admit p q w)); perform ns nm u (ref_store p q) }
               | Denied e \<Rightarrow> ret (Some e)
               | Errored n e \<Rightarrow> ret (Some e)
               | PatchResponse a b \<Rightarrow> ret (Some ErrConflict))
            })
     }"

definition ref_kube :: "string \<Rightarrow> string \<Rightarrow> string \<Rightarrow> rworld kube" where
  "ref_kube ns nm u = (ref_base ns nm u)\<lparr>kc_UpdatePod := ref_UpdatePod ns nm u\<rparr>"

section \<open>The central lease\<close>

definition ref_Acquire :: "string \<Rightarrow> string \<Rightarrow> string \<Rightarrow> duration \<Rightarrow> rworld \<Rightarrow> client_result outcome \<times> rworld" where
  "ref_Acquire a name holder ttl w =
     (case Manager_Acquire rfc1123 (MemStore_ops id None) (\<lambda>n. rw_now w) \<lparr>key_Namespace = a, key_Name = name\<rparr> holder ttl (rw_store w) of
        (z, s) \<Rightarrow> (map_sum id client_resultFrom z, w\<lparr>rw_store := s, rw_released := (case z of
            Inr r \<Rightarrow> if ar_Acquired r then filter (\<lambda>x. x \<noteq> (name, ar_Holder r, ar_FencingToken r)) (rw_released w) else rw_released w
          | Inl e \<Rightarrow> rw_released w)\<rparr>))"

definition ref_Release :: "string \<Rightarrow> string \<Rightarrow> string \<Rightarrow> int32 \<Rightarrow> rworld \<Rightarrow> goerr option \<times> rworld" where
  "ref_Release a name holder token w =
     (case Manager_Release rfc1123 (MemStore_ops id None) (rw_now w) \<lparr>key_Namespace = a, key_Name = name\<rparr> holder token (rw_store w) of
        (e, s) \<Rightarrow> (map_option (\<lambda>x. if errors_Is x ErrConflict then ClientErrConflict else x) e, w\<lparr>rw_store := s, rw_released := (name, holder, token) # rw_released w\<rparr>))"

definition ref_client :: "string \<Rightarrow> string \<Rightarrow> string \<Rightarrow> rworld LeaseClient" where
  "ref_client ns nm u =
     \<lparr>lc_Acquire = (\<lambda>budget a name holder ttl. perform ns nm u (ref_Acquire a name holder ttl)),
      lc_Renew = (\<lambda>budget a name holder token ttl. ret (Inl ErrConflict)),
      lc_Release = (\<lambda>budget a name holder token. perform ns nm u (ref_Release a name holder token))\<rparr>"

section \<open>The contract holds\<close>

lemma harmless_State:
  assumes "\<And>w. cluster_inv u (snap w) \<Longrightarrow> others u (snap w) (snap (snd (f w)))"
  shows "harmless snap u (State f)"
  using assms by (fastforce simp: harmless_def)

lemma perform_harmless:
  assumes "\<And>w. cluster_inv u (ref_snap ns nm u w) \<Longrightarrow> others u (ref_snap ns nm u w) (ref_snap ns nm u (snd (f w)))"
  shows "harmless (ref_snap ns nm u) u (perform ns nm u f)"
  unfolding perform_def by (intro harmless_bind [OF surroundings_harmless] harmless_State assms)

lemma reads_harmless: "harmless (ref_snap ns nm u) u (ref_reads ns nm u f)"
  unfolding ref_reads_def by (rule perform_harmless) simp

text \<open>The state in which an operation takes effect.\<close>

lemma perform_run:
  assumes "cluster_inv u (ref_snap ns nm u w)" "run_state (perform ns nm u f) w = (x, w')"
  obtains w1 where "others u (ref_snap ns nm u w) (ref_snap ns nm u w1)" "cluster_inv u (ref_snap ns nm u w1)" "ref_wf ns nm u w1" "f w1 = (x, w')"
proof -
  obtain y w1 where w1: "run_state (surroundings ns nm u) w = (y, w1)" "f w1 = (x, w')"
    using assms(2) by (auto simp: perform_def split: prod.splits)
  have o: "others u (ref_snap ns nm u w) (ref_snap ns nm u w1)" using harmlessD [OF surroundings_harmless assms(1) w1(1)] .
  have i: "cluster_inv u (ref_snap ns nm u w1)" using others_inv [OF assms(1) o] .
  show thesis using that o i ref_inv_wf [OF i] w1(2) by blast
qed

lemma reads_run:
  assumes "cluster_inv u (ref_snap ns nm u w)" "run_state (ref_reads ns nm u f) w = (x, w')"
  shows "cluster_inv u (ref_snap ns nm u w') \<and> ref_wf ns nm u w' \<and> x = f w'"
  using perform_run [OF assms(1) assms(2) [unfolded ref_reads_def]] by auto

lemma reads_conforms:
  assumes "stable u P" "\<And>w. cluster_inv u (ref_snap ns nm u w) \<Longrightarrow> ref_wf ns nm u w \<Longrightarrow> P (ref_snap ns nm u w) \<Longrightarrow> Q (f w) (ref_snap ns nm u w)"
  shows "conforms (ref_snap ns nm u) u P (ref_reads ns nm u f) Q"
  unfolding conforms_def
proof (intro allI impI)
  fix w x w'
  assume i: "cluster_inv u (ref_snap ns nm u w)" and p: "P (ref_snap ns nm u w)" and run: "run_state (ref_reads ns nm u f) w = (x, w')"
  have o: "others u (ref_snap ns nm u w) (ref_snap ns nm u w')" using harmlessD [OF reads_harmless i run] .
  have "P (ref_snap ns nm u w')" using assms(1) i p o unfolding stable_def by blast
  then show "others u (ref_snap ns nm u w) (ref_snap ns nm u w') \<and> Q x (ref_snap ns nm u w')"
    using o reads_run [OF i run] assms(2) by blast
qed

lemma lease_named_Some: "lease_named a b w = Some l \<Longrightarrow> rw_lease w = Some l \<and> bl_Namespace l = a \<and> bl_Name l = b"
  by (auto simp: lease_named_def split: option.splits if_splits)

lemma pod_named_Some: "pod_named a b w = Some p \<Longrightarrow> p \<in> set (rw_pods w) \<and> mp_Namespace p = a \<and> mp_Name p = b"
  by (auto simp: pod_named_def find_Some_iff)

lemma found_Inr: "found x = Inr y \<longleftrightarrow> x = Some y"
  by (simp add: found_def split: option.splits)

lemma status_wrote:
  assumes i: "cluster_inv u (ref_snap ns nm u w)" and run: "run_state (perform ns nm u (ref_UpdateLeaseStatus l)) w = (x, w')"
  shows "case x of Inr l1 \<Rightarrow> wrote_status u (ref_snap ns nm u w) l l1 (ref_snap ns nm u w')
    | Inl e \<Rightarrow> others u (ref_snap ns nm u w) (ref_snap ns nm u w')"
proof -
  obtain w1 where w1: "others u (ref_snap ns nm u w) (ref_snap ns nm u w1)" "ref_wf ns nm u w1" "ref_UpdateLeaseStatus l w1 = (x, w')"
    using perform_run [OF i run] by metis
  show ?thesis
  proof (cases x)
    case (Inl e)
    then have "w' = w1" using w1(3) by (auto simp: ref_UpdateLeaseStatus_def split: option.splits if_splits prod.splits)
    then show ?thesis using Inl w1(1) by simp
  next
    case (Inr l1)
    then obtain l0 where l0: "rw_lease w1 = Some l0" "bl_ResourceVersion l0 = bl_ResourceVersion l"
      "put_version (l0\<lparr>bl_Status := bl_Status l\<rparr>) w1 = (l1, w')"
      using w1(3) by (auto simp: ref_UpdateLeaseStatus_def split: option.splits if_splits prod.splits dest!: lease_named_Some)
    have "bl_Namespace l0 = ns" "bl_Name l0 = nm" using w1(2) l0(1) by (simp_all add: ref_wf_def)
    then show ?thesis
      using ref_put_version [OF w1(2) _ _ l0(3)] w1(1,2) l0(1,2) Inr unfolding wrote_status_def
      by (auto intro!: exI [of _ "ref_snap ns nm u w1"] exI [of _ "bl_Status l"])
  qed
qed

lemma meta_wrote:
  assumes i: "cluster_inv u (ref_snap ns nm u w)" and run: "run_state (perform ns nm u (ref_UpdateLease l)) w = (x, w')"
  shows "others u (ref_snap ns nm u w) (ref_snap ns nm u w') \<or> wrote_meta u (ref_snap ns nm u w) l (ref_snap ns nm u w')"
proof -
  obtain w1 where w1: "others u (ref_snap ns nm u w) (ref_snap ns nm u w1)" "ref_wf ns nm u w1" "ref_UpdateLease l w1 = (x, w')"
    using perform_run [OF i run] by metis
  show ?thesis
  proof (cases "w' = w1")
    case True
    then show ?thesis using w1(1) by simp
  next
    case False
    then obtain l0 where l0: "rw_lease w1 = Some l0" "bl_ResourceVersion l0 = bl_ResourceVersion l"
      "bl_Finalizers l = [] \<and> w' = w1\<lparr>rw_lease := None\<rparr> \<or> (\<exists>l1. put_version (l0\<lparr>bl_Finalizers := bl_Finalizers l\<rparr>) w1 = (l1, w'))"
      using w1(3) by (auto simp: ref_UpdateLease_def split: option.splits if_splits prod.splits dest!: lease_named_Some)
    have n: "bl_Namespace l0 = ns" "bl_Name l0 = nm" using w1(2) l0(1) by (simp_all add: ref_wf_def)
    have fresh: "map_of (rw_hist w1) (fresh (map fst (rw_hist w1))) = None"
      using fresh_new [of "map fst (rw_hist w1)"] by (simp add: map_of_eq_None_iff)
    have gone: "ref_snap ns nm u (w1\<lparr>rw_lease := None\<rparr>) = (ref_snap ns nm u w1)\<lparr>cs_lease := None\<rparr>"
      using w1(2) by (simp add: ref_snap_def ref_wf_def live_pods_def)
    from l0(3) show ?thesis
    proof (elim disjE exE conjE)
      fix l1
      assume "put_version (l0\<lparr>bl_Finalizers := bl_Finalizers l\<rparr>) w1 = (l1, w')"
      then have "ref_snap ns nm u w' = put_lease (ref_snap ns nm u w1)
          (l0\<lparr>bl_Finalizers := bl_Finalizers l, bl_ResourceVersion := fresh (map fst (rw_hist w1))\<rparr>)"
        using ref_put_version [OF w1(2), of "l0\<lparr>bl_Finalizers := bl_Finalizers l\<rparr>" l1 w'] n by simp
      then show ?thesis
        unfolding wrote_meta_def using w1(1,2) l0(1,2) fresh
        by (intro disjI2 exI [of _ "ref_snap ns nm u w1"] exI [of _ l0] exI [of _ "fresh (map fst (rw_hist w1))"]) simp
    next
      assume "bl_Finalizers l = []" "w' = w1\<lparr>rw_lease := None\<rparr>"
      then show ?thesis
        unfolding wrote_meta_def using w1(1,2) l0(1,2) fresh gone
        by (intro disjI2 exI [of _ "ref_snap ns nm u w1"] exI [of _ l0] exI [of _ "fresh (map fst (rw_hist w1))"]) simp
    qed
  qed
qed

lemma delete_step:
  assumes i: "cluster_inv u (ref_snap ns nm u w)"
  shows "others u (ref_snap ns nm u w) (ref_snap ns nm u (snd (ref_DeletePod p uid w)))"
proof (cases "snd (ref_DeletePod p uid w) = w")
  case True
  then show ?thesis using i by simp
next
  case False
  let ?w = "w\<lparr>rw_pods := map (\<lambda>x. if mp_UID x = uid then x\<lparr>mp_DeletionTimestamp := Some (rw_now w)\<rparr> else x) (rw_pods w)\<rparr>"
  have w': "snd (ref_DeletePod p uid w) = ?w"
    using False by (auto simp: ref_DeletePod_def split: option.splits if_splits)
  have "ref_wf ns nm u ?w"
    using ref_inv_wf [OF i] by (auto simp: ref_wf_def comp_def if_distrib [of mp_UID] cong: if_cong)
  then show ?thesis
    unfolding w' by (rule ref_pods_step [OF i]) (auto simp: live_pods_def terminal_def hasGate_def split: if_splits)
qed

section \<open>Updates of pods\<close>

text \<open>Once admitted, a pod may run; so at that moment it must be registered, unless it is gone.\<close>

definition covered :: "string \<Rightarrow> string \<times> string \<Rightarrow> csnap \<Rightarrow> bool" where
  "covered u p s \<longleftrightarrow> snd p \<in> cs_known s \<and> (snd p \<in> cs_live s \<longrightarrow> accounted u s p)"

lemma stable_covered: "stable u (covered u p)"
  unfolding stable_def covered_def using othersD(2,3) others_accounted by blast

lemma stable_admitted: "stable u (\<lambda>s. p \<in> cs_admitted s)"
  unfolding stable_def using othersD(7) by blast

lemma admit_step: "cluster_inv u s \<Longrightarrow> covered u p s \<Longrightarrow> others u s (s\<lparr>cs_admitted := insert p (cs_admitted s)\<rparr>)"
  by (auto simp: others_def covered_def cluster_inv_def lease_fits_def accounted_def tracked_def)

text \<open>What is known of a pod that was read: its UID was given out, and it is bound as its annotation says.\<close>

definition pod_seen :: "string \<Rightarrow> mpod \<Rightarrow> csnap \<Rightarrow> bool" where
  "pod_seen u q s \<longleftrightarrow> mp_UID q \<in> cs_known s \<and> (entry (mp_Annotations q) ManagedUID \<noteq> u \<longrightarrow> mp_UID q \<notin> cs_live s)"

lemma stable_pod_seen: "stable u (pod_seen u q)"
  unfolding stable_def pod_seen_def using othersD(2,3) by blast

lemma ref_pod_seen:
  assumes "ref_wf ns nm u w" "q \<in> set (rw_pods w)"
  shows "pod_seen u q (ref_snap ns nm u w)"
proof -
  have "p = q" if "p \<in> set (rw_pods w)" "mp_UID p = mp_UID q" for p
    using assms that by (auto simp: ref_wf_def distinct_map inj_on_def)
  then show ?thesis using assms by (auto simp: pod_seen_def live_pods_def) (auto simp: ref_wf_def)
qed

lemma gateOn_pod [simp]: "gateOn (uo_Body (pod_uobj p)) = hasGate p"
  by (auto simp: gateOn_def pod_uobj_def hasGate_def list_ex_iff)

lemma permit_covers:
  assumes "mp_UID p = mp_UID q" "mp_Name p = mp_Name q" "bd_uid b = entry (mp_Annotations q) ManagedUID"
  shows "conforms (ref_snap ns nm u) u (pod_seen u q) (validatePermit (ref_base ns nm u) (pod_uobj p) b)
    (\<lambda>e s. e = None \<longrightarrow> covered u (mp_Name p, mp_UID p) s)"
proof -
  have get: "conforms (ref_snap ns nm u) u (pod_seen u q) (kc_GetLease (ref_base ns nm u) a c)
      (\<lambda>r s. pod_seen u q s \<and> (\<forall>l. r = Inr l \<longrightarrow> cs_lease s = Some l))" for a c
    unfolding ref_base_def kube.simps
    by (rule reads_conforms [OF stable_pod_seen]) (auto simp: found_Inr dest: lease_named_Some)
  have now: "conforms (ref_snap ns nm u) u P (kc_Now (ref_base ns nm u)) (\<lambda>_. P)" if "stable u P" for P
    unfolding ref_base_def kube.simps by (rule conforms_stable [OF reads_harmless that])
  have reg: "conforms (ref_snap ns nm u) u (\<lambda>s. pod_seen u q s \<and> cs_lease s = Some l)
      (State_Monad.bind (kc_Now (ref_base ns nm u)) (\<lambda>now. ret (if \<not> activeAt l now then Some (ErrText ''lease no longer permits Pod starts'')
         else if \<not> registered l (mp_Name p) (mp_UID p) then Some (ErrText ''pod UID was not durably registered'') else None)))
      (\<lambda>e s. e = None \<longrightarrow> covered u (mp_Name p, mp_UID p) s)" if "bl_UID l = bd_uid b" for l
  proof (cases "(\<exists>now. activeAt l now) \<and> registered l (mp_Name p) (mp_UID p)")
    case True
    then obtain w where w: "workload l = Some w" "ws_Phase w = PhaseActive" "(mp_Name p, mp_UID p) \<in> pods_of w"
      using activeAt_workload by (force simp: registered_def pods_of_def list_ex_iff)
    have c: "covered u (mp_Name p, mp_UID p) s" if "pod_seen u q s" "cs_lease s = Some l" for s
      using that w assms \<open>bl_UID l = bd_uid b\<close> by (auto simp: covered_def pod_seen_def accounted_def tracked_def acc_def busy_def)
    have "conforms (ref_snap ns nm u) u (covered u (mp_Name p, mp_UID p))
        (State_Monad.bind (kc_Now (ref_base ns nm u)) (\<lambda>now. ret (if \<not> activeAt l now then Some (ErrText ''lease no longer permits Pod starts'')
         else if \<not> registered l (mp_Name p) (mp_UID p) then Some (ErrText ''pod UID was not durably registered'') else None)))
        (\<lambda>e s. e = None \<longrightarrow> covered u (mp_Name p, mp_UID p) s)"
      by (rule conforms_bind [OF now [OF stable_covered]], rule conforms_conseq [OF conforms_stable [OF harmless_ret stable_covered]]) auto
    then show ?thesis by (rule conforms_conseq) (use c in auto)
  next
    case False
    show ?thesis
      by (rule conforms_bind [OF conforms_conseq [OF now [OF stable_True]]]) (use False in \<open>auto simp: conforms_def\<close>)
  qed
  show ?thesis
    unfolding validatePermit_def
    by (rule conforms_bind [OF get], intro conforms_sum conforms_if)
      (auto simp: conforms_def pod_uobj_def dest: conformsD [OF reg])
qed

lemma validate_keeps_binding:
  assumes "validateManagedObject (pod_uobj p) (Some (pod_uobj q)) b oper = None"
  shows "entry (mp_Annotations p) ManagedUID = bd_uid b"
  using assms by (auto simp: validateManagedObject_def validateMetadata_def pod_uobj_def split: option.splits if_splits)

lemma validate_covers:
  assumes "mp_UID p = mp_UID q" "mp_Name p = mp_Name q"
  shows "conforms (ref_snap ns nm u) u (pod_seen u q) (ref_validate ns nm u p q)
    (\<lambda>v s. \<forall>m. v = Allowed m \<longrightarrow> entry (mp_Annotations p) ManagedUID = entry (mp_Annotations q) ManagedUID \<and>
       (hasGate q \<and> \<not> hasGate p \<longrightarrow> covered u (mp_Name p, mp_UID p) s))"
proof (cases "entry (mp_Annotations q) ManagedUID = []")
  case True
  have "u \<noteq> []" if "cluster_inv u (ref_snap ns nm u w)" for w using ref_inv_wf [OF that] by (simp add: ref_wf_def)
  with True assms show ?thesis by (auto simp: ref_validate_def conforms_def covered_def pod_seen_def)
next
  case False
  let ?b = "\<lparr>bd_name = entry (mp_Annotations q) ManagedLease, bd_uid = entry (mp_Annotations q) ManagedUID, bd_targetUID = mp_UID q\<rparr>"
  have permit: "conforms (ref_snap ns nm u) u (pod_seen u q) (validatePermit (ref_base ns nm u) (pod_uobj p) ?b)
      (\<lambda>e s. e = None \<longrightarrow> covered u (mp_Name p, mp_UID p) s)"
    by (rule permit_covers) (use assms in simp_all)
  have kind: "(uo_Kind (pod_uobj p) = ''Pod'') = True" by (simp add: pod_uobj_def)
  show ?thesis
    unfolding ref_validate_def handle_validate_def if_not_P [OF False] kind if_True option.case
    by (intro conforms_option conforms_if conforms_bind [OF permit])
      (auto simp: conforms_def to_response_def dest: validate_keeps_binding split: option.splits)
qed

lemma store_step:
  assumes i: "cluster_inv u (ref_snap ns nm u w)"
    and p: "mp_UID p = mp_UID q" "mp_Name p = mp_Name q" "mp_Namespace p = mp_Namespace q"
      "entry (mp_Annotations p) ManagedUID = entry (mp_Annotations q) ManagedUID"
    and adm: "hasGate q \<and> \<not> hasGate p \<longrightarrow> (mp_Name p, mp_UID p) \<in> set (rw_admitted w)"
  shows "others u (ref_snap ns nm u w) (ref_snap ns nm u (snd (ref_store p q w)))"
proof (cases "list_ex (same_pod q) (rw_pods w)")
  case False
  then show ?thesis using i by (simp add: ref_store_def)
next
  case True
  have wf: "ref_wf ns nm u w" using ref_inv_wf [OF i] .
  define g where "g = (\<lambda>x. if same_pod q x then p\<lparr>mp_Phase := mp_Phase x, mp_DeletionTimestamp := mp_DeletionTimestamp x\<rparr> else x)"
  have w': "snd (ref_store p q w) = w\<lparr>rw_pods := map g (rw_pods w)\<rparr>" using True by (simp add: ref_store_def g_def)
  have f: "mp_UID (g x) = mp_UID x" "mp_Namespace (g x) = mp_Namespace x" "mp_Name (g x) = mp_Name x"
    "entry (mp_Annotations (g x)) ManagedUID = entry (mp_Annotations x) ManagedUID" "terminal (g x) = terminal x"
    "\<not> hasGate (g x) \<Longrightarrow> \<not> hasGate x \<or> (mp_Name x, mp_UID x) \<in> set (rw_admitted w)" for x
    using p adm by (auto simp: g_def same_pod_def terminal_def hasGate_def split: if_splits)
  have wf': "ref_wf ns nm u (w\<lparr>rw_pods := map g (rw_pods w)\<rparr>)"
    using wf f(1,2,4) by (simp add: ref_wf_def comp_def)
  have live: "\<exists>x \<in> live_pods w. y = g x" if "y \<in> live_pods (w\<lparr>rw_pods := map g (rw_pods w)\<rparr>)" for y
    using that f(1,5) unfolding live_pods_def by auto
  show ?thesis
    unfolding w'
  proof (rule ref_pods_step [OF i wf'])
    fix y
    assume "y \<in> live_pods (w\<lparr>rw_pods := map g (rw_pods w)\<rparr>)"
    then obtain x where x: "x \<in> live_pods w" "y = g x" using live by blast
    show "\<exists>q. q \<in> live_pods w \<and> mp_UID q = mp_UID y" using x f(1) by metis
    show "(\<exists>q. q \<in> live_pods w \<and> \<not> hasGate q \<and> mp_Name q = mp_Name y \<and> mp_UID q = mp_UID y) \<or> (mp_Name y, mp_UID y) \<in> set (rw_admitted w)"
      if "\<not> hasGate y"
      using x f(1,3) f(6) [of x] that by metis
  qed simp_all
qed

lemma admit_conforms:
  "conforms (ref_snap ns nm u) u (\<lambda>s. hasGate q \<and> \<not> hasGate p \<longrightarrow> covered u (mp_Name p, mp_UID p) s)
    (State (\<lambda>w. ((), ref_admit p q w))) (\<lambda>_ s. hasGate q \<and> \<not> hasGate p \<longrightarrow> (mp_Name p, mp_UID p) \<in> cs_admitted s)"
  unfolding conforms_def
proof (intro allI impI)
  fix w a w'
  assume i: "cluster_inv u (ref_snap ns nm u w)"
    and c: "hasGate q \<and> \<not> hasGate p \<longrightarrow> covered u (mp_Name p, mp_UID p) (ref_snap ns nm u w)"
    and run: "run_state (State (\<lambda>w. ((), ref_admit p q w))) w = (a, w')"
  have wf: "ref_wf ns nm u w" using ref_inv_wf [OF i] .
  show "others u (ref_snap ns nm u w) (ref_snap ns nm u w') \<and>
      (hasGate q \<and> \<not> hasGate p \<longrightarrow> (mp_Name p, mp_UID p) \<in> cs_admitted (ref_snap ns nm u w'))"
  proof (cases "hasGate q \<and> \<not> hasGate p")
    case True
    let ?w = "w\<lparr>rw_admitted := (mp_Name p, mp_UID p) # rw_admitted w\<rparr>"
    have w': "w' = ?w" using run True by (simp add: ref_admit_def)
    have wf': "ref_wf ns nm u ?w" using wf by (simp add: ref_wf_def)
    have "ref_snap ns nm u w' = (ref_snap ns nm u w)\<lparr>cs_admitted := insert (mp_Name p, mp_UID p) (cs_admitted (ref_snap ns nm u w))\<rparr>"
      unfolding w' ref_snap_def if_P [OF wf] if_P [OF wf'] by (simp add: live_pods_def)
    then show ?thesis using admit_step [OF i] c True by simp
  next
    case False
    then show ?thesis using run i by (auto simp: ref_admit_def)
  qed
qed

lemma UpdatePod_harmless: "harmless (ref_snap ns nm u) u (ref_UpdatePod ns nm u p)"
proof -
  have first: "conforms (ref_snap ns nm u) u (\<lambda>_. True) (ref_reads ns nm u (pod_named (mp_Namespace p) (mp_Name p)))
      (\<lambda>x s. \<forall>q. x = Some q \<longrightarrow> mp_Namespace q = mp_Namespace p \<and> mp_Name q = mp_Name p \<and> pod_seen u q s)"
    by (rule reads_conforms [OF stable_True]) (auto dest!: pod_named_Some intro: ref_pod_seen)
  have last: "conforms (ref_snap ns nm u) u (\<lambda>s. hasGate q \<and> \<not> hasGate p \<longrightarrow> (mp_Name p, mp_UID p) \<in> cs_admitted s)
      (perform ns nm u (ref_store p q)) (\<lambda>_ _. True)"
    if "mp_UID p = mp_UID q" "mp_Name p = mp_Name q" "mp_Namespace p = mp_Namespace q"
      "entry (mp_Annotations p) ManagedUID = entry (mp_Annotations q) ManagedUID" for q
  proof -
    have "conforms (ref_snap ns nm u) u (\<lambda>s. hasGate q \<and> \<not> hasGate p \<longrightarrow> (mp_Name p, mp_UID p) \<in> cs_admitted s)
        (State (ref_store p q)) (\<lambda>_ _. True)"
      unfolding conforms_def
    proof (intro allI impI)
      fix w a w'
      assume i: "cluster_inv u (ref_snap ns nm u w)" and run: "run_state (State (ref_store p q)) w = (a, w')"
        and adm: "hasGate q \<and> \<not> hasGate p \<longrightarrow> (mp_Name p, mp_UID p) \<in> cs_admitted (ref_snap ns nm u w)"
      have "w' = snd (ref_store p q w)" using run by simp
      then show "others u (ref_snap ns nm u w) (ref_snap ns nm u w') \<and> True"
        using store_step [OF i that] adm ref_inv_wf [OF i] by simp
    qed
    then show ?thesis
      unfolding perform_def by (intro conforms_bind_harmless [OF surroundings_harmless] stable_imp stable_admitted)
  qed
  have mid: "conforms (ref_snap ns nm u) u (pod_seen u q) (State_Monad.bind (ref_validate ns nm u p q) (\<lambda>v. case v of
       Allowed m \<Rightarrow> State_Monad.bind (State (\<lambda>w. ((), ref_admit p q w))) (\<lambda>y. perform ns nm u (ref_store p q))
     | Denied e \<Rightarrow> ret (Some e) | Errored n e \<Rightarrow> ret (Some e) | PatchResponse a b \<Rightarrow> ret (Some ErrConflict))) (\<lambda>_ _. True)"
    if q: "mp_UID p = mp_UID q" "mp_Name p = mp_Name q" "mp_Namespace p = mp_Namespace q" for q :: mpod
  proof (rule conforms_bind [OF validate_covers [OF q(1,2)]])
    fix v
    let ?P = "\<lambda>s. \<forall>m. v = Allowed m \<longrightarrow> entry (mp_Annotations p) ManagedUID = entry (mp_Annotations q) ManagedUID \<and>
       (hasGate q \<and> \<not> hasGate p \<longrightarrow> covered u (mp_Name p, mp_UID p) s)"
    show "conforms (ref_snap ns nm u) u ?P (case v of
       Allowed m \<Rightarrow> State_Monad.bind (State (\<lambda>w. ((), ref_admit p q w))) (\<lambda>y. perform ns nm u (ref_store p q))
     | Denied e \<Rightarrow> ret (Some e) | Errored n e \<Rightarrow> ret (Some e) | PatchResponse a b \<Rightarrow> ret (Some ErrConflict)) (\<lambda>_ _. True)"
    proof (cases v)
      case (Allowed m)
      show ?thesis
      proof (rule conforms_assume)
        show "entry (mp_Annotations p) ManagedUID = entry (mp_Annotations q) ManagedUID" if "?P s" for s using that Allowed by auto
        show "conforms (ref_snap ns nm u) u ?P (case v of
           Allowed m \<Rightarrow> State_Monad.bind (State (\<lambda>w. ((), ref_admit p q w))) (\<lambda>y. perform ns nm u (ref_store p q))
         | Denied e \<Rightarrow> ret (Some e) | Errored n e \<Rightarrow> ret (Some e) | PatchResponse a b \<Rightarrow> ret (Some ErrConflict)) (\<lambda>_ _. True)"
          if "entry (mp_Annotations p) ManagedUID = entry (mp_Annotations q) ManagedUID"
          using Allowed by (auto intro!: conforms_conseq [OF conforms_bind [OF admit_conforms last [OF q that]]])
      qed
    qed (simp_all add: conforms_ret)
  qed
  have all: "conforms (ref_snap ns nm u) u (\<lambda>_. True) (ref_UpdatePod ns nm u p) (\<lambda>_ _. True)"
    unfolding ref_UpdatePod_def
  proof (rule conforms_bind [OF first], intro conforms_option conforms_if conforms_ret)
    fix x and q :: mpod
    assume x: "x = Some q" "\<not> mp_UID q \<noteq> mp_UID p"
    let ?P = "\<lambda>s. \<forall>q. x = Some q \<longrightarrow> mp_Namespace q = mp_Namespace p \<and> mp_Name q = mp_Name p \<and> pod_seen u q s"
    show "conforms (ref_snap ns nm u) u ?P (State_Monad.bind (ref_validate ns nm u p q) (\<lambda>v. case v of
       Allowed m \<Rightarrow> State_Monad.bind (State (\<lambda>w. ((), ref_admit p q w))) (\<lambda>y. perform ns nm u (ref_store p q))
     | Denied e \<Rightarrow> ret (Some e) | Errored n e \<Rightarrow> ret (Some e) | PatchResponse a b \<Rightarrow> ret (Some ErrConflict))) (\<lambda>_ _. True)"
      by (rule conforms_assume [of _ _ "mp_Namespace p = mp_Namespace q \<and> mp_Name p = mp_Name q"])
        (use x in \<open>auto intro!: conforms_conseq [OF mid]\<close>)
  qed
  then show ?thesis by (rule harmless_conforms)
qed

section \<open>The central lease and the contract\<close>

lemma released_snap:
  assumes "ref_wf ns nm u w"
  shows "ref_snap ns nm u (w\<lparr>rw_store := st, rw_released := rs\<rparr>) = (ref_snap ns nm u w)\<lparr>cs_released := set rs\<rparr>"
  using assms by (simp add: ref_snap_def ref_wf_def live_pods_def)

lemma ref_acquires:
  assumes i: "cluster_inv u (ref_snap ns nm u w)" and run: "run_state (perform ns nm u (ref_Acquire a name holder ttl)) w = (z, w')"
  shows "\<exists>s R. others u (ref_snap ns nm u w) s \<and> R \<subseteq> cs_released s \<and> ref_snap ns nm u w' = s\<lparr>cs_released := R\<rparr> \<and>
    (\<forall>res. z = Inr res \<longrightarrow> cr_Acquired res \<longrightarrow> (name, cr_Holder res, cr_FencingToken res) \<notin> R)"
proof -
  obtain w1 where w1: "others u (ref_snap ns nm u w) (ref_snap ns nm u w1)" "ref_wf ns nm u w1" "ref_Acquire a name holder ttl w1 = (z, w')"
    using perform_run [OF i run] by metis
  have "\<exists>rs st. w' = w1\<lparr>rw_store := st, rw_released := rs\<rparr> \<and> set rs \<subseteq> set (rw_released w1) \<and>
      (\<forall>res. z = Inr res \<longrightarrow> cr_Acquired res \<longrightarrow> (name, cr_Holder res, cr_FencingToken res) \<notin> set rs)"
    using w1(3) unfolding ref_Acquire_def
    by (cases "fst (Manager_Acquire rfc1123 (MemStore_ops id None) (\<lambda>n. rw_now w1) \<lparr>key_Namespace = a, key_Name = name\<rparr> holder ttl (rw_store w1))")
      (auto simp: client_resultFrom_def split: prod.splits if_splits intro!: exI)
  then obtain rs st where rs: "w' = w1\<lparr>rw_store := st, rw_released := rs\<rparr>" "set rs \<subseteq> set (rw_released w1)"
    "\<forall>res. z = Inr res \<longrightarrow> cr_Acquired res \<longrightarrow> (name, cr_Holder res, cr_FencingToken res) \<notin> set rs" by blast
  show ?thesis
    by (rule exI [of _ "ref_snap ns nm u w1"], rule exI [of _ "set rs"]) (use rs w1(1,2) released_snap [OF w1(2)] in simp)
qed

lemma ref_releases:
  assumes i: "cluster_inv u (ref_snap ns nm u w)" and run: "run_state (perform ns nm u (ref_Release a name holder token)) w = (e, w')"
  shows "\<exists>s R. others u (ref_snap ns nm u w) s \<and> R \<subseteq> insert (name, holder, token) (cs_released s) \<and> ref_snap ns nm u w' = s\<lparr>cs_released := R\<rparr>"
proof -
  obtain w1 where w1: "others u (ref_snap ns nm u w) (ref_snap ns nm u w1)" "ref_wf ns nm u w1" "ref_Release a name holder token w1 = (e, w')"
    using perform_run [OF i run] by metis
  then obtain st where "w' = w1\<lparr>rw_store := st, rw_released := (name, holder, token) # rw_released w1\<rparr>"
    by (auto simp: ref_Release_def split: prod.splits)
  then show ?thesis
    using w1(1,2) released_snap [OF w1(2)]
    by (intro exI [of _ "ref_snap ns nm u w1"] exI [of _ "insert (name, holder, token) (set (rw_released w1))"]) simp
qed

lemma ref_kube_sel [simp]:
  "kc_Now (ref_kube ns nm u) = ref_reads ns nm u rw_now"
  "kc_GetLease (ref_kube ns nm u) = (\<lambda>a b. ref_reads ns nm u (\<lambda>w. found (lease_named a b w)))"
  "kc_UpdateLease (ref_kube ns nm u) = (\<lambda>l. perform ns nm u (ref_UpdateLease l))"
  "kc_UpdateLeaseStatus (ref_kube ns nm u) = (\<lambda>l. perform ns nm u (ref_UpdateLeaseStatus l))"
  "kc_GetPod (ref_kube ns nm u) = (\<lambda>a b. ref_reads ns nm u (\<lambda>w. found (pod_named a b w)))"
  "kc_ListPods (ref_kube ns nm u) = (\<lambda>a sel. ref_reads ns nm u (\<lambda>w. Inr (pods_in a sel w)))"
  "kc_UpdatePod (ref_kube ns nm u) = ref_UpdatePod ns nm u"
  "kc_DeletePod (ref_kube ns nm u) = (\<lambda>p uid. perform ns nm u (ref_DeletePod p uid))"
  by (simp_all add: ref_kube_def ref_base_def)

lemma ref_other_ops:
  "harmless (ref_snap ns nm u) u (kc_ListLeases (ref_kube ns nm u) a)"
  "harmless (ref_snap ns nm u) u (kc_GetObj (ref_kube ns nm u) gv kind a b)"
  "harmless (ref_snap ns nm u) u (kc_Patch (ref_kube ns nm u) ob ob' owner)"
  "harmless (ref_snap ns nm u) u (kc_GetJob (ref_kube ns nm u) a b)"
  "harmless (ref_snap ns nm u) u (kc_ListJobs (ref_kube ns nm u) a sel)"
  "harmless (ref_snap ns nm u) u (kc_UpdateJob (ref_kube ns nm u) j)"
  "harmless (ref_snap ns nm u) u (kc_DeleteJob (ref_kube ns nm u) j uid)"
  unfolding ref_kube_def ref_base_def kube.simps
  by (rule reads_harmless perform_harmless ref_same_step | assumption | simp add: ref_Patch_def ref_UpdateJob_def ref_DeleteJob_def)+

lemma live_listed:
  assumes "ref_wf ns nm u w" "x \<in> cs_live (ref_snap ns nm u w)"
  shows "\<exists>p \<in> set (pods_in ns None w). mp_UID p = x \<and> \<not> terminal p \<and> entry (mp_Annotations p) ManagedUID = u"
  using assms by (auto simp: pods_in_def live_pods_def) (auto simp: ref_wf_def)

lemma pods_known: "ref_wf ns nm u w \<Longrightarrow> p \<in> set (rw_pods w) \<Longrightarrow> mp_UID p \<in> cs_known (ref_snap ns nm u w)"
  by simp (auto simp: ref_wf_def)

interpretation rc: managed_cluster "ref_kube ns nm u" "ref_client ns nm u" "ref_snap ns nm u" ns nm u for ns nm u
proof unfold_locales
  show "harmless (ref_snap ns nm u) u (kc_UpdatePod (ref_kube ns nm u) p)" for p by (simp add: UpdatePod_harmless)
  show "harmless (ref_snap ns nm u) u (kc_DeletePod (ref_kube ns nm u) p uid)" for p uid
    by (auto intro: perform_harmless delete_step)
next
  fix w a b l w'
  assume i: "cluster_inv u (ref_snap ns nm u w)" and run: "run_state (kc_GetLease (ref_kube ns nm u) a b) w = (Inr l, w')"
  have "ref_wf ns nm u w' \<and> lease_named a b w' = Some l" using reads_run [OF i run [unfolded ref_kube_sel]] by (auto dest: sym simp: found_Inr)
  then show "bl_Namespace l = a \<and> bl_Name l = b \<and> ((a, b) = (ns, nm) \<longrightarrow> cs_lease (ref_snap ns nm u w') = Some l)"
    by (auto dest: lease_named_Some)
next
  fix w a b p w'
  assume i: "cluster_inv u (ref_snap ns nm u w)" and run: "run_state (kc_GetPod (ref_kube ns nm u) a b) w = (Inr p, w')"
  have "ref_wf ns nm u w' \<and> pod_named a b w' = Some p" using reads_run [OF i run [unfolded ref_kube_sel]] by (auto dest: sym simp: found_Inr)
  then show "mp_Namespace p = a" by (auto dest: pod_named_Some)
next
  fix w b p w'
  assume i: "cluster_inv u (ref_snap ns nm u w)" and run: "run_state (kc_GetPod (ref_kube ns nm u) ns b) w = (Inr p, w')"
  have "ref_wf ns nm u w' \<and> pod_named ns b w' = Some p" using reads_run [OF i run [unfolded ref_kube_sel]] by (auto dest: sym simp: found_Inr)
  then show "mp_UID p \<in> cs_known (ref_snap ns nm u w')" using pods_known by (auto dest!: pod_named_Some)
next
  fix w sel ps w'
  assume i: "cluster_inv u (ref_snap ns nm u w)" and run: "run_state (kc_ListPods (ref_kube ns nm u) ns sel) w = (Inr ps, w')"
  have "ref_wf ns nm u w' \<and> ps = pods_in ns sel w'" using reads_run [OF i run [unfolded ref_kube_sel]] by simp
  moreover have "set (pods_in ns sel w') \<subseteq> set (rw_pods w')" by (auto simp: pods_in_def)
  ultimately show "mp_UID ` set ps \<subseteq> cs_known (ref_snap ns nm u w') \<and> (sel = None \<longrightarrow> (\<forall>i \<in> cs_live (ref_snap ns nm u w').
      \<exists>p \<in> set ps. mp_UID p = i \<and> \<not> terminal p \<and> entry (mp_Annotations p) ManagedUID = u))"
    using pods_known live_listed by blast
next
  fix w l x w'
  assume i: "cluster_inv u (ref_snap ns nm u w)" and run: "run_state (kc_UpdateLeaseStatus (ref_kube ns nm u) l) w = (x, w')"
    and n: "(bl_Namespace l, bl_Name l) \<noteq> (ns, nm)"
  obtain w1 where w1: "others u (ref_snap ns nm u w) (ref_snap ns nm u w1)" "ref_wf ns nm u w1" "ref_UpdateLeaseStatus l w1 = (x, w')"
    using perform_run [OF i] run by (metis ref_kube_sel(4))
  have "lease_named (bl_Namespace l) (bl_Name l) w1 = None"
    using n w1(2) by (auto simp: ref_wf_def lease_named_def split: option.splits)
  then show "others u (ref_snap ns nm u w) (ref_snap ns nm u w')" using w1 by (simp add: ref_UpdateLeaseStatus_def)
next
  fix w l x w'
  assume i: "cluster_inv u (ref_snap ns nm u w)" and run: "run_state (kc_UpdateLeaseStatus (ref_kube ns nm u) l) w = (x, w')"
  show "case x of Inr l1 \<Rightarrow> wrote_status u (ref_snap ns nm u w) l l1 (ref_snap ns nm u w')
    | Inl e \<Rightarrow> others u (ref_snap ns nm u w) (ref_snap ns nm u w') \<or> (\<exists>l1. wrote_status u (ref_snap ns nm u w) l l1 (ref_snap ns nm u w'))"
    using status_wrote [OF i run [unfolded ref_kube_sel]] by (cases x) simp_all
next
  fix w l y w'
  assume i: "cluster_inv u (ref_snap ns nm u w)" and run: "run_state (kc_UpdateLease (ref_kube ns nm u) l) w = (y, w')"
  show "others u (ref_snap ns nm u w) (ref_snap ns nm u w') \<or> wrote_meta u (ref_snap ns nm u w) l (ref_snap ns nm u w')"
    by (rule meta_wrote [OF i run [unfolded ref_kube_sel]])
next
  fix w budget a name holder ttl z w'
  assume "cluster_inv u (ref_snap ns nm u w)" "run_state (lc_Acquire (ref_client ns nm u) budget a name holder ttl) w = (z, w')"
  then show "\<exists>s R. others u (ref_snap ns nm u w) s \<and> R \<subseteq> cs_released s \<and> ref_snap ns nm u w' = s\<lparr>cs_released := R\<rparr> \<and>
    (\<forall>res. z = Inr res \<longrightarrow> cr_Acquired res \<longrightarrow> (name, cr_Holder res, cr_FencingToken res) \<notin> R)"
    by (intro ref_acquires) (simp_all add: ref_client_def)
next
  fix w budget a name holder token e w'
  assume "cluster_inv u (ref_snap ns nm u w)" "run_state (lc_Release (ref_client ns nm u) budget a name holder token) w = (e, w')"
  then show "\<exists>s R. others u (ref_snap ns nm u w) s \<and> R \<subseteq> insert (name, holder, token) (cs_released s) \<and> ref_snap ns nm u w' = s\<lparr>cs_released := R\<rparr>"
    by (intro ref_releases) (simp_all add: ref_client_def)
qed (simp_all add: reads_harmless ref_other_ops)

section \<open>A sample world\<close>

text \<open>A deployment with one running pod, just before the lease is renewed.\<close>

definition demo_spec :: BerthLeaseSpec where
  "demo_spec =
     \<lparr>bs_LeaseName = ''billing'', bs_HolderIdentity = ''east'', bs_TTLSeconds = 30, bs_HeartbeatIntervalSeconds = 10, bs_Semantics = [],
      bs_Target = Some \<lparr>tr_APIVersion = ''apps/v1'', tr_Kind = ''Deployment'', tr_Name = ''web''\<rparr>,
      bs_AcquireAction = Some \<lparr>la_Suspend = None, la_Scale = Some \<lparr>sc_Replicas = 1\<rparr>\<rparr>,
      bs_ReleaseAction = Some \<lparr>la_Suspend = None, la_Scale = Some \<lparr>sc_Replicas = 0\<rparr>\<rparr>\<rparr>"

definition demo_workload :: WorkloadStatus where
  "demo_workload =
     \<lparr>ws_TargetUID = ''t'', ws_Phase = PhaseActive, ws_Deadline = Some (1000 * second), ws_LeaseName = ''billing'', ws_Holder = ''east'',
      ws_Token = 1, ws_Pods = [\<lparr>pp_Name = ''web-0'', pp_UID = ''p''\<rparr>]\<rparr>"

definition demo_lease :: BerthLease where
  "demo_lease =
     \<lparr>bl_Namespace = ''ns'', bl_Name = ''web'', bl_UID = ''u'', bl_ResourceVersion = ''1'', bl_Generation = 1,
      bl_Finalizers = [FinalizerName], bl_DeletionTimestamp = None, bl_Spec = demo_spec,
      bl_Status = \<lparr>bt_Workload = Some demo_workload, bt_ObservedGeneration = 1, bt_LeaseState = StateHeld, bt_CurrentHolder = ''east'',
        bt_Tenant = [], bt_AcquiredAt = None, bt_ExpiresAt = None, bt_LastHeartbeat = None, bt_FencingToken = 1, bt_Conditions = []\<rparr>\<rparr>"

definition demo_binding :: "string \<rightharpoonup> string" where
  "demo_binding = [ManagedLease \<mapsto> ''web'', ManagedUID \<mapsto> ''u'']"

definition demo_owner :: owner_reference where
  "demo_owner = \<lparr>or_APIVersion = ''apps/v1'', or_Kind = ''Deployment'', or_Name = ''web'', or_UID = ''t'', or_Controller = Some True\<rparr>"

definition demo_pod :: mpod where
  "demo_pod =
     \<lparr>mp_Namespace = ''ns'', mp_Name = ''web-0'', mp_UID = ''p'', mp_ResourceVersion = [], mp_Labels = demo_binding,
      mp_Annotations = demo_binding, mp_OwnerReferences = [demo_owner], mp_SchedulingGates = [], mp_Phase = ''Running'', mp_DeletionTimestamp = None\<rparr>"

definition demo_target :: uobj where
  "demo_target =
     \<lparr>uo_APIVersion = ''apps/v1'', uo_Kind = ''Deployment'', uo_Namespace = ''ns'', uo_Name = ''web'', uo_UID = ''t'', uo_ResourceVersion = [],
      uo_Labels = demo_binding, uo_Annotations = demo_binding, uo_OwnerReferences = [], uo_Suspend = Absent, uo_Replicas = Present 1,
      uo_Body = \<lparr>pb_Gates = Absent, pb_NodeName = Absent, pb_Rest = []\<rparr>, uo_Template = Absent, uo_JobTemplate = Absent\<rparr>"

definition demo_world :: rworld where
  "demo_world =
     \<lparr>rw_now = 990 * second, rw_script = [Tick 0, CreatePod ''web-1'' [demo_owner]], rw_lease = Some demo_lease, rw_hist = [(''1'', demo_lease)],
      rw_pods = [demo_pod], rw_jobs = [], rw_objs = [demo_target], rw_uids = [''p''], rw_bound = [''p''], rw_admitted = [(''web-0'', ''p'')],
      rw_released = [], rw_store = NewMemStore\<rparr>"

definition demo_reconciler :: BerthLeaseReconciler where
  "demo_reconciler = \<lparr>rc_ClusterIdentity = ''east'', rc_ManagedWorkloads = True, rc_OperatorNamespace = ''berth''\<rparr>"

end
