(* ===== verification/Operator_Gate.thy ===== *)
theory Operator_Gate
  imports Operator_Reference
begin

text \<open>
  What the admission of managed workloads guarantees by itself, for every API server: when it lets
  the scheduling gate of a pod go, and that an object it has stamped passes its own validation.
\<close>

section \<open>Removing the gate\<close>

lemma validatePermit_None:
  assumes "run_state (validatePermit K obj b) w = (None, w')"
  shows "\<exists>l w1 now. run_state (kc_GetLease K (uo_Namespace obj) (bd_name b)) w = (Inr l, w1) \<and> bl_UID l = bd_uid b \<and>
    run_state (kc_Now K) w1 = (now, w') \<and> activeAt l now \<and> registered l (uo_Name obj) (uo_UID obj)"
  using assms by (auto simp: validatePermit_def split: prod.splits sum.splits if_splits)

lemma pod_update_valid:
  assumes "validateManagedObject obj (Some old) b oper = None" "uo_Kind obj = ''Pod''" "gateOn (uo_Body old)" "\<not> gateOn (uo_Body obj)"
  shows "oper \<and> uo_OwnerReferences obj = uo_OwnerReferences old \<and>
    nested_or [] (pb_NodeName (uo_Body obj)) = nested_or [] (pb_NodeName (uo_Body old)) \<and>
    entry (uo_Annotations obj) ManagedLease = bd_name b \<and> entry (uo_Annotations obj) ManagedUID = bd_uid b \<and>
    entry (uo_Labels obj) ManagedUID = bd_uid b"
  using assms
  by (auto simp: validateManagedObject_def validateMetadata_def managed_body_def check_body_def check_pod_update_def split: if_splits)

text \<open>
  C38.  An update that removes the scheduling gate of a managed pod is allowed by the validating webhook only if it is
  sent by the operator, keeps the binding, the owners and the node of the pod, and the lease that
  is stored under the pod's binding at that moment has the UID the pod is bound to, is active (not
  being deleted, before its deadline, with a positive token) and lists the pod by name and UID.
  This holds for every API server, whatever its operations do.
\<close>

theorem gate_removal_is_permitted:
  assumes hook: "\<not> wa_Mutate h" "rq_SubResource req \<noteq> ''binding''" "rq_Operation req = OpUpdate" "rq_Kind req = ''Pod''"
    and objs: "jc_Unmarshal C (rq_Object req) = Inr obj" "jc_Unmarshal C (rq_OldObject req) = Inr old"
    and old: "entry (uo_Annotations old) ManagedUID \<noteq> []" "gateOn (uo_Body old)" and new: "\<not> gateOn (uo_Body obj)"
    and allowed: "run_state (Handle K C h req) w = (Allowed m, w')"
  shows "rq_Username req = wa_OperatorUser h \<and> uo_OwnerReferences obj = uo_OwnerReferences old \<and>
    nested_or [] (pb_NodeName (uo_Body obj)) = nested_or [] (pb_NodeName (uo_Body old)) \<and>
    entry (uo_Annotations obj) ManagedLease = entry (uo_Annotations old) ManagedLease \<and>
    entry (uo_Annotations obj) ManagedUID = entry (uo_Annotations old) ManagedUID \<and>
    (\<exists>l w1 now. run_state (kc_GetLease K (rq_Namespace req) (entry (uo_Annotations old) ManagedLease)) w = (Inr l, w1) \<and>
       bl_UID l = entry (uo_Annotations old) ManagedUID \<and> run_state (kc_Now K) w1 = (now, w') \<and> activeAt l now \<and>
       registered l (uo_Name obj) (uo_UID obj))"
proof -
  let ?obj = "request_object req obj" and ?old = "request_object req old"
  let ?b = "\<lparr>bd_name = entry (uo_Annotations old) ManagedLease, bd_uid = entry (uo_Annotations old) ManagedUID, bd_targetUID = uo_UID old\<rparr>"
  have "run_state (handle_validate K h req ?obj (Some ?old) ?b) w = (Allowed m, w')"
    using allowed hook objs old(1) by (simp add: Handle_def handle_object_def handle_bound_def request_object_def)
  then have v: "validateManagedObject ?obj (Some ?old) ?b (rq_Username req = wa_OperatorUser h) = None"
    and p: "run_state (validatePermit K ?obj ?b) w = (None, w')"
    using hook(4) old(2) new
    by (auto simp: handle_validate_def request_object_def to_response_def split: option.splits prod.splits)
  show ?thesis
    using pod_update_valid [OF v] validatePermit_None [OF p] hook(4) old(2) new by (simp add: request_object_def)
qed

definition demo_codec :: codec where
  "demo_codec =
     \<lparr>jc_Unmarshal = (\<lambda>s. Inr (pod_uobj (if s = ''old'' then demo_pod\<lparr>mp_SchedulingGates := [SchedulingGate]\<rparr> else demo_pod))),
      jc_Marshal = (\<lambda>x. Inl (ErrText ''read only'')), jc_BindingUID = Inr\<rparr>"

definition demo_review :: admission_review where
  "demo_review = (ref_review demo_pod)\<lparr>rq_Object := ''new'', rq_OldObject := ''old''\<rparr>"

definition demo_handle :: "response \<times> rworld" where
  "demo_handle = run_state (Handle (ref_kube ''ns'' ''web'' ''u'') demo_codec ref_webhook demo_review) demo_world"

lemma demo_allowed: "fst demo_handle = Allowed []"
  by code_simp

theorem gate_removal_is_permitted_witness:
  "fst demo_handle = Allowed [] \<and> rq_Username demo_review = wa_OperatorUser ref_webhook \<and>
   (\<exists>l w1 now. run_state (kc_GetLease (ref_kube ''ns'' ''web'' ''u'') ''ns'' ''web'') demo_world = (Inr l, w1) \<and> bl_UID l = ''u'' \<and>
      run_state (kc_Now (ref_kube ''ns'' ''web'' ''u'')) w1 = (now, snd demo_handle) \<and> activeAt l now \<and> registered l ''web-0'' ''p'')"
proof -
  let ?old = "pod_uobj (demo_pod\<lparr>mp_SchedulingGates := [SchedulingGate]\<rparr>)"
  have run: "run_state (Handle (ref_kube ''ns'' ''web'' ''u'') demo_codec ref_webhook demo_review) demo_world = (Allowed [], snd demo_handle)"
    using demo_allowed by (metis demo_handle_def prod.collapse)
  have e: "entry demo_binding ManagedUID = ''u''" "entry demo_binding ManagedLease = ''web''" by (simp_all add: demo_binding_def)
  show ?thesis
    using gate_removal_is_permitted [OF _ _ _ _ _ _ _ _ _ run, of "pod_uobj demo_pod" ?old] demo_allowed e
    by (simp add: demo_review_def demo_codec_def ref_webhook_def ref_review_def demo_pod_def hasGate_def)
      (simp add: pod_uobj_def)
qed

section \<open>Stamping\<close>

lemma stamp_valid: "stamp b (ls, as) = (ls', as') \<Longrightarrow> validateMetadata (ls', as') b = None \<and> stamp b (ls', as') = (ls', as')"
  by (auto simp: stamp_def validateMetadata_def)

lemma stamp_gates_valid:
  assumes "stamp_gates body = Inr body'"
  shows "gateOn body' \<and> stamp_gates body' = Inr body' \<and> pb_NodeName body' = pb_NodeName body \<and> pb_Rest body' = pb_Rest body"
proof (cases "pb_Gates body")
  case Absent
  then have "body' = body\<lparr>pb_Gates := Present [Some SchedulingGate]\<rparr>"
    using assms by (simp add: stamp_gates_def gateOn_def)
  then show ?thesis by (simp add: stamp_gates_def gateOn_def)
next
  case (WrongType e)
  then show ?thesis using assms by (simp add: stamp_gates_def)
next
  case (Present gs)
  then have "body' = body\<lparr>pb_Gates := Present (if gateOn body then gs else gs @ [Some SchedulingGate])\<rparr>"
    using assms by (simp add: stamp_gates_def)
  then show ?thesis using Present by (simp add: stamp_gates_def gateOn_def)
qed

lemma stamped_pod:
  assumes "stampBinding obj b = Inr obj'" "uo_Kind obj = ''Pod''"
  shows "\<exists>ls as body. stamp b (uo_Labels obj, uo_Annotations obj) = (ls, as) \<and> stamp_gates (uo_Body obj) = Inr body \<and>
    obj' = obj\<lparr>uo_Labels := ls, uo_Annotations := as, uo_Body := body\<rparr>"
  using assms by (auto simp: stampBinding_def bindingMetadata_def Let_def split: prod.splits sum.splits)

lemma stamped_template:
  assumes "stampBinding obj b = Inr obj'" "uo_Kind obj \<noteq> ''Pod''"
  shows "\<exists>ls as t tl ta body jt. stamp b (uo_Labels obj, uo_Annotations obj) = (ls, as) \<and> uo_Template obj = Present t \<and>
    stamp b (tp_Labels t, tp_Annotations t) = (tl, ta) \<and> stamp_gates (tp_Body t) = Inr body \<and>
    (uo_Kind obj \<noteq> ''CronJob'' \<longrightarrow> jt = uo_JobTemplate obj) \<and>
    (uo_Kind obj = ''CronJob'' \<longrightarrow> jt = Present (stamp b (nested_or (Map.empty, Map.empty) (uo_JobTemplate obj)))) \<and>
    obj' = obj\<lparr>uo_Labels := ls, uo_Annotations := as, uo_Template := Present \<lparr>tp_Labels = tl, tp_Annotations = ta, tp_Body = body\<rparr>,
      uo_JobTemplate := jt\<rparr>"
  using assms
  by (auto simp: stampBinding_def bindingMetadata_def Let_def split: prod.splits sum.splits nested.splits if_splits)

text \<open>The node name that the spec of the pod or of the pod template asks for.\<close>

definition wanted_node :: "uobj \<Rightarrow> string" where
  "wanted_node obj =
     (if uo_Kind obj = ''Pod'' then nested_or [] (pb_NodeName (uo_Body obj))
      else (case uo_Template obj of Present t \<Rightarrow> nested_or [] (pb_NodeName (tp_Body t)) | _ \<Rightarrow> []))"

text \<open>
  C39.  Whatever the mutating webhook stamps is accepted by the validation of the same binding, unless it asks for
  a node by itself; stamping it again changes nothing; and neither its identity nor its owners change.
\<close>

theorem stamped_object_is_valid:
  assumes stamped: "stampBinding obj b = Inr obj'" and node: "wanted_node obj = []"
  shows "validateManagedObject obj' None b oper = None \<and> stampBinding obj' b = Inr obj' \<and>
    uo_UID obj' = uo_UID obj \<and> uo_Name obj' = uo_Name obj \<and> uo_Namespace obj' = uo_Namespace obj \<and> uo_Kind obj' = uo_Kind obj \<and>
    uo_OwnerReferences obj' = uo_OwnerReferences obj"
proof (cases "uo_Kind obj = ''Pod''")
  case True
  then obtain ls as body where s: "stamp b (uo_Labels obj, uo_Annotations obj) = (ls, as)" "stamp_gates (uo_Body obj) = Inr body"
    "obj' = obj\<lparr>uo_Labels := ls, uo_Annotations := as, uo_Body := body\<rparr>"
    using stamped_pod [OF stamped] by blast
  then show ?thesis
    using True node stamp_valid [OF s(1)] stamp_gates_valid [OF s(2)]
    by (simp add: validateManagedObject_def managed_body_def check_body_def wanted_node_def stampBinding_def bindingMetadata_def)
next
  case False
  then obtain ls as t tl ta body jt where s: "stamp b (uo_Labels obj, uo_Annotations obj) = (ls, as)" "uo_Template obj = Present t"
    "stamp b (tp_Labels t, tp_Annotations t) = (tl, ta)" "stamp_gates (tp_Body t) = Inr body"
    "uo_Kind obj \<noteq> ''CronJob'' \<longrightarrow> jt = uo_JobTemplate obj"
    "uo_Kind obj = ''CronJob'' \<longrightarrow> jt = Present (stamp b (nested_or (Map.empty, Map.empty) (uo_JobTemplate obj)))"
    "obj' = obj\<lparr>uo_Labels := ls, uo_Annotations := as, uo_Template := Present \<lparr>tp_Labels = tl, tp_Annotations = ta, tp_Body = body\<rparr>,
      uo_JobTemplate := jt\<rparr>"
    using stamped_template [OF stamped] by blast
  have jt: "uo_Kind obj = ''CronJob'' \<Longrightarrow> \<exists>x. jt = Present x \<and> validateMetadata x b = None \<and> stamp b x = x"
    using s(6) stamp_valid by (cases "nested_or (Map.empty, Map.empty) (uo_JobTemplate obj)") (metis surj_pair)
  show ?thesis
    using False node s(2,7) stamp_valid [OF s(1)] stamp_valid [OF s(3)] stamp_gates_valid [OF s(4)] jt
    by (cases "uo_Kind obj = ''CronJob''")
      (auto simp: validateManagedObject_def managed_body_def check_body_def wanted_node_def stampBinding_def bindingMetadata_def Let_def)
qed

definition demo_create :: uobj where
  "demo_create = demo_target\<lparr>uo_Annotations := Map.empty, uo_Template := Present
     \<lparr>tp_Labels = Map.empty, tp_Annotations = Map.empty, tp_Body = \<lparr>pb_Gates = Present [Some ''example.com/other''], pb_NodeName = Absent, pb_Rest = []\<rparr>\<rparr>\<rparr>"

theorem stamped_object_is_valid_witness:
  "\<exists>obj'. stampBinding demo_create \<lparr>bd_name = ''web'', bd_uid = ''u'', bd_targetUID = ''t''\<rparr> = Inr obj' \<and>
     validateManagedObject obj' None \<lparr>bd_name = ''web'', bd_uid = ''u'', bd_targetUID = ''t''\<rparr> False = None \<and> uo_UID obj' = ''t''"
proof -
  let ?b = "\<lparr>bd_name = ''web'', bd_uid = ''u'', bd_targetUID = ''t''\<rparr>"
  obtain obj' where s: "stampBinding demo_create ?b = Inr obj'"
    by (cases "stampBinding demo_create ?b")
      (simp_all add: stampBinding_def bindingMetadata_def demo_create_def demo_target_def stamp_def stamp_gates_def)
  have "wanted_node demo_create = []" by (simp add: wanted_node_def demo_create_def demo_target_def)
  then show ?thesis
    using stamped_object_is_valid [OF s, of False] s by (simp add: demo_create_def demo_target_def)
qed

end
