(* ===== verification/Operator_System.thy ===== *)
theory Operator_System
  imports Operator_Gate
begin

text \<open>
  The operator as a whole: the calls its controllers and its webhook make for one lease, in any
  order, and what they guarantee of the pods of the lease's target.
\<close>

section \<open>The calls of the operator\<close>

datatype operator_call =
    ReconcileLease
  | ReconcilePod string string
  | ReconcileJob string string
  | Review codec WorkloadAdmission admission_review

fun operator_step ::
  "'w kube \<Rightarrow> 'w LeaseClient \<Rightarrow> BerthLeaseReconciler \<Rightarrow> string \<Rightarrow> string \<Rightarrow> operator_call \<Rightarrow> ('w, unit) state" where
  "operator_step K LC r ns nm ReconcileLease = do { x \<leftarrow> Reconcile K LC r ns nm; ret () }"
| "operator_step K LC r ns nm (ReconcilePod a b) = do { x \<leftarrow> pod_Reconcile K a b; ret () }"
| "operator_step K LC r ns nm (ReconcileJob a b) = do { x \<leftarrow> job_Reconcile K a b; ret () }"
| "operator_step K LC r ns nm (Review C h req) = do { x \<leftarrow> Handle K C h req; ret () }"

fun operator_run ::
  "'w kube \<Rightarrow> 'w LeaseClient \<Rightarrow> BerthLeaseReconciler \<Rightarrow> string \<Rightarrow> string \<Rightarrow> operator_call list \<Rightarrow> ('w, unit) state" where
  "operator_run K LC r ns nm [] = ret ()"
| "operator_run K LC r ns nm (c # cs) = do { x \<leftarrow> operator_step K LC r ns nm c; operator_run K LC r ns nm cs }"

context managed_cluster
begin

lemma operator_step_keeps: "keeps snap u (\<lambda>_. True) (operator_step K LC r ns nm c) (\<lambda>_ _. True)"
proof (cases c)
  case ReconcileLease
  then show ?thesis by (auto intro!: keeps_bind [OF Reconcile_keeps] keeps_ret)
qed (auto intro!: keeps_harmless_end harmless_intro pod_Reconcile_harmless job_Reconcile_harmless Handle_harmless)

lemma operator_run_keeps: "keeps snap u (\<lambda>_. True) (operator_run K LC r ns nm cs) (\<lambda>_ _. True)"
  by (induction cs) (auto intro!: keeps_ret keeps_bind [OF operator_step_keeps])

end

text \<open>What the invariant says of a pod that may run.\<close>

lemma open_pod_registered:
  assumes i: "cluster_inv u s" and p: "p \<in> cs_open s"
  shows "\<exists>l w. cs_lease s = Some l \<and> bl_UID l = u \<and> FinalizerName \<in> set (bl_Finalizers l) \<and> workload l = Some w \<and>
    busy w \<and> p \<in> pods_of w \<and> identity w \<notin> cs_released s"
proof -
  have live: "snd p \<in> cs_live s" using invD(2) [OF i p] .
  have a: "accounted u s p" using invD(3) [OF i invD(1) [OF i p] live] .
  then obtain w where w: "tracked u s = Some w" "busy w" "p \<in> pods_of w" by (auto simp: accounted_def)
  have "\<not> dry s w" using w(3) live by (auto simp: dry_def)
  then have r: "identity w \<notin> cs_released s" using invD(9) [OF i w(1,2)] by blast
  obtain l where "cs_lease s = Some l" "FinalizerName \<in> set (bl_Finalizers l)"
    using live_guarded [OF i a live] by (auto simp: guarded_def)
  then show ?thesis using w r by (auto simp: tracked_def acc_def split: if_splits)
qed

text \<open>
  C37.  For every cluster that meets the contract and every sequence of calls of the operator
  (rounds of the lease, pod and job reconcilers and admission reviews, interleaved with whatever
  others may do), a pod of the managed target that may run is registered, by name and UID, in the
  stored lease object of the incarnation it is bound to; that object carries the finalizer, its phase is active or stopping, and the
  release of the central identity under which the pod was started has not been requested.
\<close>

theorem running_pods_are_registered:
  assumes contract: "managed_cluster K LC snap ns nm u" and inv: "cluster_inv u (snap w)"
    and run: "run_state (operator_run K LC r ns nm calls) w = (x, w')" and p: "p \<in> cs_open (snap w')"
  shows "\<exists>l wl. cs_lease (snap w') = Some l \<and> bl_UID l = u \<and> FinalizerName \<in> set (bl_Finalizers l) \<and> workload l = Some wl \<and>
    busy wl \<and> p \<in> pods_of wl \<and> identity wl \<notin> cs_released (snap w')"
proof (rule open_pod_registered [OF _ p])
  show "cluster_inv u (snap w')"
    using ensuresD [OF managed_cluster.operator_run_keeps [OF contract, unfolded keeps_def] _ run] inv by simp
qed

definition demo_run :: "operator_call list \<Rightarrow> unit \<times> rworld" where
  "demo_run calls = run_state (operator_run (ref_kube ''ns'' ''web'' ''u'') (ref_client ''ns'' ''web'' ''u'') demo_reconciler ''ns'' ''web'' calls) demo_world"

lemma demo_inv: "cluster_inv ''u'' (ref_snap ''ns'' ''web'' ''u'' demo_world)"
proof -
  have wf: "ref_wf ''ns'' ''web'' ''u'' demo_world" by code_simp
  have live: "live_pods demo_world = {demo_pod}"
    by (auto simp: live_pods_def demo_world_def demo_pod_def terminal_def)
  have w: "tracked ''u'' (ref_snap ''ns'' ''web'' ''u'' demo_world) = Some demo_workload"
    using wf by (simp add: tracked_def acc_def demo_world_def demo_lease_def)
  show ?thesis
    unfolding cluster_inv_def using wf w live
    by (auto simp: accounted_def demo_world_def demo_lease_def demo_workload_def demo_spec_def demo_pod_def busy_def pods_of_def
        lease_fits_def acc_def guarded_def hasGate_def split: if_splits)
qed

text \<open>
  A round that renews the lease, during which a second pod is created: the pod is registered and
  its gate is removed.
\<close>

lemma demo_opens: "(''web-1'', ''vv'') \<in> cs_open (ref_snap ''ns'' ''web'' ''u'' (snd (demo_run [ReconcileLease])))"
  by code_simp

theorem running_pods_are_registered_witness:
  "(''web-1'', ''vv'') \<in> cs_open (ref_snap ''ns'' ''web'' ''u'' (snd (demo_run [ReconcileLease]))) \<and>
   (\<exists>l wl. cs_lease (ref_snap ''ns'' ''web'' ''u'' (snd (demo_run [ReconcileLease]))) = Some l \<and> bl_UID l = ''u'' \<and>
     FinalizerName \<in> set (bl_Finalizers l) \<and> workload l = Some wl \<and> busy wl \<and> (''web-1'', ''vv'') \<in> pods_of wl \<and>
     identity wl \<notin> cs_released (ref_snap ''ns'' ''web'' ''u'' (snd (demo_run [ReconcileLease]))))"
proof
  have run: "run_state (operator_run (ref_kube ''ns'' ''web'' ''u'') (ref_client ''ns'' ''web'' ''u'') demo_reconciler ''ns'' ''web''
      [ReconcileLease]) demo_world = (fst (demo_run [ReconcileLease]), snd (demo_run [ReconcileLease]))"
    by (simp only: demo_run_def prod.collapse)
  show "\<exists>l wl. cs_lease (ref_snap ''ns'' ''web'' ''u'' (snd (demo_run [ReconcileLease]))) = Some l \<and> bl_UID l = ''u'' \<and>
     FinalizerName \<in> set (bl_Finalizers l) \<and> workload l = Some wl \<and> busy wl \<and> (''web-1'', ''vv'') \<in> pods_of wl \<and>
     identity wl \<notin> cs_released (ref_snap ''ns'' ''web'' ''u'' (snd (demo_run [ReconcileLease])))"
    by (rule running_pods_are_registered [where K = "ref_kube ''ns'' ''web'' ''u''" and LC = "ref_client ''ns'' ''web'' ''u''" and
        snap = "ref_snap ''ns'' ''web'' ''u''" and ns = "''ns''" and nm = "''web''" and u = "''u''" and w = demo_world and
        p = "(''web-1'', ''vv'')" and w' = "snd (demo_run [ReconcileLease])" and r = demo_reconciler and calls = "[ReconcileLease]" and
        x = "fst (demo_run [ReconcileLease])", OF rc.managed_cluster_axioms demo_inv run demo_opens])
qed (rule demo_opens)

end
