(* ===== verification/Spec2Isabelle.thy ===== *)
theory Spec2Isabelle
  imports Lease_Spec K8s_Store API_Server Singleton_System Webhook_Inject Operator_System
begin

text \<open>
  A verification of Berth, a lease server with fencing tokens, its clients in the cluster, and its
  operator.  Paths are relative to \<open>src/\<close>.  Properties are numbered C1 to C40; each stands as one
  theorem after a text that states it, with a witness at a concrete input where it has hypotheses.

  \<^bold>\<open>The program and its parts.\<close>

  An API server keeps one record per key: holder, time to live, times of acquisition and of the last
  renewal, a fencing token and a version.  Its manager acquires, renews and releases leases by
  compare-and-swap on the version, over a store that several replicas share; a collector turns expired
  records into tombstones.  Pods take part in two ways.  An injection webhook adds an init container
  that waits for the lease and a sidecar that renews it and stops the workload when the lease is lost;
  or an operator holds the lease for a managed workload, opens the scheduling gates of its pods only
  while it holds the lease, and releases the lease only after the pods are gone.

  \<^bold>\<open>Which theory models which part.\<close>

  \<^item> \<open>Berth_Prelude\<close>: instants and durations as integers of nanoseconds, 32- and 64-bit words, errors
    with \<open>errors.Is\<close>, and the lemmas the components share.  \<open>Go_Text\<close>: the functions of \<open>strings\<close>
    and \<open>strconv\<close> that the sources call, with parsing as the inverse of formatting.  \<open>Go_Json\<close>: flat
    JSON objects as \<open>encoding/json\<close> writes them, with their round trip.  \<open>Sha256\<close>: the hash of API keys.
  \<^item> \<open>Lease_Core\<close>: records, expiry, tombstones, validation (\<open>internal/lease/store.go\<close>, \<open>validate.go\<close>).
    \<open>Lease_Store\<close>: the \<open>Store\<close> interface, the legal writes, the contract of a store as the locale
    \<open>lease_store\<close>, and the in-memory store (\<open>memstore.go\<close>), which interprets it.  \<open>Lease_Manager\<close>:
    \<open>Acquire\<close>, \<open>Renew\<close>, \<open>Release\<close> (\<open>manager.go\<close>) over any store.  \<open>Lease_GC\<close>: the collector (\<open>ttl.go\<close>).
    \<open>Lease_Shared\<close>: one store under several replicas; it interprets the contract for every policy of
    the peers.  \<open>Lease_Fencing\<close>, \<open>Lease_Spec\<close>: the properties of this group.
  \<^item> \<open>K8s_Store\<close>: the backend of Kubernetes Lease objects (\<open>k8sstore.go\<close>) over an API that is a
    parameter with the contract \<open>k8s_lease_api\<close>; a reference server with interfering writers
    interprets it.
  \<^item> \<open>Auth_Tenant\<close>: static keys and their file, the checks on OIDC claims, tenants
    (\<open>internal/auth\<close>, \<open>internal/tenant\<close>).  \<open>API_Server\<close>: handlers, routes, middleware, correlation ids
    and the readiness gate (\<open>internal/api\<close>).  \<open>Berth_Client\<close>: the client (\<open>pkg/client\<close>), the path
    escaping of \<open>net/url\<close>, the token file (\<open>internal/clientauth/tokensource.go\<close>), and the client
    against the server.
  \<^item> \<open>Acquire_Config\<close>, \<open>Acquire_State\<close>, \<open>Acquire_Enforce\<close>, \<open>Acquire_Renewer\<close>: the helper of the pods
    (\<open>internal/acquire\<close>, \<open>cmd/berth-acquire\<close>): configuration, the files of the shared volume over a file
    system with injected faults, the two enforcers (locale \<open>enforcer\<close>, interpreted on the enforcer
    that a configuration selects), the blocking hold and the loop of the sidecar (locale
    \<open>sidecar_host\<close>, interpreted on a pod).  \<open>Singleton_System\<close>: pods, network and server together, as
    the step relation \<open>sys_step\<close>.
  \<^item> \<open>Webhook_Inject\<close>: the injection webhook (\<open>internal/webhook\<close>).
  \<^item> \<open>Operator_Types\<close>, \<open>Operator_Admission\<close>, \<open>Operator_Workload\<close>, \<open>Operator_Reconcile\<close>: the resource
    (\<open>api/v1alpha1/types.go\<close>), the admission of managed workloads, the actions on targets, permits and
    draining, and the three reconcilers (\<open>internal/operator\<close>), as actions of the state monad over a
    Kubernetes client and a lease client that are parameters.  \<open>Operator_Cluster\<close>, \<open>Operator_Safety\<close>,
    \<open>Operator_Rounds\<close>, \<open>Operator_Peers\<close>: the invariant of the cluster, the contract of client and
    cluster as the locale \<open>managed_cluster\<close>, and the proof that every round keeps the invariant while the
    other controllers run.  \<open>Operator_Reference\<close>: a cluster that interprets the contract.
    \<open>Operator_Gate\<close>, \<open>Operator_System\<close>: the properties of this group.

  \<^bold>\<open>How the code is rendered.\<close>

  Structures are records, enumerations are datatypes, pointers and nil errors are options, and a
  fallible function returns \<open>goerr + 'a\<close>.  Every early return and error of a function is a branch of
  its definition.  State is passed explicitly; the operator, which threads it through many calls, uses
  the state monad.  The clock, the contexts, the order in which Go iterates over a map, file system
  faults and random numbers are arguments.  Numbers keep their width: tokens are 32-bit words, versions
  64-bit words, and a number of seconds becomes a duration by a product that wraps at 64 bits.  Long
  functions are split where the code has its own blocks; the name of each part starts a lower-case
  definition next to the function that composes them.  Texts of error messages are kept where code
  reads them; arguments that only enter a message are left out, and so are log lines.

  \<^bold>\<open>Code outside of the repository.\<close>

  It is a parameter with named laws: the RFC 1123 validators (\<open>dns1123_ok\<close>), the Kubernetes API
  (\<open>k8s_lease_api\<close>, \<open>managed_cluster\<close>), the discovery and verification of OIDC tokens, and the kubelet's
  environment (\<open>env_delivers\<close>).  The JSON codec is a parameter too, with laws (\<open>wire_ok\<close>) that
  \<open>Go_Json\<close> satisfies.  The theorems quantify over these parameters; the witnesses instantiate them.

  \<^bold>\<open>What the theorems show.\<close>

  \<^item> Leases (C1 to C11): a grant to another holder carries a greater token, whatever the replicas do in
    between; a lease is exclusive until its expiry; tokens never decrease and records are never deleted;
    grants, refusals and renewals describe the store as it is; over the in-memory store the three
    operations refine an atomic abstract lease and a sweep is pointwise.  C11 exhibits every run in
    which \<open>Release\<close> reports success while the lease is still held.
  \<^item> Kubernetes backend (C12 to C14): names are injective; \<open>Put\<close> is a compare-and-swap against every
    interleaving of other writers; writers of foreign metadata are survived and their data is kept.
  \<^item> Tenants and HTTP (C15 to C22): tenants have disjoint holders; keys files round trip and survive a
    failed reload; nothing reaches the manager unauthorized; granted answers, of acquire and renew,
    describe the stored record; internal errors reveal nothing; probes of the backend are spaced.
  \<^item> Client (C23 to C25): paths round trip through the router; a client call is the manager's call; the
    token file keeps the last good token.
  \<^item> Helper (C26 to C34): derived holders identify pods and belong to their tenant; the range in which
    seconds are exact, and how they wrap beyond it; files are replaced atomically; signals escalate and
    spare other processes; the hold returns exactly when it is granted or cancelled; the gate is open only
    while the lease is confirmed; the sidecar takes over what the init container was granted; and at most
    one pod is active.
  \<^item> Injection (C35, C36, C40): what the injector accepts the validator accepts, with the state volume
    closed to every container of the author; the helper reads the configuration that the webhook
    resolved; and when a debug container may be attached.
  \<^item> Operator (C37 to C39): for every cluster that keeps the contract and every sequence of calls, a pod
    of the target that may run is registered in the stored lease, under an identity whose release was
    not requested; a gate is removed only by the operator for a registered pod; stamping is valid and
    idempotent.

  \<^bold>\<open>Bounds.\<close>

  \<open>Acquire\<close> makes at most eight attempts and \<open>Put\<close> four, as in the code, and the recursion is on that
  number.  The blocking hold of the init container may wait for ever; it is a
  \<open>partial_function (option)\<close>, and C31 says when it returns.  The loops of the sidecar, the collector and
  the operator take the list of events they receive, of any length.  The readers of JSON
  objects and of lines take the length of the text as fuel, which is enough because every step consumes
  a character.  Versions are 64-bit words: between two calls of one replica fewer than
  \<open>2 ^ 32\<close> writes are made, and a sweep sees fewer than \<open>2 ^ 30\<close> records, so that no version wraps around
  within a call.  Times are unbounded integers; the difference of two times saturates as in Go.

  \<^bold>\<open>What is not modelled.\<close>

  The SQL backend (\<open>internal/lease/sqlstore\<close>), whose compare-and-swap is a condition that the database
  evaluates; processes and their wiring (\<open>cmd/apiserver\<close>, \<open>cmd/operator\<close>, \<open>cmd/berth-oidc-broker\<close>,
  \<open>internal/api/server.go\<close>), the command line and the console, which have no behaviour yet; metrics and logs,
  which no decision reads; the load generator and the conformance suite; the construction of
  Kubernetes clients and TLS configurations; generated code.  Of the parts that are modelled: data races
  are excluded by the locks of the code, so that an operation under a lock is one step; a process may stop
  between any two steps of \<open>sys_step\<close>, but not within one; the shutdown of a sidecar releases the lease
  without closing the gate, and C32 and C34 leave out the pod from then on.
\<close>

end
